theory Spec2Isabelle
  imports Main "HOL-Library.Word"
begin

unbundle bit_operations_syntax

section \<open>The polled EEPROM example over the PS IIC driver\<close>

text \<open>
  A shallow embedding of \<^verbatim>\<open>xiicps_eeprom_polled_example.c\<close>. The program's globals
  (the two buffers, the slave address and the page size) are the fields of a record
  that every function takes and returns. The vendor's driver is not part of the
  program: its entry points are the fields of a second record, each a function on an
  arbitrary hardware state \<open>'w\<close>. A log of the driver calls that act on the bus or on
  the slave monitor is kept beside the hardware state, so that the order and the
  arguments of the transfers can be stated.
\<close>

subsection \<open>Machine types and constants\<close>

type_synonym u8 = "8 word"
type_synonym u16 = "16 word"
type_synonym u32 = "32 word"
type_synonym s32 = "32 word"

text \<open>
  Modelled from the spec: the two status codes of the vendor header \<^verbatim>\<open>xstatus.h\<close>,
  which is not under src/ (the spec knows exactly two outcomes, success and failure).
  Nothing below depends on the numbers beyond their being different.
\<close>

definition XST_SUCCESS :: s32 where
  "XST_SUCCESS = 0"

definition XST_FAILURE :: s32 where
  "XST_FAILURE = 1"

definition IIC_SCLK_RATE :: nat where
  "IIC_SCLK_RATE = 100000"

definition SLV_MON_LOOP_COUNT :: nat where
  "SLV_MON_LOOP_COUNT = 0x00FFFFFF"

definition MUX_ADDR :: u16 where
  "MUX_ADDR = 0x74"

definition MAX_CHANNELS :: u8 where
  "MAX_CHANNELS = 0x04"

definition MAX_SIZE :: nat where
  "MAX_SIZE = 64"

definition PAGE_SIZE_16 :: u32 where
  "PAGE_SIZE_16 = 16"

definition PAGE_SIZE_32 :: u32 where
  "PAGE_SIZE_32 = 32"

definition PAGE_SIZE_64 :: u32 where
  "PAGE_SIZE_64 = 64"

definition EEPROM_START_ADDRESS :: u16 where
  "EEPROM_START_ADDRESS = 0"

text \<open>\<^verbatim>\<open>typedef u16 AddressType\<close>: two bytes.\<close>

definition sizeof_AddressType :: nat where
  "sizeof_AddressType = 2"

text \<open>The two zero-terminated candidate tables.\<close>

definition EepromAddr :: "u16 list" where
  "EepromAddr = [0x54, 0x55, 0]"

definition MuxAddr :: "u16 list" where
  "MuxAddr = [0x74, 0]"

subsection \<open>The driver and the program state\<close>

text \<open>
  The driver calls that are logged: the two polled transfers with their payload or
  byte count and the 7-bit slave address, the slave monitor being switched on and
  off, and the write to the interrupt status register. Status polls, sleeps and the
  configuration calls change the hardware state only.
\<close>

datatype event =
    EvSend "u8 list" u16
  | EvRecv nat u16
  | EvEnableSlaveMonitor u16
  | EvDisableSlaveMonitor
  | EvWriteIsr u32

text \<open>
  The capability surface of \<^verbatim>\<open>xiicps.h\<close>, \<^verbatim>\<open>xparameters.h\<close> and \<^verbatim>\<open>sleep.h\<close>, none
  of them under src/, taken as parameters. \<open>XIicPs_LookupConfig\<close> tells whether a
  configuration exists (the C function returns a pointer or NULL);
  \<open>XIicPs_MasterRecvPolled\<close> returns the status and the bytes the device delivered;
  \<open>XIicPs_BusIsBusy\<close> tells whether the bus is busy; the register accessors are those
  of the interrupt status register, the only register the program touches.
\<close>

record 'w platform =
  XPAR_XIICPS_NUM_INSTANCES :: u16
  XIICPS_IXR_SLV_RDY_MASK :: u32
  XIicPs_LookupConfig :: "u16 \<Rightarrow> bool"
  XIicPs_CfgInitialize :: "u16 \<Rightarrow> 'w \<Rightarrow> s32 \<times> 'w"
  XIicPs_SetSClk :: "nat \<Rightarrow> 'w \<Rightarrow> 'w"
  XIicPs_MasterSendPolled :: "u8 list \<Rightarrow> u16 \<Rightarrow> 'w \<Rightarrow> s32 \<times> 'w"
  XIicPs_MasterRecvPolled :: "nat \<Rightarrow> u16 \<Rightarrow> 'w \<Rightarrow> (s32 \<times> u8 list) \<times> 'w"
  XIicPs_BusIsBusy :: "'w \<Rightarrow> bool \<times> 'w"
  XIicPs_EnableSlaveMonitor :: "u16 \<Rightarrow> 'w \<Rightarrow> 'w"
  XIicPs_DisableSlaveMonitor :: "'w \<Rightarrow> 'w"
  XIicPs_ReadReg_ISR :: "'w \<Rightarrow> u32 \<times> 'w"
  XIicPs_WriteReg_ISR :: "u32 \<Rightarrow> 'w \<Rightarrow> 'w"
  usleep :: "nat \<Rightarrow> 'w \<Rightarrow> 'w"

text \<open>
  The globals of the program. \<open>WriteBuffer\<close> is declared with
  \<open>sizeof(AddressType) + MAX_SIZE\<close> bytes and \<open>ReadBuffer\<close> with \<open>MAX_SIZE\<close> bytes;
  \<open>world\<close> is the hardware together with the driver instance \<open>IicInstance\<close>.
\<close>

record 'w state =
  WriteBuffer :: "u8 list"
  ReadBuffer :: "u8 list"
  EepromSlvAddr :: u16
  PageSize :: u32
  world :: 'w
  bus_log :: "event list"

definition wf_state :: "'w state \<Rightarrow> bool" where
  "wf_state s \<longleftrightarrow>
     length (WriteBuffer s) = sizeof_AddressType + MAX_SIZE \<and>
     length (ReadBuffer s) = MAX_SIZE"

text \<open>
  A store past the end of an array is undefined in C; here it is a fault that ends
  the run. A run that never returns (a wait for the bus that never ends) is \<open>None\<close>.
\<close>

datatype fault = OutOfBounds

type_synonym 'a outcome = "(fault + 'a) option"

definition bind_o :: "'a outcome \<Rightarrow> ('a \<Rightarrow> 'b outcome) \<Rightarrow> 'b outcome" where
  "bind_o m f = (case m of None \<Rightarrow> None | Some (Inl e) \<Rightarrow> Some (Inl e) | Some (Inr x) \<Rightarrow> f x)"

definition ret :: "'a \<Rightarrow> 'a outcome" where
  "ret x = Some (Inr x)"

definition store_WriteBuffer :: "nat \<Rightarrow> u8 \<Rightarrow> 'w state \<Rightarrow> fault + 'w state" where
  "store_WriteBuffer i v s =
     (if i < length (WriteBuffer s) then Inr (s\<lparr>WriteBuffer := (WriteBuffer s)[i := v]\<rparr>)
      else Inl OutOfBounds)"

definition store_ReadBuffer :: "nat \<Rightarrow> u8 \<Rightarrow> 'w state \<Rightarrow> fault + 'w state" where
  "store_ReadBuffer i v s =
     (if i < length (ReadBuffer s) then Inr (s\<lparr>ReadBuffer := (ReadBuffer s)[i := v]\<rparr>)
      else Inl OutOfBounds)"

definition log_event :: "event \<Rightarrow> 'w state \<Rightarrow> 'w state" where
  "log_event e s = s\<lparr>bus_log := bus_log s @ [e]\<rparr>"

subsection \<open>Waiting for the bus\<close>

text \<open>\<^verbatim>\<open>while (XIicPs_BusIsBusy(IicInstance));\<close> has no bound.\<close>

partial_function (option) BusWait :: "'w platform \<Rightarrow> 'w state \<Rightarrow> 'w state option" where
  "BusWait hw s =
     (case XIicPs_BusIsBusy hw (world s) of
        (busy, w) \<Rightarrow> if busy then BusWait hw (s\<lparr>world := w\<rparr>) else Some (s\<lparr>world := w\<rparr>))"

definition BusIdle :: "'w platform \<Rightarrow> 'w state \<Rightarrow> 'w state outcome" where
  "BusIdle hw s = (case BusWait hw s of None \<Rightarrow> None | Some s1 \<Rightarrow> ret s1)"

subsection \<open>Page write and page read\<close>

text \<open>
  \<open>EepromWriteData\<close>: the driver sends the first \<open>ByteCount\<close> bytes of \<open>WriteBuffer\<close>
  to \<open>EepromSlvAddr\<close>; then the wait for the bus and the programming delay.
\<close>

definition EepromWriteData :: "'w platform \<Rightarrow> u16 \<Rightarrow> 'w state \<Rightarrow> (s32 \<times> 'w state) outcome" where
  "EepromWriteData hw ByteCount s =
     (if length (WriteBuffer s) < unat ByteCount then Some (Inl OutOfBounds)
      else
        let bytes = take (unat ByteCount) (WriteBuffer s);
            (Status, w) = XIicPs_MasterSendPolled hw bytes (EepromSlvAddr s) (world s);
            s1 = log_event (EvSend bytes (EepromSlvAddr s)) (s\<lparr>world := w\<rparr>)
        in if Status \<noteq> XST_SUCCESS then ret (XST_FAILURE, s1)
           else
             bind_o (BusIdle hw s1) (\<lambda>s2.
               ret (XST_SUCCESS, s2\<lparr>world := usleep hw 250000 (world s2)\<rparr>)))"

text \<open>
  What the driver's receive leaves in a buffer: the bytes delivered, at most \<open>n\<close> of
  them, over the front of the buffer.
\<close>

definition recv_into :: "nat \<Rightarrow> u8 list \<Rightarrow> u8 list \<Rightarrow> u8 list" where
  "recv_into n bytes buf = take n bytes @ drop (length (take n bytes)) buf"

text \<open>
  \<open>EepromReadData\<close>. Both callers pass \<open>ReadBuffer\<close> as \<open>BufferPtr\<close>, so the model
  receives into \<open>ReadBuffer\<close>. The address pointer is encoded by the global \<open>PageSize\<close>.
\<close>

definition EncodeAddress :: "u32 \<Rightarrow> u16 \<Rightarrow> 'w state \<Rightarrow> fault + (u32 \<times> 'w state)" where
  "EncodeAddress Size Address s =
     (if Size = PAGE_SIZE_16 then
        (case store_WriteBuffer 0 (ucast Address) s of
           Inl e \<Rightarrow> Inl e
         | Inr s1 \<Rightarrow> Inr (1, s1))
      else
        (case store_WriteBuffer 0 (ucast (drop_bit 8 Address)) s of
           Inl e \<Rightarrow> Inl e
         | Inr s1 \<Rightarrow>
             (case store_WriteBuffer 1 (ucast Address) s1 of
                Inl e \<Rightarrow> Inl e
              | Inr s2 \<Rightarrow> Inr (2, s2))))"

definition EepromReadData :: "'w platform \<Rightarrow> u16 \<Rightarrow> u16 \<Rightarrow> 'w state \<Rightarrow> (s32 \<times> 'w state) outcome" where
  "EepromReadData hw ByteCount Address s =
     bind_o (Some (EncodeAddress (PageSize s) Address s)) (\<lambda>(WrBfrOffset, s1).
     bind_o (EepromWriteData hw (ucast WrBfrOffset) s1) (\<lambda>(Status, s2).
       if Status \<noteq> XST_SUCCESS then ret (XST_FAILURE, s2)
       else if length (ReadBuffer s2) < unat ByteCount then Some (Inl OutOfBounds)
       else
         let ((Status, bytes), w) =
               XIicPs_MasterRecvPolled hw (unat ByteCount) (EepromSlvAddr s2) (world s2);
             s3 = log_event (EvRecv (unat ByteCount) (EepromSlvAddr s2))
                    (s2\<lparr>world := w, ReadBuffer := recv_into (unat ByteCount) bytes (ReadBuffer s2)\<rparr>)
         in if Status \<noteq> XST_SUCCESS then ret (XST_FAILURE, s3)
            else bind_o (BusIdle hw s3) (\<lambda>s4. ret (XST_SUCCESS, s4))))"

subsection \<open>Multiplexer channel selection\<close>

text \<open>
  \<open>MuxInitChannel\<close> sends its one-byte argument to the multiplexer and reads one byte
  back into a local; neither global buffer is touched.
\<close>

definition MuxInitChannel :: "'w platform \<Rightarrow> u16 \<Rightarrow> u8 \<Rightarrow> 'w state \<Rightarrow> (s32 \<times> 'w state) outcome" where
  "MuxInitChannel hw MuxIicAddr Channel s =
     bind_o (BusIdle hw s) (\<lambda>s0.
       let (Status, w) = XIicPs_MasterSendPolled hw [Channel] MuxIicAddr (world s0);
           s1 = log_event (EvSend [Channel] MuxIicAddr) (s0\<lparr>world := w\<rparr>)
       in if Status \<noteq> XST_SUCCESS then ret (XST_FAILURE, s1)
          else
            bind_o (BusIdle hw s1) (\<lambda>s2.
              let ((Status, bytes), w) = XIicPs_MasterRecvPolled hw 1 MuxIicAddr (world s2);
                  s3 = log_event (EvRecv 1 MuxIicAddr) (s2\<lparr>world := w\<rparr>)
              in if Status \<noteq> XST_SUCCESS then ret (XST_FAILURE, s3)
                 else bind_o (BusIdle hw s3) (\<lambda>s4. ret (XST_SUCCESS, s4))))"

subsection \<open>Configuration and the slave monitor\<close>

definition IicPsConfig :: "'w platform \<Rightarrow> u16 \<Rightarrow> 'w state \<Rightarrow> s32 \<times> 'w state" where
  "IicPsConfig hw DeviceId s =
     (if \<not> XIicPs_LookupConfig hw DeviceId then (XST_FAILURE, s)
      else
        let (Status, w) = XIicPs_CfgInitialize hw DeviceId (world s)
        in if Status \<noteq> XST_SUCCESS then (XST_FAILURE, s\<lparr>world := w\<rparr>)
           else (XST_SUCCESS, s\<lparr>world := XIicPs_SetSClk hw IIC_SCLK_RATE w\<rparr>))"

text \<open>
  The polling loop that \<open>IicPsSlaveMonitor\<close> and \<open>FindEepromDevice\<close> both contain,
  statement for statement: up to \<open>SLV_MON_LOOP_COUNT\<close> reads of the interrupt status
  register; at the first read with the slave-ready bit the monitor is disabled and
  the value read is written back to the register; after the last read without it
  the monitor is disabled.
\<close>

function SlaveMonitorPoll :: "'w platform \<Rightarrow> nat \<Rightarrow> 'w state \<Rightarrow> s32 \<times> 'w state" where
  "SlaveMonitorPoll hw Index s =
     (if Index < SLV_MON_LOOP_COUNT then
        (case XIicPs_ReadReg_ISR hw (world s) of
           (IntrStatusReg, w) \<Rightarrow>
             if IntrStatusReg AND XIICPS_IXR_SLV_RDY_MASK hw \<noteq> 0 then
               (XST_SUCCESS,
                log_event (EvWriteIsr IntrStatusReg)
                  (log_event EvDisableSlaveMonitor
                    (s\<lparr>world := XIicPs_WriteReg_ISR hw IntrStatusReg
                                  (XIicPs_DisableSlaveMonitor hw w)\<rparr>)))
             else SlaveMonitorPoll hw (Index + 1) (s\<lparr>world := w\<rparr>))
      else
        (XST_FAILURE,
         log_event EvDisableSlaveMonitor (s\<lparr>world := XIicPs_DisableSlaveMonitor hw (world s)\<rparr>)))"
  by pat_completeness auto
termination
  by (relation "measure (\<lambda>(hw, Index, s). SLV_MON_LOOP_COUNT - Index)") auto

definition EnableSlaveMonitor :: "'w platform \<Rightarrow> u16 \<Rightarrow> 'w state \<Rightarrow> 'w state" where
  "EnableSlaveMonitor hw Address s =
     log_event (EvEnableSlaveMonitor Address)
       (s\<lparr>world := XIicPs_EnableSlaveMonitor hw Address (world s)\<rparr>)"

definition IicPsSlaveMonitor :: "'w platform \<Rightarrow> u16 \<Rightarrow> u16 \<Rightarrow> 'w state \<Rightarrow> s32 \<times> 'w state" where
  "IicPsSlaveMonitor hw Address DeviceId s =
     (case IicPsConfig hw DeviceId s of
        (Status, s1) \<Rightarrow>
          if Status \<noteq> XST_SUCCESS then (XST_FAILURE, s1)
          else SlaveMonitorPoll hw 0 (EnableSlaveMonitor hw Address s1))"

definition IicPsFindDevice :: "'w platform \<Rightarrow> u16 \<Rightarrow> u16 \<Rightarrow> 'w state \<Rightarrow> s32 \<times> 'w state" where
  "IicPsFindDevice hw addr DeviceId s =
     (case IicPsSlaveMonitor hw addr DeviceId s of
        (Status, s1) \<Rightarrow> if Status = XST_SUCCESS then (XST_SUCCESS, s1) else (XST_FAILURE, s1))"

definition FindEepromDevice :: "'w platform \<Rightarrow> u16 \<Rightarrow> 'w state \<Rightarrow> s32 \<times> 'w state" where
  "FindEepromDevice hw Address s = SlaveMonitorPoll hw 0 (EnableSlaveMonitor hw Address s)"

subsection \<open>Page size detection\<close>

text \<open>How a loop body ends: by a \<^verbatim>\<open>return\<close> of the function, or by going on.\<close>

datatype 'a flow = Return s32 | Continue 'a

definition load_ReadBuffer :: "nat \<Rightarrow> 'w state \<Rightarrow> fault + u8" where
  "load_ReadBuffer i s = (if i < length (ReadBuffer s) then Inr (ReadBuffer s ! i) else Inl OutOfBounds)"

definition ps :: "u32 list" where
  "ps = [64, 32, 16]"

text \<open>
  The fill loop of trial \<open>i\<close>: \<^verbatim>\<open>WriteBuffer[WrBfrOffset + Index] = Index + i;
  ReadBuffer[Index] = 0;\<close>
\<close>

function FillPattern :: "nat \<Rightarrow> u32 \<Rightarrow> u32 \<Rightarrow> nat \<Rightarrow> 'w state \<Rightarrow> fault + 'w state" where
  "FillPattern i WrBfrOffset PageSize_test Index s =
     (if Index < unat PageSize_test then
        (case store_WriteBuffer (unat WrBfrOffset + Index) (of_nat (Index + i)) s of
           Inl e \<Rightarrow> Inl e
         | Inr s1 \<Rightarrow>
             (case store_ReadBuffer Index 0 s1 of
                Inl e \<Rightarrow> Inl e
              | Inr s2 \<Rightarrow> FillPattern i WrBfrOffset PageSize_test (Index + 1) s2))
      else Inr s)"
  by pat_completeness auto
termination
  by (relation "measure (\<lambda>(i, WrBfrOffset, PageSize_test, Index, s). unat PageSize_test - Index)") auto

text \<open>
  The verify loop of trial \<open>i\<close>: \<^verbatim>\<open>if (ReadBuffer[Index] == Index + i) count++;\<close>, the
  comparison being one of 32-bit unsigned values.
\<close>

function CountMatches :: "nat \<Rightarrow> u32 \<Rightarrow> nat \<Rightarrow> u32 \<Rightarrow> 'w state \<Rightarrow> fault + u32" where
  "CountMatches i PageSize_test Index count s =
     (if Index < unat PageSize_test then
        (case load_ReadBuffer Index s of
           Inl e \<Rightarrow> Inl e
         | Inr b \<Rightarrow>
             CountMatches i PageSize_test (Index + 1)
               (if (ucast b :: u32) = of_nat Index + of_nat i then count + 1 else count) s)
      else Inr count)"
  by pat_completeness auto
termination
  by (relation "measure (\<lambda>(i, PageSize_test, Index, count, s). unat PageSize_test - Index)") auto

text \<open>
  One pass of the \<^verbatim>\<open>for (i = 0; i < 3; i++)\<close> loop of \<open>FindEepromPageSize\<close>. The only
  caller passes the address of the global \<open>PageSize\<close> as \<open>PageSize_ptr\<close>, so the store
  through the pointer is a store to the global, which \<open>EepromReadData\<close> reads.
  A pass that goes on hands the value of \<open>Status\<close> to the next one.
\<close>

definition PageSizeTrial :: "'w platform \<Rightarrow> nat \<Rightarrow> 'w state \<Rightarrow> (s32 flow \<times> 'w state) outcome" where
  "PageSizeTrial hw i s =
     (let PageSize_test = ps ! i;
          Address = EEPROM_START_ADDRESS;
          s0 = s\<lparr>PageSize := PageSize_test\<rparr>
      in
        bind_o (Some (EncodeAddress PageSize_test Address s0)) (\<lambda>(WrBfrOffset, s1).
        bind_o (Some (FillPattern i WrBfrOffset PageSize_test 0 s1)) (\<lambda>s2.
        bind_o (EepromWriteData hw (ucast (WrBfrOffset + PageSize_test)) s2) (\<lambda>(Status, s3).
          if Status \<noteq> XST_SUCCESS then ret (Return XST_FAILURE, s3)
          else
            bind_o (EepromReadData hw (ucast PageSize_test) Address s3) (\<lambda>(Status, s4).
              if Status \<noteq> XST_SUCCESS then ret (Return XST_FAILURE, s4)
              else
                bind_o (Some (CountMatches i PageSize_test 0 0 s4)) (\<lambda>count.
                  if count = PageSize_test then ret (Return XST_SUCCESS, s4)
                  else ret (Continue Status, s4)))))))"

text \<open>
  The loop from trial \<open>i\<close> on, with the current value of \<open>Status\<close>; after the third
  trial \<^verbatim>\<open>return Status;\<close>.
\<close>

function FindEepromPageSize_loop :: "'w platform \<Rightarrow> nat \<Rightarrow> s32 \<Rightarrow> 'w state \<Rightarrow> (s32 \<times> 'w state) outcome" where
  "FindEepromPageSize_loop hw i Status s =
     (if i < 3 then
        bind_o (PageSizeTrial hw i s) (\<lambda>(r, s1).
          case r of
            Return st \<Rightarrow> ret (st, s1)
          | Continue Status1 \<Rightarrow> FindEepromPageSize_loop hw (i + 1) Status1 s1)
      else ret (Status, s))"
  by pat_completeness auto
termination
  by (relation "measure (\<lambda>(hw, i, Status, s). 3 - i)") auto

text \<open>The parameter \<open>EepromAddr\<close> of the C function is not used by its body.\<close>

definition FindEepromPageSize :: "'w platform \<Rightarrow> u16 \<Rightarrow> 'w state \<Rightarrow> (s32 \<times> 'w state) outcome" where
  "FindEepromPageSize hw EepromAddr_arg s = FindEepromPageSize_loop hw 0 XST_FAILURE s"

subsection \<open>Locating the EEPROM\<close>

text \<open>
  The loops of \<open>IicPsFindEeprom\<close>, innermost first. Its two pointer arguments are the
  addresses of the globals \<open>EepromSlvAddr\<close> and \<open>PageSize\<close>. A table is read at
  \<open>Index\<close> until the entry is zero; a read past the end of the table is a fault.

  The channel loop, for one multiplexer and one EEPROM candidate:
  \<^verbatim>\<open>for (MuxChannel = MAX_CHANNELS; MuxChannel > 0x0; MuxChannel = MuxChannel >> 1)\<close>.
\<close>

function ChannelLoop :: "'w platform \<Rightarrow> u16 \<Rightarrow> u16 \<Rightarrow> u8 \<Rightarrow> 'w state \<Rightarrow> (unit flow \<times> 'w state) outcome" where
  "ChannelLoop hw MuxIicAddr Address MuxChannel s =
     (if 0 < MuxChannel then
        bind_o (MuxInitChannel hw MuxIicAddr MuxChannel s) (\<lambda>(Status, s1).
          if Status \<noteq> XST_SUCCESS then ret (Return XST_FAILURE, s1)
          else
            (case FindEepromDevice hw Address s1 of
               (Status, s2) \<Rightarrow>
                 if Status = XST_SUCCESS then
                   bind_o (FindEepromPageSize hw Address (s2\<lparr>EepromSlvAddr := Address\<rparr>)) (\<lambda>(Status, s3).
                     if Status \<noteq> XST_SUCCESS then ret (Return XST_FAILURE, s3)
                     else ret (Return XST_SUCCESS, s3))
                 else ChannelLoop hw MuxIicAddr Address (drop_bit 1 MuxChannel) s2))
      else ret (Continue (), s))"
  by pat_completeness auto
termination
proof (relation "measure (\<lambda>(hw, MuxIicAddr, Address, MuxChannel, s). unat MuxChannel)")
  show "wf (measure (\<lambda>(hw :: 'w platform, MuxIicAddr :: u16, Address :: u16, MuxChannel :: u8, s :: 'w state). unat MuxChannel))"
    by simp
next
  fix hw :: "'w platform" and MuxIicAddr Address :: u16 and MuxChannel :: u8
    and s s2 :: "'w state" and x xa y x2 ya
  assume "0 < MuxChannel"
  then have "unat (drop_bit 1 MuxChannel) < unat MuxChannel"
    by (simp add: drop_bit_eq_div unat_div word_gt_0 unat_eq_0 flip: unat_gt_0)
  then show "((hw, MuxIicAddr, Address, drop_bit 1 MuxChannel, s2), (hw, MuxIicAddr, Address, MuxChannel, s))
      \<in> measure (\<lambda>(hw, MuxIicAddr, Address, MuxChannel, s). unat MuxChannel)"
    by simp
qed

text \<open>\<^verbatim>\<open>for (Index = 0; EepromAddr[Index] != 0; Index++)\<close> behind one multiplexer.\<close>

function MuxEepromLoop :: "'w platform \<Rightarrow> u16 \<Rightarrow> nat \<Rightarrow> 'w state \<Rightarrow> (unit flow \<times> 'w state) outcome" where
  "MuxEepromLoop hw MuxIicAddr Index s =
     (if length EepromAddr \<le> Index then Some (Inl OutOfBounds)
      else if EepromAddr ! Index \<noteq> 0 then
        bind_o (ChannelLoop hw MuxIicAddr (EepromAddr ! Index) MAX_CHANNELS s) (\<lambda>(r, s1).
          case r of
            Return st \<Rightarrow> ret (Return st, s1)
          | Continue u \<Rightarrow> MuxEepromLoop hw MuxIicAddr (Index + 1) s1)
      else ret (Continue (), s))"
  by pat_completeness auto
termination
  by (relation "measure (\<lambda>(hw, MuxIicAddr, Index, s). length EepromAddr - Index)") auto

text \<open>\<^verbatim>\<open>for (MuxIndex = 0; MuxAddr[MuxIndex] != 0; MuxIndex++)\<close> on one controller.\<close>

function MuxLoop :: "'w platform \<Rightarrow> u16 \<Rightarrow> nat \<Rightarrow> 'w state \<Rightarrow> (unit flow \<times> 'w state) outcome" where
  "MuxLoop hw DeviceId MuxIndex s =
     (if length MuxAddr \<le> MuxIndex then Some (Inl OutOfBounds)
      else if MuxAddr ! MuxIndex \<noteq> 0 then
        (case IicPsFindDevice hw (MuxAddr ! MuxIndex) DeviceId s of
           (Status, s1) \<Rightarrow>
             if Status = XST_SUCCESS then
               bind_o (MuxEepromLoop hw (MuxAddr ! MuxIndex) 0 s1) (\<lambda>(r, s2).
                 case r of
                   Return st \<Rightarrow> ret (Return st, s2)
                 | Continue u \<Rightarrow> MuxLoop hw DeviceId (MuxIndex + 1) s2)
             else MuxLoop hw DeviceId (MuxIndex + 1) s1)
      else ret (Continue (), s))"
  by pat_completeness auto
termination
  by (relation "measure (\<lambda>(hw, DeviceId, MuxIndex, s). length MuxAddr - MuxIndex)") auto

text \<open>The second loop over \<open>EepromAddr\<close>, with no multiplexer: the default page size.\<close>

function DirectLoop :: "'w platform \<Rightarrow> u16 \<Rightarrow> nat \<Rightarrow> 'w state \<Rightarrow> (unit flow \<times> 'w state) outcome" where
  "DirectLoop hw DeviceId Index s =
     (if length EepromAddr \<le> Index then Some (Inl OutOfBounds)
      else if EepromAddr ! Index \<noteq> 0 then
        (case IicPsFindDevice hw (EepromAddr ! Index) DeviceId s of
           (Status, s1) \<Rightarrow>
             if Status = XST_SUCCESS then
               ret (Return XST_SUCCESS,
                    s1\<lparr>EepromSlvAddr := EepromAddr ! Index, PageSize := PAGE_SIZE_32\<rparr>)
             else DirectLoop hw DeviceId (Index + 1) s1)
      else ret (Continue (), s))"
  by pat_completeness auto
termination
  by (relation "measure (\<lambda>(hw, DeviceId, Index, s). length EepromAddr - Index)") auto

text \<open>The body of the loop over the controllers, for one \<open>DeviceId\<close>.\<close>

definition FindEepromOnDevice :: "'w platform \<Rightarrow> u16 \<Rightarrow> 'w state \<Rightarrow> (unit flow \<times> 'w state) outcome" where
  "FindEepromOnDevice hw DeviceId s =
     bind_o (MuxLoop hw DeviceId 0 s) (\<lambda>(r, s1).
       case r of
         Return st \<Rightarrow> ret (Return st, s1)
       | Continue u \<Rightarrow> DirectLoop hw DeviceId 0 s1)"

text \<open>
  \<^verbatim>\<open>for (DeviceId = 0; DeviceId < XPAR_XIICPS_NUM_INSTANCES; DeviceId++)\<close>, the
  instance count being a 16-bit parameter of the platform.
\<close>

function DeviceLoop :: "'w platform \<Rightarrow> u16 \<Rightarrow> 'w state \<Rightarrow> (s32 \<times> 'w state) outcome" where
  "DeviceLoop hw DeviceId s =
     (if DeviceId < XPAR_XIICPS_NUM_INSTANCES hw then
        bind_o (FindEepromOnDevice hw DeviceId s) (\<lambda>(r, s1).
          case r of
            Return st \<Rightarrow> ret (st, s1)
          | Continue u \<Rightarrow> DeviceLoop hw (DeviceId + 1) s1)
      else ret (XST_FAILURE, s))"
  by pat_completeness auto
termination
proof (relation "measure (\<lambda>(hw, DeviceId, s). unat (XPAR_XIICPS_NUM_INSTANCES hw) - unat DeviceId)")
  show "wf (measure (\<lambda>(hw :: 'w platform, DeviceId :: u16, s :: 'w state).
              unat (XPAR_XIICPS_NUM_INSTANCES hw) - unat DeviceId))"
    by simp
next
  fix hw :: "'w platform" and DeviceId :: u16 and s s1 :: "'w state" and x xa y x2
  assume less: "DeviceId < XPAR_XIICPS_NUM_INSTANCES hw"
  then have "unat DeviceId < unat (XPAR_XIICPS_NUM_INSTANCES hw)"
    by (simp add: word_less_nat_alt)
  moreover from less have "unat (DeviceId + 1) = unat DeviceId + 1"
    by (metis (no_types, lifting) add.commute add_0 inc_i inc_le
        unat_plus_simple unsigned_0 unsigned_1 word_gt_0)
  ultimately show "((hw, DeviceId + 1, s1), (hw, DeviceId, s))
      \<in> measure (\<lambda>(hw, DeviceId, s). unat (XPAR_XIICPS_NUM_INSTANCES hw) - unat DeviceId)"
    by simp
qed

definition IicPsFindEeprom :: "'w platform \<Rightarrow> 'w state \<Rightarrow> (s32 \<times> 'w state) outcome" where
  "IicPsFindEeprom hw s = DeviceLoop hw 0 s"

subsection \<open>The self-test\<close>

text \<open>
  The address bytes of the write phase. The local \<open>Address\<close> is initialised to
  \<open>EEPROM_START_ADDRESS\<close> and never assigned again; \<open>page_count * PageSize\<close> is a
  32-bit unsigned product.
\<close>

definition WritePhaseAddress :: "nat \<Rightarrow> 'w state \<Rightarrow> fault + (u32 \<times> 'w state)" where
  "WritePhaseAddress page_count s =
     (let Address = EEPROM_START_ADDRESS in
      if PageSize s = PAGE_SIZE_16 then
        (case store_WriteBuffer 0 (ucast Address) s of
           Inl e \<Rightarrow> Inl e
         | Inr s1 \<Rightarrow> Inr (1, s1))
      else
        (case store_WriteBuffer 0 (ucast (drop_bit 8 (of_nat page_count * PageSize s)) AND 0xFF) s of
           Inl e \<Rightarrow> Inl e
         | Inr s1 \<Rightarrow>
             (case store_WriteBuffer 1 (ucast (of_nat page_count * PageSize s) AND 0xFF) s1 of
                Inl e \<Rightarrow> Inl e
              | Inr s2 \<Rightarrow> Inr (2, s2))))"

text \<open>
  \<^verbatim>\<open>for (Index = 0; Index < PageSize; Index++) { WriteBuffer[WrBfrOffset + Index] = 0xFF;
  ReadBuffer[Index] = 0; }\<close>. No statement of the loop assigns \<open>PageSize\<close>, so the
  bound is passed as \<open>Size\<close>.
\<close>

function FillFF :: "u32 \<Rightarrow> u32 \<Rightarrow> nat \<Rightarrow> 'w state \<Rightarrow> fault + 'w state" where
  "FillFF WrBfrOffset Size Index s =
     (if Index < unat Size then
        (case store_WriteBuffer (unat WrBfrOffset + Index) 0xFF s of
           Inl e \<Rightarrow> Inl e
         | Inr s1 \<Rightarrow>
             (case store_ReadBuffer Index 0 s1 of
                Inl e \<Rightarrow> Inl e
              | Inr s2 \<Rightarrow> FillFF WrBfrOffset Size (Index + 1) s2))
      else Inr s)"
  by pat_completeness auto
termination
  by (relation "measure (\<lambda>(WrBfrOffset, Size, Index, s). unat Size - Index)") auto

text \<open>One pass of the first \<^verbatim>\<open>for (int page_count = 0; page_count < 256; page_count++)\<close>.\<close>

definition WritePage :: "'w platform \<Rightarrow> nat \<Rightarrow> 'w state \<Rightarrow> (unit flow \<times> 'w state) outcome" where
  "WritePage hw page_count s =
     bind_o (Some (WritePhaseAddress page_count s)) (\<lambda>(WrBfrOffset, s1).
     bind_o (Some (FillFF WrBfrOffset (PageSize s1) 0 s1)) (\<lambda>s2.
     bind_o (EepromWriteData hw (ucast (WrBfrOffset + PageSize s2)) s2) (\<lambda>(Status, s3).
       if Status \<noteq> XST_SUCCESS then ret (Return XST_FAILURE, s3)
       else ret (Continue (), s3))))"

function WritePhase :: "'w platform \<Rightarrow> nat \<Rightarrow> 'w state \<Rightarrow> (unit flow \<times> 'w state) outcome" where
  "WritePhase hw page_count s =
     (if page_count < 256 then
        bind_o (WritePage hw page_count s) (\<lambda>(r, s1).
          case r of
            Return st \<Rightarrow> ret (Return st, s1)
          | Continue u \<Rightarrow> WritePhase hw (page_count + 1) s1)
      else ret (Continue (), s))"
  by pat_completeness auto
termination
  by (relation "measure (\<lambda>(hw, page_count, s). 256 - page_count)") auto

text \<open>
  The verify loop of the read phase: \<open>True\<close> when some byte of the page differs from
  \<open>0xFF\<close>, which makes the self-test return \<open>XST_FAILURE\<close>.
\<close>

function VerifyFF :: "u32 \<Rightarrow> nat \<Rightarrow> 'w state \<Rightarrow> fault + bool" where
  "VerifyFF Size Index s =
     (if Index < unat Size then
        (case load_ReadBuffer Index s of
           Inl e \<Rightarrow> Inl e
         | Inr b \<Rightarrow> if b \<noteq> 0xFF then Inr True else VerifyFF Size (Index + 1) s)
      else Inr False)"
  by pat_completeness auto
termination
  by (relation "measure (\<lambda>(Size, Index, s). unat Size - Index)") auto

text \<open>One pass of the second loop over \<open>page_count\<close>.\<close>

definition ReadPage :: "'w platform \<Rightarrow> nat \<Rightarrow> 'w state \<Rightarrow> (unit flow \<times> 'w state) outcome" where
  "ReadPage hw page_count s =
     bind_o (EepromReadData hw (ucast (PageSize s)) (ucast (of_nat page_count * PageSize s)) s)
       (\<lambda>(Status, s1).
          if Status \<noteq> XST_SUCCESS then ret (Return XST_FAILURE, s1)
          else
            bind_o (Some (VerifyFF (PageSize s1) 0 s1)) (\<lambda>mismatch.
              if mismatch then ret (Return XST_FAILURE, s1) else ret (Continue (), s1)))"

function ReadPhase :: "'w platform \<Rightarrow> nat \<Rightarrow> 'w state \<Rightarrow> (unit flow \<times> 'w state) outcome" where
  "ReadPhase hw page_count s =
     (if page_count < 256 then
        bind_o (ReadPage hw page_count s) (\<lambda>(r, s1).
          case r of
            Return st \<Rightarrow> ret (Return st, s1)
          | Continue u \<Rightarrow> ReadPhase hw (page_count + 1) s1)
      else ret (Continue (), s))"
  by pat_completeness auto
termination
  by (relation "measure (\<lambda>(hw, page_count, s). 256 - page_count)") auto

definition IicPsEepromPolledExample :: "'w platform \<Rightarrow> 'w state \<Rightarrow> (s32 \<times> 'w state) outcome" where
  "IicPsEepromPolledExample hw s =
     bind_o (IicPsFindEeprom hw s) (\<lambda>(Status, s1).
       if Status \<noteq> XST_SUCCESS then ret (XST_FAILURE, s1)
       else
         bind_o (WritePhase hw 0 s1) (\<lambda>(r, s2).
           case r of
             Return st \<Rightarrow> ret (st, s2)
           | Continue u \<Rightarrow>
               bind_o (ReadPhase hw 0 s2) (\<lambda>(r, s3).
                 case r of
                   Return st \<Rightarrow> ret (st, s3)
                 | Continue u \<Rightarrow> ret (XST_SUCCESS, s3))))"

subsection \<open>The pages of the detector\<close>

definition TrialPage :: "nat \<Rightarrow> u8 list" where
  "TrialPage i = map (\<lambda>k. of_nat (k + i)) [0..<unat (ps ! i)]"

definition TrialAddress :: "nat \<Rightarrow> u8 list" where
  "TrialAddress i = (if ps ! i = PAGE_SIZE_16 then [0] else [0, 0])"

definition TrialStart :: "nat \<Rightarrow> 'w state \<Rightarrow> 'w state" where
  "TrialStart i s =
     s\<lparr>WriteBuffer := TrialAddress i @ TrialPage i
                        @ drop (length (TrialAddress i) + length (TrialPage i)) (WriteBuffer s),
       ReadBuffer := replicate (unat (ps ! i)) 0 @ drop (unat (ps ! i)) (ReadBuffer s),
       PageSize := ps ! i\<rparr>"


text \<open>
  A run that does not fault and whose result, when it returns, satisfies \<open>Q\<close>.
\<close>

definition ok_o :: "('a \<Rightarrow> bool) \<Rightarrow> 'a outcome \<Rightarrow> bool" where
  "ok_o Q m = (case m of None \<Rightarrow> True | Some (Inl e) \<Rightarrow> False | Some (Inr x) \<Rightarrow> Q x)"

subsection \<open>The pages of the self-test\<close>

text \<open>The address bytes that the write phase puts in front of page \<open>page_count\<close>.\<close>

definition WritePhaseBytes :: "nat \<Rightarrow> u32 \<Rightarrow> u8 list" where
  "WritePhaseBytes page_count Size =
     (if Size = PAGE_SIZE_16 then [ucast EEPROM_START_ADDRESS]
      else [ucast (drop_bit 8 (of_nat page_count * Size)) AND 0xFF,
            ucast (of_nat page_count * Size) AND 0xFF])"

text \<open>The buffers with which the write phase sends page \<open>page_count\<close>.\<close>

definition WriteStart :: "nat \<Rightarrow> 'w state \<Rightarrow> 'w state" where
  "WriteStart page_count s =
     s\<lparr>WriteBuffer := WritePhaseBytes page_count (PageSize s) @ replicate (unat (PageSize s)) 0xFF
                        @ drop (length (WritePhaseBytes page_count (PageSize s)) + unat (PageSize s))
                            (WriteBuffer s),
       ReadBuffer := replicate (unat (PageSize s)) 0 @ drop (unat (PageSize s)) (ReadBuffer s)\<rparr>"

subsection \<open>The result of the locator\<close>

text \<open>
  What every loop of the locator leaves: buffers of the declared sizes and, when it
  returns success, one of the three page sizes.
\<close>

definition found_ok :: "'a flow \<times> 'w state \<Rightarrow> bool" where
  "found_ok x =
     (case x of (r, s') \<Rightarrow>
        wf_state s' \<and>
        (case r of
           Return st \<Rightarrow> st = XST_FAILURE \<or>
             st = XST_SUCCESS \<and> (PageSize s' = 64 \<or> PageSize s' = 32 \<or> PageSize s' = 16)
         | Continue u \<Rightarrow> True))"

subsection \<open>What the slave monitor polls\<close>

text \<open>
  The hardware state before the \<open>k\<close>-th read of the interrupt status register
  (counting from zero), the value that read returns, and the test the program makes
  on it.
\<close>

primrec isr_world :: "'w platform \<Rightarrow> nat \<Rightarrow> 'w \<Rightarrow> 'w" where
  "isr_world hw 0 w = w"
| "isr_world hw (Suc k) w = isr_world hw k (snd (XIicPs_ReadReg_ISR hw w))"

definition isr_value :: "'w platform \<Rightarrow> nat \<Rightarrow> 'w \<Rightarrow> u32" where
  "isr_value hw k w = fst (XIicPs_ReadReg_ISR hw (isr_world hw k w))"

definition slave_ready :: "'w platform \<Rightarrow> u32 \<Rightarrow> bool" where
  "slave_ready hw v \<longleftrightarrow> v AND XIICPS_IXR_SLV_RDY_MASK hw \<noteq> 0"

definition ready_within :: "'w platform \<Rightarrow> nat \<Rightarrow> 'w \<Rightarrow> bool" where
  "ready_within hw n w \<longleftrightarrow> (\<exists>k\<in>{0..<n}. slave_ready hw (isr_value hw k w))"

subsection \<open>A simulated board\<close>

text \<open>
  A small board to run the program on: a multiplexer at \<open>MUX_ADDR\<close> that keeps the last
  channel byte written to it, one EEPROM that keeps a page, and a slave monitor whose
  ready bit is set while the watched address answers on the selected channel. The
  bus is never busy and every controller has a configuration. What answers, whether
  the multiplexer accepts a channel, and what the EEPROM does with the bytes written
  to it and delivers on a read, and whether it accepts a write at all, are the
  parameters of the board.
\<close>

record sim =
  sim_target :: u16
  sim_channel :: u8
  sim_page :: "u8 list"

record board =
  responds :: "u16 \<Rightarrow> u8 \<Rightarrow> bool"
  mux_ok :: bool
  eeprom_ok :: bool
  eeprom_write :: "u8 list \<Rightarrow> u8 list \<Rightarrow> u8 list"
  eeprom_read :: "nat \<Rightarrow> u8 list \<Rightarrow> u8 list"

definition sim_platform :: "board \<Rightarrow> sim platform" where
  "sim_platform b =
     \<lparr>XPAR_XIICPS_NUM_INSTANCES = 1,
      XIICPS_IXR_SLV_RDY_MASK = 0x200,
      XIicPs_LookupConfig = (\<lambda>d. True),
      XIicPs_CfgInitialize = (\<lambda>d w. (XST_SUCCESS, w)),
      XIicPs_SetSClk = (\<lambda>r w. w),
      XIicPs_MasterSendPolled = (\<lambda>bytes a w.
         if a = MUX_ADDR then
           (if mux_ok b then (XST_SUCCESS, w\<lparr>sim_channel := hd bytes\<rparr>) else (XST_FAILURE, w))
         else if eeprom_ok b then (XST_SUCCESS, w\<lparr>sim_page := eeprom_write b bytes (sim_page w)\<rparr>)
         else (XST_FAILURE, w)),
      XIicPs_MasterRecvPolled = (\<lambda>n a w. ((XST_SUCCESS, eeprom_read b n (sim_page w)), w)),
      XIicPs_BusIsBusy = (\<lambda>w. (False, w)),
      XIicPs_EnableSlaveMonitor = (\<lambda>a w. w\<lparr>sim_target := a\<rparr>),
      XIicPs_DisableSlaveMonitor = (\<lambda>w. w\<lparr>sim_target := 0\<rparr>),
      XIicPs_ReadReg_ISR = (\<lambda>w. (if responds b (sim_target w) (sim_channel w) then 0x200 else 0, w)),
      XIicPs_WriteReg_ISR = (\<lambda>v w. w),
      usleep = (\<lambda>n w. w)\<rparr>"

text \<open>The state at reset: the globals of a C program start as zeros.\<close>

definition sim_init :: "sim state" where
  "sim_init =
     \<lparr>WriteBuffer = replicate 66 0, ReadBuffer = replicate 64 0, EepromSlvAddr = 0, PageSize = 0,
      world = \<lparr>sim_target = 0, sim_channel = 0, sim_page = []\<rparr>, bus_log = []\<rparr>"

text \<open>
  An EEPROM that answers everywhere, ignores what is written to it and reads as zeros
  (a write-protected part).
\<close>

definition blank_board :: board where
  "blank_board =
     \<lparr>responds = (\<lambda>a c. True), mux_ok = True, eeprom_ok = True,
      eeprom_write = (\<lambda>bytes page. page), eeprom_read = (\<lambda>n page. replicate n 0)\<rparr>"

text \<open>The same, reading as \<open>0xFF\<close> (an erased part that takes no write).\<close>

definition erased_board :: board where
  "erased_board = blank_board\<lparr>eeprom_read := (\<lambda>n page. replicate n 0xFF)\<rparr>"

text \<open>An EEPROM that does not acknowledge a write.\<close>

definition nak_board :: board where
  "nak_board = blank_board\<lparr>eeprom_ok := False\<rparr>"

text \<open>A board on which no address answers.\<close>

definition empty_board :: board where
  "empty_board = blank_board\<lparr>responds := (\<lambda>a c. False)\<rparr>"

text \<open>What a run returned, for statements about closed runs.\<close>

definition result_status :: "(s32 \<times> 'w state) outcome \<Rightarrow> s32 option" where
  "result_status r = (case r of Some (Inr (Status, s)) \<Rightarrow> Some Status | _ \<Rightarrow> None)"

definition result_state :: "('a \<times> 'w state) outcome \<Rightarrow> 'w state option" where
  "result_state r = (case r of Some (Inr (x, s)) \<Rightarrow> Some s | _ \<Rightarrow> None)"

text \<open>
  An EEPROM with two address bytes that keeps the payload of the last page written to
  it and delivers it on a read. What answers, and on which channel, is the parameter.
\<close>

definition echo_board :: "(u16 \<Rightarrow> u8 \<Rightarrow> bool) \<Rightarrow> board" where
  "echo_board r =
     \<lparr>responds = r, mux_ok = True, eeprom_ok = True,
      eeprom_write = (\<lambda>bytes page. if length bytes \<le> 2 then page else drop 2 bytes),
      eeprom_read = (\<lambda>n page. take n page)\<rparr>"



text \<open>No multiplexer, and an EEPROM at \<open>0x55\<close> on the bus itself.\<close>

definition direct_board :: board where
  "direct_board = echo_board (\<lambda>a c. a = 0x55)"

text \<open>
  A multiplexer that answers at \<open>0x74\<close> and does not acknowledge the channel byte, on a
  bus where an EEPROM answers at \<open>0x54\<close>.
\<close>

definition stuck_mux_board :: board where
  "stuck_mux_board = (echo_board (\<lambda>a c. a = MUX_ADDR \<or> a = 0x54))\<lparr>mux_ok := False\<rparr>"

section \<open>Lemmas\<close>

lemma bind_o_simps [simp]:
  "bind_o None f = None"
  "bind_o (Some (Inl e)) f = Some (Inl e)"
  "bind_o (Some (Inr x)) f = f x"
  "bind_o (ret x) f = f x"
  by (simp_all add: bind_o_def ret_def)

lemma bind_o_eq_Inr:
  "bind_o m f = Some (Inr y) \<longleftrightarrow> (\<exists>x. m = Some (Inr x) \<and> f x = Some (Inr y))"
  by (auto simp: bind_o_def split: option.splits sum.splits)

lemma ret_eq [simp]:
  "ret x = Some (Inr y) \<longleftrightarrow> x = y"
  "ret x \<noteq> None"
  "ret x \<noteq> Some (Inl e)"
  by (simp_all add: ret_def)

lemma BusWait_only_world:
  assumes "BusWait hw s = Some s'"
  shows "s' = s\<lparr>world := world s'\<rparr>"
proof (rule BusWait.raw_induct [where P = "\<lambda>hw s s'. s' = s\<lparr>world := world s'\<rparr>", OF _ assms])
  fix W :: "'a platform \<Rightarrow> 'a state \<Rightarrow> 'a state option" and hw s s'
  assume IH: "\<And>hw s s'. W hw s = Some s' \<Longrightarrow> s' = s\<lparr>world := world s'\<rparr>"
    and step: "(case XIicPs_BusIsBusy hw (world s) of
                  (busy, w) \<Rightarrow> if busy then W hw (s\<lparr>world := w\<rparr>) else Some (s\<lparr>world := w\<rparr>)) = Some s'"
  obtain busy w where bw: "XIicPs_BusIsBusy hw (world s) = (busy, w)"
    by (cases "XIicPs_BusIsBusy hw (world s)")
  show "s' = s\<lparr>world := world s'\<rparr>"
  proof (cases busy)
    case True
    with step bw have "W hw (s\<lparr>world := w\<rparr>) = Some s'" by simp
    from IH [OF this] have "s' = s\<lparr>world := w, world := world s'\<rparr>" .
    then show ?thesis by simp
  next
    case False
    with step bw show ?thesis by auto
  qed
qed

lemma BusWait_frame:
  assumes "BusWait hw s = Some s'"
  shows "WriteBuffer s' = WriteBuffer s \<and> ReadBuffer s' = ReadBuffer s \<and>
         EepromSlvAddr s' = EepromSlvAddr s \<and> PageSize s' = PageSize s \<and>
         bus_log s' = bus_log s"
proof -
  from BusWait_only_world [OF assms] obtain w where "s' = s\<lparr>world := w\<rparr>" ..
  then show ?thesis by simp
qed

lemma BusIdle_frame:
  assumes "BusIdle hw s = Some (Inr s')"
  shows "WriteBuffer s' = WriteBuffer s \<and> ReadBuffer s' = ReadBuffer s \<and>
         EepromSlvAddr s' = EepromSlvAddr s \<and> PageSize s' = PageSize s \<and>
         bus_log s' = bus_log s"
  using assms by (auto simp: BusIdle_def split: option.splits dest: BusWait_frame)

lemma BusIdle_no_fault [simp]: "BusIdle hw s \<noteq> Some (Inl e)"
  by (simp add: BusIdle_def split: option.splits)

lemma EepromWriteData_frame:
  assumes "EepromWriteData hw ByteCount s = Some (Inr (Status, s'))"
  shows "unat ByteCount \<le> length (WriteBuffer s) \<and>
         WriteBuffer s' = WriteBuffer s \<and> ReadBuffer s' = ReadBuffer s \<and>
         EepromSlvAddr s' = EepromSlvAddr s \<and> PageSize s' = PageSize s \<and>
         bus_log s' = bus_log s @ [EvSend (take (unat ByteCount) (WriteBuffer s)) (EepromSlvAddr s)]"
  using assms
  by (auto simp: EepromWriteData_def Let_def log_event_def bind_o_eq_Inr
           split: if_splits prod.splits dest!: BusIdle_frame)

lemma EncodeAddress_eq_Inr:
  assumes "EncodeAddress Size Address s = Inr (WrBfrOffset, s1)"
  shows "if Size = PAGE_SIZE_16
         then WrBfrOffset = 1 \<and> 0 < length (WriteBuffer s) \<and>
              s1 = s\<lparr>WriteBuffer := (WriteBuffer s)[0 := ucast Address]\<rparr>
         else WrBfrOffset = 2 \<and> 1 < length (WriteBuffer s) \<and>
              s1 = s\<lparr>WriteBuffer := (WriteBuffer s)[0 := ucast (drop_bit 8 Address), 1 := ucast Address]\<rparr>"
  using assms
  by (auto simp: EncodeAddress_def store_WriteBuffer_def split: if_splits sum.splits)

lemma ucast_low_byte: "(ucast (Address AND 0xFF :: u16) :: u8) = ucast Address"
proof -
  have "(0xFF :: u16) = mask 8" by (simp add: mask_eq_exp_minus_1)
  then have "(ucast (Address AND 0xFF) :: u8) = ucast (Address AND mask 8)" by simp
  also have "\<dots> = ucast Address"
    by (rule bit_word_eqI) (auto simp: bit_simps)
  finally show ?thesis .
qed

lemma take_1_update: "0 < length xs \<Longrightarrow> take (Suc 0) (xs[0 := a]) = [a]"
  by (cases xs) simp_all

lemma take_2_update: "Suc 0 < length xs \<Longrightarrow> take 2 (xs[0 := a, Suc 0 := b]) = [a, b]"
  by (cases xs; cases "tl xs") (simp_all add: numeral_2_eq_2)

lemma nth_update2:
  "Suc 0 < length xs \<Longrightarrow> xs[0 := a, Suc 0 := b] ! Suc 0 = b"
  "Suc 0 < length xs \<Longrightarrow> xs[0 := a, Suc 0 := b] ! 0 = a"
  by (cases xs; cases "tl xs"; simp)+

lemma EepromReadData_frame:
  assumes "EepromReadData hw ByteCount Address s = Some (Inr (Status, s'))"
  shows "\<exists>WrBfrOffset s1. EncodeAddress (PageSize s) Address s = Inr (WrBfrOffset, s1) \<and>
           WriteBuffer s' = WriteBuffer s1 \<and>
           EepromSlvAddr s' = EepromSlvAddr s \<and> PageSize s' = PageSize s \<and>
           (\<exists>evs. bus_log s' = bus_log s @
               EvSend (take (unat (ucast WrBfrOffset :: u16)) (WriteBuffer s1)) (EepromSlvAddr s) # evs)"
proof -
  from assms obtain WrBfrOffset s1 where
    enc: "EncodeAddress (PageSize s) Address s = Inr (WrBfrOffset, s1)" and
    r1: "bind_o (EepromWriteData hw (ucast WrBfrOffset) s1) (\<lambda>(Status, s2).
       if Status \<noteq> XST_SUCCESS then ret (XST_FAILURE, s2)
       else if length (ReadBuffer s2) < unat ByteCount then Some (Inl OutOfBounds)
       else
         let ((Status, bytes), w) =
               XIicPs_MasterRecvPolled hw (unat ByteCount) (EepromSlvAddr s2) (world s2);
             s3 = log_event (EvRecv (unat ByteCount) (EepromSlvAddr s2))
                    (s2\<lparr>world := w, ReadBuffer := recv_into (unat ByteCount) bytes (ReadBuffer s2)\<rparr>)
         in if Status \<noteq> XST_SUCCESS then ret (XST_FAILURE, s3)
            else bind_o (BusIdle hw s3) (\<lambda>s4. ret (XST_SUCCESS, s4))) = Some (Inr (Status, s'))"
    unfolding EepromReadData_def
    by (cases "EncodeAddress (PageSize s) Address s") auto
  from r1 obtain St s2 where
    wr: "EepromWriteData hw (ucast WrBfrOffset) s1 = Some (Inr (St, s2))" and
    r2: "(if St \<noteq> XST_SUCCESS then ret (XST_FAILURE, s2)
       else if length (ReadBuffer s2) < unat ByteCount then Some (Inl OutOfBounds)
       else
         let ((Status, bytes), w) =
               XIicPs_MasterRecvPolled hw (unat ByteCount) (EepromSlvAddr s2) (world s2);
             s3 = log_event (EvRecv (unat ByteCount) (EepromSlvAddr s2))
                    (s2\<lparr>world := w, ReadBuffer := recv_into (unat ByteCount) bytes (ReadBuffer s2)\<rparr>)
         in if Status \<noteq> XST_SUCCESS then ret (XST_FAILURE, s3)
            else bind_o (BusIdle hw s3) (\<lambda>s4. ret (XST_SUCCESS, s4))) = Some (Inr (Status, s'))"
    unfolding bind_o_eq_Inr by auto
  have rest: "WriteBuffer s' = WriteBuffer s2 \<and> EepromSlvAddr s' = EepromSlvAddr s2 \<and>
           PageSize s' = PageSize s2 \<and> (\<exists>evs. bus_log s' = bus_log s2 @ evs)"
  proof (cases "St \<noteq> XST_SUCCESS")
    case True
    with r2 show ?thesis by simp
  next
    case False
    obtain St3 bytes w where rc: "XIicPs_MasterRecvPolled hw (unat ByteCount) (EepromSlvAddr s2) (world s2)
        = ((St3, bytes), w)"
      by (metis surj_pair)
    show ?thesis
    proof (cases "St3 \<noteq> XST_SUCCESS")
      case True
      with r2 False rc show ?thesis
        by (simp add: log_event_def split: if_splits) auto
    next
      case F3: False
      with r2 False rc obtain s3 where
        "s3 = log_event (EvRecv (unat ByteCount) (EepromSlvAddr s2))
                    (s2\<lparr>world := w, ReadBuffer := recv_into (unat ByteCount) bytes (ReadBuffer s2)\<rparr>)"
        "BusIdle hw s3 = Some (Inr s')"
        by (simp add: bind_o_eq_Inr split: if_splits)
      with BusIdle_frame [OF this(2)] show ?thesis
        by (simp add: log_event_def)
    qed
  qed
  have s1: "EepromSlvAddr s1 = EepromSlvAddr s" "PageSize s1 = PageSize s" "bus_log s1 = bus_log s"
    using EncodeAddress_eq_Inr [OF enc] by (auto split: if_splits)
  from EepromWriteData_frame [OF wr] rest s1 enc show ?thesis
    by auto
qed


declare FillPattern.simps [simp del] CountMatches.simps [simp del] FillFF.simps [simp del]
  VerifyFF.simps [simp del] SlaveMonitorPoll.simps [simp del] FindEepromPageSize_loop.simps [simp del]
  ChannelLoop.simps [simp del] MuxEepromLoop.simps [simp del] MuxLoop.simps [simp del]
  DirectLoop.simps [simp del] DeviceLoop.simps [simp del] WritePhase.simps [simp del]
  ReadPhase.simps [simp del]

lemma fill_step:
  assumes "k < m" "m \<le> length xs"
  shows "take (Suc k) (xs[k := v]) @ ys @ drop m (xs[k := v]) = take k xs @ v # ys @ drop m xs"
proof -
  from assms have "take (Suc k) (xs[k := v]) = take k xs @ [v]"
    by (simp add: take_Suc_conv_app_nth)
  moreover from assms have "drop m (xs[k := v]) = drop m xs"
    by simp
  ultimately show ?thesis by simp
qed

lemma FillPattern_closed:
  assumes "Index \<le> unat n" "unat off + unat n \<le> length (WriteBuffer s)" "unat n \<le> length (ReadBuffer s)"
  shows "FillPattern i off n Index s =
           Inr (s\<lparr>WriteBuffer := take (unat off + Index) (WriteBuffer s)
                                   @ map (\<lambda>k. of_nat (k + i)) [Index..<unat n]
                                   @ drop (unat off + unat n) (WriteBuffer s),
                    ReadBuffer := take Index (ReadBuffer s) @ replicate (unat n - Index) 0
                                   @ drop (unat n) (ReadBuffer s)\<rparr>)"
  using assms
proof (induction i off n Index s rule: FillPattern.induct)
  case (1 i off n Index s)
  show ?case
  proof (cases "Index < unat n")
    case False
    with "1.prems" have "Index = unat n" by simp
    then show ?thesis
      by (subst FillPattern.simps) simp
  next
    case True
    let ?s1 = "s\<lparr>WriteBuffer := (WriteBuffer s)[unat off + Index := of_nat (Index + i)]\<rparr>"
    let ?s2 = "?s1\<lparr>ReadBuffer := (ReadBuffer s)[Index := 0]\<rparr>"
    from True "1.prems" have st1: "store_WriteBuffer (unat off + Index) (of_nat (Index + i)) s = Inr ?s1"
      by (simp add: store_WriteBuffer_def)
    from True "1.prems" have st2: "store_ReadBuffer Index 0 ?s1 = Inr ?s2"
      by (simp add: store_ReadBuffer_def)
    have IH: "FillPattern i off n (Index + 1) ?s2 =
           Inr (?s2\<lparr>WriteBuffer := take (unat off + (Index + 1)) (WriteBuffer ?s2)
                                   @ map (\<lambda>k. of_nat (k + i)) [Index + 1..<unat n]
                                   @ drop (unat off + unat n) (WriteBuffer ?s2),
                    ReadBuffer := take (Index + 1) (ReadBuffer ?s2) @ replicate (unat n - (Index + 1)) 0
                                   @ drop (unat n) (ReadBuffer ?s2)\<rparr>)"
      using True "1.prems" by (intro "1.IH" [OF True st1 st2]) simp_all
    have wb: "take (unat off + (Index + 1)) (WriteBuffer ?s2)
                @ map (\<lambda>k. of_nat (k + i)) [Index + 1..<unat n]
                @ drop (unat off + unat n) (WriteBuffer ?s2)
            = take (unat off + Index) (WriteBuffer s)
                @ map (\<lambda>k. of_nat (k + i)) [Index..<unat n]
                @ drop (unat off + unat n) (WriteBuffer s)"
      using True "1.prems" fill_step [of "unat off + Index" "unat off + unat n" "WriteBuffer s"]
      by (simp add: upt_conv_Cons)
    have rb: "take (Index + 1) (ReadBuffer ?s2) @ replicate (unat n - (Index + 1)) 0
                @ drop (unat n) (ReadBuffer ?s2)
            = take Index (ReadBuffer s) @ replicate (unat n - Index) 0 @ drop (unat n) (ReadBuffer s)"
      using True "1.prems" fill_step [of Index "unat n" "ReadBuffer s" 0 "replicate (unat n - (Index + 1)) 0"]
      by (simp add: Suc_diff_Suc replicate_Suc [symmetric] del: replicate_Suc)
    show ?thesis
      apply (subst FillPattern.simps)
      apply (simp only: True if_True st1 st2 sum.case IH)
      apply (simp only: wb rb)
      apply simp
      done
  qed
qed

lemma CountMatches_closed:
  assumes "Index \<le> unat n" "unat n \<le> length (ReadBuffer s)"
  shows "CountMatches i n Index count s =
           Inr (count + of_nat (length (filter (\<lambda>k. (ucast (ReadBuffer s ! k) :: u32) = of_nat k + of_nat i)
                                          [Index..<unat n])))"
  using assms
proof (induction i n Index count s rule: CountMatches.induct)
  case (1 i n Index count s)
  show ?case
  proof (cases "Index < unat n")
    case False
    with "1.prems" show ?thesis
      by (subst CountMatches.simps) simp
  next
    case True
    with "1.prems" have ld: "load_ReadBuffer Index s = Inr (ReadBuffer s ! Index)"
      by (simp add: load_ReadBuffer_def)
    note IH = "1.IH" [OF True ld]
    show ?thesis
      apply (subst CountMatches.simps)
      apply (simp only: True if_True ld sum.case)
      apply (subst IH)
      using True "1.prems" apply simp
      using "1.prems" apply simp
      using True apply (simp add: upt_conv_Cons)
      done
  qed
qed

lemma count_all_iff:
  fixes n :: u32
  shows "(of_nat (length (filter P [0..<unat n])) :: u32) = n \<longleftrightarrow> (\<forall>k<unat n. P k)"
proof -
  have le: "length (filter P [0..<unat n]) \<le> unat n"
    using length_filter_le [of P "[0..<unat n]"] by simp
  have "(of_nat (length (filter P [0..<unat n])) :: u32) = n \<longleftrightarrow> length (filter P [0..<unat n]) = unat n"
  proof
    assume "(of_nat (length (filter P [0..<unat n])) :: u32) = n"
    then have "unat (of_nat (length (filter P [0..<unat n])) :: u32) = unat n" by simp
    moreover have "length (filter P [0..<unat n]) < 2 ^ 32"
      using le unsigned_less [of n, where 'a = nat] by simp
    ultimately show "length (filter P [0..<unat n]) = unat n"
      by (simp add: unat_of_nat)
  next
    assume "length (filter P [0..<unat n]) = unat n"
    then show "(of_nat (length (filter P [0..<unat n])) :: u32) = n" by simp
  qed
  also have "\<dots> \<longleftrightarrow> (\<forall>k<unat n. P k)"
  proof
    assume "length (filter P [0..<unat n]) = unat n"
    then have "length (filter P [0..<unat n]) = length [0..<unat n]" by simp
    then have "filter P [0..<unat n] = [0..<unat n]"
      by (metis length_filter_less less_irrefl filter_True)
    then show "\<forall>k<unat n. P k"
      by (metis atLeastLessThan_iff filter_id_conv set_upt zero_le)
  next
    assume "\<forall>k<unat n. P k"
    then show "length (filter P [0..<unat n]) = unat n" by simp
  qed
  finally show ?thesis .
qed

lemma unat_ucast_u8_u32: "unat (ucast (b::u8) :: u32) = unat b"
  by (simp add: unsigned_ucast_eq take_bit_nat_eq_self unsigned_less [where 'a = nat and 'b = 8, simplified] order_less_trans [OF unsigned_less [of b, where 'a = nat]])

lemma match_iff:
  fixes b :: u8
  assumes "k + i < 256"
  shows "((ucast b :: u32) = of_nat k + of_nat i) \<longleftrightarrow> b = of_nat (k + i)"
proof -
  have w32: "unat (of_nat k + of_nat i :: u32) = k + i"
    using assms by (simp add: unat_of_nat flip: of_nat_add)
  have w8: "unat (of_nat k + of_nat i :: u8) = k + i"
    using assms by (simp add: unat_of_nat flip: of_nat_add)
  have "((ucast b :: u32) = of_nat k + of_nat i) \<longleftrightarrow> unat (ucast b :: u32) = unat (of_nat k + of_nat i :: u32)"
    by (simp only: word_unat_eq_iff)
  also have "\<dots> \<longleftrightarrow> unat b = unat (of_nat k + of_nat i :: u8)"
    by (simp only: w32 w8 unat_ucast_u8_u32)
  also have "\<dots> \<longleftrightarrow> b = of_nat k + of_nat i"
    by (simp only: word_unat_eq_iff)
  finally show ?thesis by simp
qed

lemma bind_o_cong_res:
  assumes "\<And>x. m = Some (Inr x) \<Longrightarrow> f x = g x"
  shows "bind_o m f = bind_o m g"
  using assms by (auto simp: bind_o_def split: option.splits sum.splits)

lemma EepromReadData_ReadBuffer_length:
  assumes "EepromReadData hw ByteCount Address s = Some (Inr (Status, s'))"
  shows "length (ReadBuffer s') = length (ReadBuffer s)"
proof -
  from assms obtain WrBfrOffset s1 where
    enc: "EncodeAddress (PageSize s) Address s = Inr (WrBfrOffset, s1)" and
    r1: "bind_o (EepromWriteData hw (ucast WrBfrOffset) s1) (\<lambda>(Status, s2).
       if Status \<noteq> XST_SUCCESS then ret (XST_FAILURE, s2)
       else if length (ReadBuffer s2) < unat ByteCount then Some (Inl OutOfBounds)
       else
         let ((Status, bytes), w) =
               XIicPs_MasterRecvPolled hw (unat ByteCount) (EepromSlvAddr s2) (world s2);
             s3 = log_event (EvRecv (unat ByteCount) (EepromSlvAddr s2))
                    (s2\<lparr>world := w, ReadBuffer := recv_into (unat ByteCount) bytes (ReadBuffer s2)\<rparr>)
         in if Status \<noteq> XST_SUCCESS then ret (XST_FAILURE, s3)
            else bind_o (BusIdle hw s3) (\<lambda>s4. ret (XST_SUCCESS, s4))) = Some (Inr (Status, s'))"
    unfolding EepromReadData_def
    by (cases "EncodeAddress (PageSize s) Address s") auto
  from r1 obtain St s2 where
    wr: "EepromWriteData hw (ucast WrBfrOffset) s1 = Some (Inr (St, s2))" and
    r2: "(if St \<noteq> XST_SUCCESS then ret (XST_FAILURE, s2)
       else if length (ReadBuffer s2) < unat ByteCount then Some (Inl OutOfBounds)
       else
         let ((Status, bytes), w) =
               XIicPs_MasterRecvPolled hw (unat ByteCount) (EepromSlvAddr s2) (world s2);
             s3 = log_event (EvRecv (unat ByteCount) (EepromSlvAddr s2))
                    (s2\<lparr>world := w, ReadBuffer := recv_into (unat ByteCount) bytes (ReadBuffer s2)\<rparr>)
         in if Status \<noteq> XST_SUCCESS then ret (XST_FAILURE, s3)
            else bind_o (BusIdle hw s3) (\<lambda>s4. ret (XST_SUCCESS, s4))) = Some (Inr (Status, s'))"
    unfolding bind_o_eq_Inr by auto
  have s12: "ReadBuffer s2 = ReadBuffer s"
    using EncodeAddress_eq_Inr [OF enc] EepromWriteData_frame [OF wr] by (auto split: if_splits)
  have "length (ReadBuffer s') = length (ReadBuffer s2)"
  proof (cases "St \<noteq> XST_SUCCESS")
    case True
    with r2 show ?thesis by simp
  next
    case False
    obtain St3 bytes w where rc: "XIicPs_MasterRecvPolled hw (unat ByteCount) (EepromSlvAddr s2) (world s2)
        = ((St3, bytes), w)"
      by (metis surj_pair)
    from r2 False have le: "unat ByteCount \<le> length (ReadBuffer s2)"
      by (simp split: if_splits)
    then have len: "length (recv_into (unat ByteCount) bytes (ReadBuffer s2)) = length (ReadBuffer s2)"
      by (simp add: recv_into_def)
    show ?thesis
    proof (cases "St3 \<noteq> XST_SUCCESS")
      case True
      with r2 False rc le len show ?thesis
        by (auto simp: log_event_def split: if_splits)
    next
      case F3: False
      with r2 False rc le obtain s3 where
        "s3 = log_event (EvRecv (unat ByteCount) (EepromSlvAddr s2))
                    (s2\<lparr>world := w, ReadBuffer := recv_into (unat ByteCount) bytes (ReadBuffer s2)\<rparr>)"
        "BusIdle hw s3 = Some (Inr s')"
        by (simp add: bind_o_eq_Inr split: if_splits)
      with BusIdle_frame [OF this(2)] len show ?thesis
        by (simp add: log_event_def)
    qed
  qed
  with s12 show ?thesis by simp
qed

lemma update0_conv: "0 < length xs \<Longrightarrow> xs[0 := a] = a # drop 1 xs"
  by (cases xs) simp_all

lemma update01_conv: "1 < length xs \<Longrightarrow> xs[0 := a, 1 := b] = a # b # drop 2 xs"
  by (cases xs; cases "tl xs") (simp_all add: numeral_2_eq_2)

lemma ps_cases: "i < 3 \<Longrightarrow> ps ! i = 64 \<or> ps ! i = 32 \<or> ps ! i = 16"
  by (auto simp: ps_def less_Suc_eq numeral_3_eq_3)

lemma TrialEncode:
  assumes wf: "wf_state s" and i: "i < 3"
  shows "EncodeAddress (ps ! i) EEPROM_START_ADDRESS (s\<lparr>PageSize := ps ! i\<rparr>)
         = Inr (of_nat (length (TrialAddress i)),
                s\<lparr>PageSize := ps ! i,
                  WriteBuffer := TrialAddress i @ drop (length (TrialAddress i)) (WriteBuffer s)\<rparr>)"
  using wf
  by (simp add: EncodeAddress_def store_WriteBuffer_def TrialAddress_def wf_state_def
      sizeof_AddressType_def MAX_SIZE_def EEPROM_START_ADDRESS_def update0_conv update01_conv)

lemma TrialAddress_length: "length (TrialAddress i) = (if ps ! i = PAGE_SIZE_16 then 1 else 2)"
  by (simp add: TrialAddress_def)

lemma TrialPage_length [simp]: "length (TrialPage i) = unat (ps ! i)"
  by (simp add: TrialPage_def)

lemma unat_ps_le: "i < 3 \<Longrightarrow> unat (ps ! i) \<le> 64"
  using ps_cases [of i] by auto

lemma TrialFill:
  assumes wf: "wf_state s" and i: "i < 3"
  shows "FillPattern i (of_nat (length (TrialAddress i))) (ps ! i) 0
           (s\<lparr>PageSize := ps ! i,
              WriteBuffer := TrialAddress i @ drop (length (TrialAddress i)) (WriteBuffer s)\<rparr>)
         = Inr (TrialStart i s)"
proof -
  let ?a = "TrialAddress i"
  let ?s1 = "s\<lparr>PageSize := ps ! i, WriteBuffer := ?a @ drop (length ?a) (WriteBuffer s)\<rparr>"
  have la: "length ?a \<le> 2" "unat (of_nat (length ?a) :: u32) = length ?a"
    by (simp_all add: TrialAddress_def)
  have lw: "length (WriteBuffer s) = 66" and lr: "length (ReadBuffer s) = 64"
    using wf by (simp_all add: wf_state_def sizeof_AddressType_def MAX_SIZE_def)
  have n: "unat (ps ! i) \<le> 64" using i by (rule unat_ps_le)
  have "FillPattern i (of_nat (length ?a)) (ps ! i) 0 ?s1 =
        Inr (?s1\<lparr>WriteBuffer := take (unat (of_nat (length ?a) :: u32) + 0) (WriteBuffer ?s1)
                                   @ map (\<lambda>k. of_nat (k + i)) [0..<unat (ps ! i)]
                                   @ drop (unat (of_nat (length ?a) :: u32) + unat (ps ! i)) (WriteBuffer ?s1),
                    ReadBuffer := take 0 (ReadBuffer ?s1) @ replicate (unat (ps ! i) - 0) 0
                                   @ drop (unat (ps ! i)) (ReadBuffer ?s1)\<rparr>)"
    using la lw lr n by (intro FillPattern_closed) simp_all
  also have "\<dots> = Inr (TrialStart i s)"
    unfolding sum.inject using la lw
    by (intro state.equality) (simp_all add: TrialStart_def TrialPage_def add.commute)
  finally show ?thesis .
qed

lemma TrialMatch:
  assumes i: "i < 3" and len: "unat (ps ! i) \<le> length (ReadBuffer s)"
  shows "CountMatches i (ps ! i) 0 0 s =
         Inr (if take (unat (ps ! i)) (ReadBuffer s) = TrialPage i then ps ! i
              else of_nat (length (filter (\<lambda>k. (ucast (ReadBuffer s ! k) :: u32) = of_nat k + of_nat i)
                                          [0..<unat (ps ! i)])))"
    and "take (unat (ps ! i)) (ReadBuffer s) \<noteq> TrialPage i \<Longrightarrow>
           (of_nat (length (filter (\<lambda>k. (ucast (ReadBuffer s ! k) :: u32) = of_nat k + of_nat i)
                                          [0..<unat (ps ! i)])) :: u32) \<noteq> ps ! i"
proof -
  let ?P = "\<lambda>k. (ucast (ReadBuffer s ! k) :: u32) = of_nat k + of_nat i"
  have n: "unat (ps ! i) \<le> 64" using i by (rule unat_ps_le)
  have all: "(\<forall>k<unat (ps ! i). ?P k) \<longleftrightarrow> take (unat (ps ! i)) (ReadBuffer s) = TrialPage i"
  proof -
    have "(\<forall>k<unat (ps ! i). ?P k) \<longleftrightarrow> (\<forall>k<unat (ps ! i). ReadBuffer s ! k = of_nat (k + i))"
    proof (intro all_cong1 imp_cong refl)
      fix k assume "k < unat (ps ! i)"
      with n i have "k + i < 256" by simp
      then show "?P k \<longleftrightarrow> ReadBuffer s ! k = of_nat (k + i)" by (rule match_iff)
    qed
    also have "\<dots> \<longleftrightarrow> take (unat (ps ! i)) (ReadBuffer s) = TrialPage i"
      using len by (auto simp: list_eq_iff_nth_eq TrialPage_def simp del: of_nat_add)
    finally show ?thesis .
  qed
  have cnt: "(of_nat (length (filter ?P [0..<unat (ps ! i)])) :: u32) = ps ! i
            \<longleftrightarrow> take (unat (ps ! i)) (ReadBuffer s) = TrialPage i"
    using count_all_iff [of ?P "ps ! i"] all by simp
  show "CountMatches i (ps ! i) 0 0 s =
         Inr (if take (unat (ps ! i)) (ReadBuffer s) = TrialPage i then ps ! i
              else of_nat (length (filter ?P [0..<unat (ps ! i)])))"
    using len cnt by (subst CountMatches_closed) auto
  show "take (unat (ps ! i)) (ReadBuffer s) \<noteq> TrialPage i \<Longrightarrow>
           (of_nat (length (filter ?P [0..<unat (ps ! i)])) :: u32) \<noteq> ps ! i"
    using cnt by simp
qed

lemma TrialStart_fields [simp]:
  "length (ReadBuffer (TrialStart i s)) = max (unat (ps ! i)) (length (ReadBuffer s))"
  "PageSize (TrialStart i s) = ps ! i"
  "EepromSlvAddr (TrialStart i s) = EepromSlvAddr s"
  "bus_log (TrialStart i s) = bus_log s"
  "world (TrialStart i s) = world s"
  by (auto simp: TrialStart_def)

lemma PageSizeTrial_char:
  assumes wf: "wf_state s" and i: "i < 3"
  shows "PageSizeTrial hw i s =
     bind_o (EepromWriteData hw (ucast (of_nat (length (TrialAddress i)) + ps ! i)) (TrialStart i s))
       (\<lambda>(Status, s3).
          if Status \<noteq> XST_SUCCESS then ret (Return XST_FAILURE, s3)
          else bind_o (EepromReadData hw (ucast (ps ! i)) EEPROM_START_ADDRESS s3)
                 (\<lambda>(Status, s4).
                    if Status \<noteq> XST_SUCCESS then ret (Return XST_FAILURE, s4)
                    else if take (unat (ps ! i)) (ReadBuffer s4) = TrialPage i
                         then ret (Return XST_SUCCESS, s4)
                         else ret (Continue Status, s4)))"
proof -
  have n: "unat (ps ! i) \<le> 64" using i by (rule unat_ps_le)
  have lr: "length (ReadBuffer s) = 64"
    using wf by (simp add: wf_state_def MAX_SIZE_def)
  have inner: "bind_o (EepromReadData hw (ucast (ps ! i)) EEPROM_START_ADDRESS s3)
                 (\<lambda>(Status, s4).
                    if Status \<noteq> XST_SUCCESS then ret (Return XST_FAILURE, s4)
                    else bind_o (Some (CountMatches i (ps ! i) 0 0 s4)) (\<lambda>count.
                           if count = ps ! i then ret (Return XST_SUCCESS, s4)
                           else ret (Continue Status, s4)))
             = bind_o (EepromReadData hw (ucast (ps ! i)) EEPROM_START_ADDRESS s3)
                 (\<lambda>(Status, s4).
                    if Status \<noteq> XST_SUCCESS then ret (Return XST_FAILURE, s4)
                    else if take (unat (ps ! i)) (ReadBuffer s4) = TrialPage i
                         then ret (Return XST_SUCCESS, s4)
                         else ret (Continue Status, s4))"
    if wr: "EepromWriteData hw ByteCount (TrialStart i s) = Some (Inr (St, s3))" for ByteCount St s3
  proof (rule bind_o_cong_res)
    fix x assume rd: "EepromReadData hw (ucast (ps ! i)) EEPROM_START_ADDRESS s3 = Some (Inr x)"
    obtain St4 s4 where x: "x = (St4, s4)" by (cases x)
    have "length (ReadBuffer s4) = length (ReadBuffer s3)"
      using rd unfolding x by (rule EepromReadData_ReadBuffer_length)
    also have "\<dots> = 64"
      using EepromWriteData_frame [OF wr] n lr by simp
    finally have len: "unat (ps ! i) \<le> length (ReadBuffer s4)" using n by simp
    show "(case x of (Status, s4) \<Rightarrow>
                    if Status \<noteq> XST_SUCCESS then ret (Return XST_FAILURE, s4)
                    else bind_o (Some (CountMatches i (ps ! i) 0 0 s4)) (\<lambda>count.
                           if count = ps ! i then ret (Return XST_SUCCESS, s4)
                           else ret (Continue Status, s4)))
        = (case x of (Status, s4) \<Rightarrow>
                    if Status \<noteq> XST_SUCCESS then ret (Return XST_FAILURE, s4)
                    else if take (unat (ps ! i)) (ReadBuffer s4) = TrialPage i
                         then ret (Return XST_SUCCESS, s4)
                         else ret (Continue Status, s4))"
      unfolding x using TrialMatch [OF i len] by simp
  qed
  have "PageSizeTrial hw i s =
     bind_o (EepromWriteData hw (ucast (of_nat (length (TrialAddress i)) + ps ! i)) (TrialStart i s))
       (\<lambda>(Status, s3).
          if Status \<noteq> XST_SUCCESS then ret (Return XST_FAILURE, s3)
          else bind_o (EepromReadData hw (ucast (ps ! i)) EEPROM_START_ADDRESS s3)
                 (\<lambda>(Status, s4).
                    if Status \<noteq> XST_SUCCESS then ret (Return XST_FAILURE, s4)
                    else bind_o (Some (CountMatches i (ps ! i) 0 0 s4)) (\<lambda>count.
                           if count = ps ! i then ret (Return XST_SUCCESS, s4)
                           else ret (Continue Status, s4))))"
    unfolding PageSizeTrial_def Let_def
    by (simp only: TrialEncode [OF wf i] TrialFill [OF wf i] bind_o_simps prod.case)
  also have "\<dots> =
     bind_o (EepromWriteData hw (ucast (of_nat (length (TrialAddress i)) + ps ! i)) (TrialStart i s))
       (\<lambda>(Status, s3).
          if Status \<noteq> XST_SUCCESS then ret (Return XST_FAILURE, s3)
          else bind_o (EepromReadData hw (ucast (ps ! i)) EEPROM_START_ADDRESS s3)
                 (\<lambda>(Status, s4).
                    if Status \<noteq> XST_SUCCESS then ret (Return XST_FAILURE, s4)
                    else if take (unat (ps ! i)) (ReadBuffer s4) = TrialPage i
                         then ret (Return XST_SUCCESS, s4)
                         else ret (Continue Status, s4)))"
  proof (rule bind_o_cong_res)
    fix x assume wr: "EepromWriteData hw (ucast (of_nat (length (TrialAddress i)) + ps ! i)) (TrialStart i s)
        = Some (Inr x)"
    obtain St s3 where x: "x = (St, s3)" by (cases x)
    show "(case x of (Status, s3) \<Rightarrow>
          if Status \<noteq> XST_SUCCESS then ret (Return XST_FAILURE, s3)
          else bind_o (EepromReadData hw (ucast (ps ! i)) EEPROM_START_ADDRESS s3)
                 (\<lambda>(Status, s4).
                    if Status \<noteq> XST_SUCCESS then ret (Return XST_FAILURE, s4)
                    else bind_o (Some (CountMatches i (ps ! i) 0 0 s4)) (\<lambda>count.
                           if count = ps ! i then ret (Return XST_SUCCESS, s4)
                           else ret (Continue Status, s4))))
       = (case x of (Status, s3) \<Rightarrow>
          if Status \<noteq> XST_SUCCESS then ret (Return XST_FAILURE, s3)
          else bind_o (EepromReadData hw (ucast (ps ! i)) EEPROM_START_ADDRESS s3)
                 (\<lambda>(Status, s4).
                    if Status \<noteq> XST_SUCCESS then ret (Return XST_FAILURE, s4)
                    else if take (unat (ps ! i)) (ReadBuffer s4) = TrialPage i
                         then ret (Return XST_SUCCESS, s4)
                         else ret (Continue Status, s4)))"
      unfolding x prod.case using inner [OF wr [unfolded x]] by simp
  qed
  finally show ?thesis .
qed

lemma isr_world_Suc: "isr_world hw (Suc k) w = snd (XIicPs_ReadReg_ISR hw (isr_world hw k w))"
  by (induction k arbitrary: w) simp_all

lemma SlaveMonitorPoll_success:
  assumes "Index + k < SLV_MON_LOOP_COUNT"
    and "slave_ready hw (isr_value hw k (world s))"
    and "\<forall>j<k. \<not> slave_ready hw (isr_value hw j (world s))"
  shows "SlaveMonitorPoll hw Index s =
           (XST_SUCCESS,
            s\<lparr>world := XIicPs_WriteReg_ISR hw (isr_value hw k (world s))
                          (XIicPs_DisableSlaveMonitor hw (isr_world hw (Suc k) (world s))),
              bus_log := bus_log s @ [EvDisableSlaveMonitor, EvWriteIsr (isr_value hw k (world s))]\<rparr>)"
  using assms
proof (induction k arbitrary: Index s)
  case 0
  obtain v w where rd: "XIicPs_ReadReg_ISR hw (world s) = (v, w)"
    by (cases "XIicPs_ReadReg_ISR hw (world s)")
  with 0 show ?case
    by (subst SlaveMonitorPoll.simps) (simp add: isr_value_def slave_ready_def log_event_def)
next
  case (Suc k)
  obtain v w where rd: "XIicPs_ReadReg_ISR hw (world s) = (v, w)"
    by (cases "XIicPs_ReadReg_ISR hw (world s)")
  from Suc.prems(3) have nr: "\<not> slave_ready hw (isr_value hw 0 (world s))" by blast
  have shift: "isr_value hw (Suc j) (world s) = isr_value hw j w" for j
    using rd by (simp add: isr_value_def)
  have IH: "SlaveMonitorPoll hw (Index + 1) (s\<lparr>world := w\<rparr>) =
           (XST_SUCCESS,
            (s\<lparr>world := w\<rparr>)\<lparr>world := XIicPs_WriteReg_ISR hw (isr_value hw k w)
                          (XIicPs_DisableSlaveMonitor hw (isr_world hw (Suc k) w)),
              bus_log := bus_log s @ [EvDisableSlaveMonitor, EvWriteIsr (isr_value hw k w)]\<rparr>)"
  proof -
    have "\<forall>j<k. \<not> slave_ready hw (isr_value hw j w)"
    proof (intro allI impI)
      fix j assume "j < k"
      then have "Suc j < Suc k" by simp
      with Suc.prems(3) have "\<not> slave_ready hw (isr_value hw (Suc j) (world s))" by blast
      then show "\<not> slave_ready hw (isr_value hw j w)" by (simp add: shift)
    qed
    with Suc.prems shift Suc.IH [of "Index + 1" "s\<lparr>world := w\<rparr>"] show ?thesis by simp
  qed
  from Suc.prems(1) have lt: "Index < SLV_MON_LOOP_COUNT" by simp
  show ?case
    apply (subst SlaveMonitorPoll.simps)
    using lt nr rd IH shift
    apply (simp add: isr_value_def slave_ready_def)
    done
qed

lemma SlaveMonitorPoll_timeout:
  assumes "\<forall>j<SLV_MON_LOOP_COUNT - Index. \<not> slave_ready hw (isr_value hw j (world s))"
  shows "SlaveMonitorPoll hw Index s =
           (XST_FAILURE,
            s\<lparr>world := XIicPs_DisableSlaveMonitor hw (isr_world hw (SLV_MON_LOOP_COUNT - Index) (world s)),
              bus_log := bus_log s @ [EvDisableSlaveMonitor]\<rparr>)"
  using assms
proof (induction hw Index s rule: SlaveMonitorPoll.induct)
  case (1 hw Index s)
  show ?case
  proof (cases "Index < SLV_MON_LOOP_COUNT")
    case False
    then show ?thesis
      by (subst SlaveMonitorPoll.simps) (simp add: log_event_def)
  next
    case True
    obtain v w where rd: "XIicPs_ReadReg_ISR hw (world s) = (v, w)"
      by (cases "XIicPs_ReadReg_ISR hw (world s)")
    from True "1.prems" have nr: "\<not> slave_ready hw (isr_value hw 0 (world s))" by simp
    then have nr': "\<not> v AND XIICPS_IXR_SLV_RDY_MASK hw \<noteq> 0"
      using rd by (simp add: isr_value_def slave_ready_def)
    have shift: "isr_value hw (Suc j) (world s) = isr_value hw j w" for j
      using rd by (simp add: isr_value_def)
    have "\<forall>j<SLV_MON_LOOP_COUNT - (Index + 1). \<not> slave_ready hw (isr_value hw j (world (s\<lparr>world := w\<rparr>)))"
    proof (intro allI impI)
      fix j assume "j < SLV_MON_LOOP_COUNT - (Index + 1)"
      then have "Suc j < SLV_MON_LOOP_COUNT - Index" by simp
      with "1.prems" have "\<not> slave_ready hw (isr_value hw (Suc j) (world s))" by blast
      then show "\<not> slave_ready hw (isr_value hw j (world (s\<lparr>world := w\<rparr>)))"
        by (simp add: shift)
    qed
    from "1.IH" [OF True rd [symmetric] nr' this]
    have IH: "SlaveMonitorPoll hw (Index + 1) (s\<lparr>world := w\<rparr>) =
          (XST_FAILURE,
           s\<lparr>world := XIicPs_DisableSlaveMonitor hw (isr_world hw (SLV_MON_LOOP_COUNT - (Index + 1)) w),
             bus_log := bus_log s @ [EvDisableSlaveMonitor]\<rparr>)"
      by simp
    have w: "isr_world hw (SLV_MON_LOOP_COUNT - Index) (world s) = isr_world hw (SLV_MON_LOOP_COUNT - (Index + 1)) w"
      using True rd by (simp add: Suc_diff_Suc [symmetric] del: Suc_diff_Suc)
    show ?thesis
      apply (subst SlaveMonitorPoll.simps)
      using True nr' rd IH w
      apply simp
      done
  qed
qed

lemma SlaveMonitorPoll_cases:
  "(ready_within hw SLV_MON_LOOP_COUNT (world s) \<and>
      (\<exists>v w. slave_ready hw v \<and>
         SlaveMonitorPoll hw 0 s =
           (XST_SUCCESS, s\<lparr>world := w, bus_log := bus_log s @ [EvDisableSlaveMonitor, EvWriteIsr v]\<rparr>)))
   \<or> (\<not> ready_within hw SLV_MON_LOOP_COUNT (world s) \<and>
      (\<exists>w. SlaveMonitorPoll hw 0 s =
           (XST_FAILURE, s\<lparr>world := w, bus_log := bus_log s @ [EvDisableSlaveMonitor]\<rparr>)))"
proof (cases "ready_within hw SLV_MON_LOOP_COUNT (world s)")
  case True
  then have ex: "\<exists>k. k < SLV_MON_LOOP_COUNT \<and> slave_ready hw (isr_value hw k (world s))"
    by (auto simp: ready_within_def)
  define k where "k = (LEAST k. k < SLV_MON_LOOP_COUNT \<and> slave_ready hw (isr_value hw k (world s)))"
  from ex have k: "k < SLV_MON_LOOP_COUNT \<and> slave_ready hw (isr_value hw k (world s))"
    unfolding k_def by (rule LeastI_ex)
  have least: "\<forall>j<k. \<not> slave_ready hw (isr_value hw j (world s))"
  proof (intro allI impI)
    fix j assume jk: "j < k"
    then have "\<not> (j < SLV_MON_LOOP_COUNT \<and> slave_ready hw (isr_value hw j (world s)))"
      unfolding k_def by (rule not_less_Least)
    with jk k show "\<not> slave_ready hw (isr_value hw j (world s))" by simp
  qed
  from k have "0 + k < SLV_MON_LOOP_COUNT" by simp
  from SlaveMonitorPoll_success [OF this conjunct2 [OF k] least] True k
  show ?thesis by blast
next
  case False
  then have "\<forall>j<SLV_MON_LOOP_COUNT - 0. \<not> slave_ready hw (isr_value hw j (world s))"
    by (auto simp: ready_within_def)
  from SlaveMonitorPoll_timeout [OF this] False show ?thesis by blast
qed

lemma XST_neq [simp]: "XST_FAILURE \<noteq> XST_SUCCESS" "XST_SUCCESS \<noteq> XST_FAILURE"
  by (simp_all add: XST_SUCCESS_def XST_FAILURE_def)

lemma IicPsConfig_frame:
  "IicPsConfig hw DeviceId s = (Status, s1) \<Longrightarrow>
     (Status = XST_SUCCESS \<or> Status = XST_FAILURE) \<and>
     WriteBuffer s1 = WriteBuffer s \<and> ReadBuffer s1 = ReadBuffer s \<and>
     EepromSlvAddr s1 = EepromSlvAddr s \<and> PageSize s1 = PageSize s \<and> bus_log s1 = bus_log s"
  by (auto simp: IicPsConfig_def Let_def split: if_splits prod.splits)

lemma FindEepromDevice_contract:
  assumes "FindEepromDevice hw Address s = (Status, s')"
  shows "(Status = XST_SUCCESS \<or> Status = XST_FAILURE) \<and>
         (Status = XST_SUCCESS \<longleftrightarrow>
            ready_within hw SLV_MON_LOOP_COUNT (XIicPs_EnableSlaveMonitor hw Address (world s))) \<and>
         (\<exists>tail. bus_log s' = bus_log s @ EvEnableSlaveMonitor Address # EvDisableSlaveMonitor # tail \<and>
            (if Status = XST_SUCCESS then \<exists>v. tail = [EvWriteIsr v] \<and> slave_ready hw v else tail = [])) \<and>
         WriteBuffer s' = WriteBuffer s \<and> ReadBuffer s' = ReadBuffer s \<and>
         EepromSlvAddr s' = EepromSlvAddr s \<and> PageSize s' = PageSize s"
  using assms SlaveMonitorPoll_cases [of hw "EnableSlaveMonitor hw Address s"]
  unfolding FindEepromDevice_def
  by (auto simp: EnableSlaveMonitor_def log_event_def)

subsection \<open>The program on the simulated board\<close>

lemma sim_fields [simp]:
  "XPAR_XIICPS_NUM_INSTANCES (sim_platform b) = 1"
  "XIICPS_IXR_SLV_RDY_MASK (sim_platform b) = 0x200"
  "XIicPs_LookupConfig (sim_platform b) d = True"
  "XIicPs_CfgInitialize (sim_platform b) d w = (XST_SUCCESS, w)"
  "XIicPs_SetSClk (sim_platform b) r w = w"
  "XIicPs_MasterSendPolled (sim_platform b) bytes a w =
     (if a = MUX_ADDR then
        (if mux_ok b then (XST_SUCCESS, w\<lparr>sim_channel := hd bytes\<rparr>) else (XST_FAILURE, w))
      else if eeprom_ok b then (XST_SUCCESS, w\<lparr>sim_page := eeprom_write b bytes (sim_page w)\<rparr>)
      else (XST_FAILURE, w))"
  "XIicPs_MasterRecvPolled (sim_platform b) n a w = ((XST_SUCCESS, eeprom_read b n (sim_page w)), w)"
  "XIicPs_BusIsBusy (sim_platform b) w = (False, w)"
  "XIicPs_EnableSlaveMonitor (sim_platform b) a w = w\<lparr>sim_target := a\<rparr>"
  "XIicPs_DisableSlaveMonitor (sim_platform b) w = w\<lparr>sim_target := 0\<rparr>"
  "XIicPs_ReadReg_ISR (sim_platform b) w = (if responds b (sim_target w) (sim_channel w) then 0x200 else 0, w)"
  "XIicPs_WriteReg_ISR (sim_platform b) v w = w"
  "usleep (sim_platform b) n w = w"
  by (simp_all add: sim_platform_def)

lemma sim_BusWait [simp]: "BusWait (sim_platform b) s = Some s"
  by (subst BusWait.simps) simp

lemma sim_BusIdle [simp]: "BusIdle (sim_platform b) s = Some (Inr s)"
  by (simp add: BusIdle_def ret_def)

lemma sim_EepromWriteData:
  assumes "unat ByteCount \<le> length (WriteBuffer s)" "EepromSlvAddr s \<noteq> MUX_ADDR" "eeprom_ok b"
  shows "EepromWriteData (sim_platform b) ByteCount s =
           Some (Inr (XST_SUCCESS,
             s\<lparr>world := (world s)\<lparr>sim_page :=
                          eeprom_write b (take (unat ByteCount) (WriteBuffer s)) (sim_page (world s))\<rparr>,
               bus_log := bus_log s @ [EvSend (take (unat ByteCount) (WriteBuffer s)) (EepromSlvAddr s)]\<rparr>))"
  using assms by (simp add: EepromWriteData_def log_event_def ret_def Let_def)

lemma update01_conv_Suc: "Suc 0 < length xs \<Longrightarrow> xs[0 := a, Suc 0 := b] = a # b # drop 2 xs"
  using update01_conv [of xs a b] by simp

lemma sim_EepromReadData:
  assumes "1 < length (WriteBuffer s)" "unat ByteCount \<le> length (ReadBuffer s)"
    "EepromSlvAddr s \<noteq> MUX_ADDR" "eeprom_ok b"
  shows "EepromReadData (sim_platform b) ByteCount Address s =
           (let abytes = (if PageSize s = 16 then [ucast Address]
                          else [ucast (drop_bit 8 Address), ucast Address]);
                page = eeprom_write b abytes (sim_page (world s))
            in Some (Inr (XST_SUCCESS,
                 s\<lparr>WriteBuffer := abytes @ drop (length abytes) (WriteBuffer s),
                   ReadBuffer := recv_into (unat ByteCount) (eeprom_read b (unat ByteCount) page) (ReadBuffer s),
                   world := (world s)\<lparr>sim_page := page\<rparr>,
                   bus_log := bus_log s @ [EvSend abytes (EepromSlvAddr s),
                                           EvRecv (unat ByteCount) (EepromSlvAddr s)]\<rparr>)))"
proof (cases "PageSize s = 16")
  case True
  from assms(1) have ne: "0 < length (WriteBuffer s)" "WriteBuffer s \<noteq> []" by auto
  with True assms have enc: "EncodeAddress (PageSize s) Address s =
       Inr (1, s\<lparr>WriteBuffer := ucast Address # drop 1 (WriteBuffer s)\<rparr>)"
    by (simp add: EncodeAddress_def store_WriteBuffer_def PAGE_SIZE_16_def update0_conv)
  show ?thesis
    unfolding EepromReadData_def enc bind_o_simps prod.case
    using assms True ne
    by (subst sim_EepromWriteData; simp add: log_event_def ret_def Let_def;
        intro state.equality; simp add: numeral_2_eq_2)
next
  case False
  from assms(1) have ne: "0 < length (WriteBuffer s)" "WriteBuffer s \<noteq> []" by auto
  with False assms have enc: "EncodeAddress (PageSize s) Address s =
       Inr (2, s\<lparr>WriteBuffer := ucast (drop_bit 8 Address) # ucast Address # drop 2 (WriteBuffer s)\<rparr>)"
    by (simp add: EncodeAddress_def store_WriteBuffer_def PAGE_SIZE_16_def update01_conv_Suc)
  show ?thesis
    unfolding EepromReadData_def enc bind_o_simps prod.case
    using assms False ne
    by (subst sim_EepromWriteData; simp add: log_event_def ret_def Let_def;
        intro state.equality; simp add: numeral_2_eq_2)
qed

lemma sim_EepromWriteData_nak:
  assumes "unat ByteCount \<le> length (WriteBuffer s)" "EepromSlvAddr s \<noteq> MUX_ADDR" "\<not> eeprom_ok b"
  shows "EepromWriteData (sim_platform b) ByteCount s =
           Some (Inr (XST_FAILURE,
             s\<lparr>bus_log := bus_log s @ [EvSend (take (unat ByteCount) (WriteBuffer s)) (EepromSlvAddr s)]\<rparr>))"
  using assms by (simp add: EepromWriteData_def log_event_def ret_def Let_def)

lemma sim_isr_world [simp]: "isr_world (sim_platform b) k w = w"
  by (induction k) simp_all

lemma sim_SlaveMonitorPoll:
  "SlaveMonitorPoll (sim_platform b) 0 s =
     (if responds b (sim_target (world s)) (sim_channel (world s))
      then (XST_SUCCESS, s\<lparr>world := (world s)\<lparr>sim_target := 0\<rparr>,
                           bus_log := bus_log s @ [EvDisableSlaveMonitor, EvWriteIsr 0x200]\<rparr>)
      else (XST_FAILURE, s\<lparr>world := (world s)\<lparr>sim_target := 0\<rparr>,
                           bus_log := bus_log s @ [EvDisableSlaveMonitor]\<rparr>))"
proof (cases "responds b (sim_target (world s)) (sim_channel (world s))")
  case True
  have "0 + 0 < SLV_MON_LOOP_COUNT" by (simp add: SLV_MON_LOOP_COUNT_def)
  from SlaveMonitorPoll_success [of 0 0 "sim_platform b" s, OF this] True show ?thesis
    by (simp add: isr_value_def slave_ready_def)
next
  case False
  from SlaveMonitorPoll_timeout [of 0 "sim_platform b" s] False show ?thesis
    by (simp add: isr_value_def slave_ready_def)
qed

lemma sim_FindEepromDevice:
  "FindEepromDevice (sim_platform b) Address s =
     (if responds b Address (sim_channel (world s))
      then (XST_SUCCESS, s\<lparr>world := (world s)\<lparr>sim_target := 0\<rparr>,
                           bus_log := bus_log s @ [EvEnableSlaveMonitor Address, EvDisableSlaveMonitor,
                                                   EvWriteIsr 0x200]\<rparr>)
      else (XST_FAILURE, s\<lparr>world := (world s)\<lparr>sim_target := 0\<rparr>,
                           bus_log := bus_log s @ [EvEnableSlaveMonitor Address, EvDisableSlaveMonitor]\<rparr>))"
  by (simp add: FindEepromDevice_def sim_SlaveMonitorPoll EnableSlaveMonitor_def log_event_def)

lemma sim_IicPsSlaveMonitor:
  "IicPsSlaveMonitor (sim_platform b) Address DeviceId s = FindEepromDevice (sim_platform b) Address s"
  by (simp add: IicPsSlaveMonitor_def IicPsConfig_def FindEepromDevice_def)

lemma sim_IicPsFindDevice:
  "IicPsFindDevice (sim_platform b) Address DeviceId s = FindEepromDevice (sim_platform b) Address s"
  by (simp add: IicPsFindDevice_def IicPsSlaveMonitor_def IicPsConfig_def FindEepromDevice_def
      sim_SlaveMonitorPoll EnableSlaveMonitor_def log_event_def)

lemma sim_MuxInitChannel:
  "MuxInitChannel (sim_platform b) MUX_ADDR Channel s =
     (if mux_ok b
      then Some (Inr (XST_SUCCESS, s\<lparr>world := (world s)\<lparr>sim_channel := Channel\<rparr>,
                        bus_log := bus_log s @ [EvSend [Channel] MUX_ADDR, EvRecv 1 MUX_ADDR]\<rparr>))
      else Some (Inr (XST_FAILURE, s\<lparr>bus_log := bus_log s @ [EvSend [Channel] MUX_ADDR]\<rparr>)))"
  by (simp add: MuxInitChannel_def log_event_def ret_def Let_def)

lemma sim_init_fields [simp]:
  "length (WriteBuffer sim_init) = 66" "length (ReadBuffer sim_init) = 64"
  "EepromSlvAddr sim_init = 0" "PageSize sim_init = 0" "bus_log sim_init = []"
  "world sim_init = \<lparr>sim_target = 0, sim_channel = 0, sim_page = []\<rparr>"
  by (simp_all add: sim_init_def)

lemma blank_board_fields [simp]:
  "responds blank_board a c" "mux_ok blank_board" "eeprom_ok blank_board"
  "eeprom_write blank_board bytes page = page" "eeprom_read blank_board n page = replicate n 0"
  by (simp_all add: blank_board_def)

lemma erased_board_fields [simp]:
  "responds erased_board a c" "mux_ok erased_board" "eeprom_ok erased_board"
  "eeprom_write erased_board bytes page = page" "eeprom_read erased_board n page = replicate n 0xFF"
  by (simp_all add: erased_board_def)

lemma nak_board_fields [simp]:
  "responds nak_board a c" "mux_ok nak_board" "\<not> eeprom_ok nak_board"
  by (simp_all add: nak_board_def)

lemma empty_board_fields [simp]:
  "\<not> responds empty_board a c" "mux_ok empty_board" "eeprom_ok empty_board"
  by (simp_all add: empty_board_def)

lemma sim_init_wf [simp]: "wf_state sim_init"
  by (simp add: wf_state_def sim_init_def sizeof_AddressType_def MAX_SIZE_def)

lemma wf_state_update [simp]:
  "wf_state (s\<lparr>EepromSlvAddr := a\<rparr>) = wf_state s"
  "wf_state (s\<lparr>PageSize := p\<rparr>) = wf_state s"
  "wf_state (s\<lparr>world := w\<rparr>) = wf_state s"
  "wf_state (s\<lparr>bus_log := l\<rparr>) = wf_state s"
  by (simp_all add: wf_state_def)

lemma ok_o_simps [simp]:
  "ok_o Q None" "\<not> ok_o Q (Some (Inl e))" "ok_o Q (Some (Inr x)) = Q x" "ok_o Q (ret x) = Q x"
  by (simp_all add: ok_o_def ret_def)

lemma ok_o_bind:
  assumes "ok_o (\<lambda>x. ok_o Q (f x)) m"
  shows "ok_o Q (bind_o m f)"
  using assms by (auto simp: ok_o_def bind_o_def split: option.splits sum.splits)

lemma ok_o_mono:
  assumes "ok_o P m" "\<And>x. P x \<Longrightarrow> Q x"
  shows "ok_o Q m"
  using assms by (auto simp: ok_o_def split: option.splits sum.splits)

lemma ok_oI:
  assumes "\<And>e. m \<noteq> Some (Inl e)" "\<And>x. m = Some (Inr x) \<Longrightarrow> Q x"
  shows "ok_o Q m"
  using assms by (auto simp: ok_o_def split: option.splits sum.splits)

lemma ok_oD:
  assumes "ok_o Q m"
  shows "m \<noteq> Some (Inl e)" and "m = Some (Inr x) \<Longrightarrow> Q x"
  using assms by (auto simp: ok_o_def split: option.splits sum.splits)

lemma EepromWriteData_no_fault:
  assumes "unat ByteCount \<le> length (WriteBuffer s)"
  shows "EepromWriteData hw ByteCount s \<noteq> Some (Inl e)"
  using assms
  by (auto simp: EepromWriteData_def Let_def bind_o_def BusIdle_def ret_def
      split: prod.splits option.splits if_splits)

lemma EepromWriteData_status:
  assumes "EepromWriteData hw ByteCount s = Some (Inr (Status, s'))"
  shows "Status = XST_SUCCESS \<or> Status = XST_FAILURE"
  using assms
  by (auto simp: EepromWriteData_def Let_def bind_o_eq_Inr split: prod.splits if_splits)

lemma EepromWriteData_ok:
  assumes "unat ByteCount \<le> length (WriteBuffer s)"
  shows "ok_o (\<lambda>(Status, s').
           (Status = XST_SUCCESS \<or> Status = XST_FAILURE) \<and>
           WriteBuffer s' = WriteBuffer s \<and> ReadBuffer s' = ReadBuffer s \<and>
           EepromSlvAddr s' = EepromSlvAddr s \<and> PageSize s' = PageSize s \<and>
           bus_log s' = bus_log s @ [EvSend (take (unat ByteCount) (WriteBuffer s)) (EepromSlvAddr s)])
         (EepromWriteData hw ByteCount s)"
proof (rule ok_oI)
  fix e show "EepromWriteData hw ByteCount s \<noteq> Some (Inl e)"
    using assms by (rule EepromWriteData_no_fault)
next
  fix x assume r: "EepromWriteData hw ByteCount s = Some (Inr x)"
  obtain Status s' where x: "x = (Status, s')" by (cases x)
  from EepromWriteData_frame [OF r [unfolded x]] EepromWriteData_status [OF r [unfolded x]]
  show "case x of (Status, s') \<Rightarrow>
           (Status = XST_SUCCESS \<or> Status = XST_FAILURE) \<and>
           WriteBuffer s' = WriteBuffer s \<and> ReadBuffer s' = ReadBuffer s \<and>
           EepromSlvAddr s' = EepromSlvAddr s \<and> PageSize s' = PageSize s \<and>
           bus_log s' = bus_log s @ [EvSend (take (unat ByteCount) (WriteBuffer s)) (EepromSlvAddr s)]"
    unfolding x by simp
qed

lemma EncodeAddress_ok:
  assumes "1 < length (WriteBuffer s)"
  shows "\<exists>off s1. EncodeAddress Size Address s = Inr (off, s1) \<and> (off = 1 \<or> off = 2) \<and>
           length (WriteBuffer s1) = length (WriteBuffer s) \<and> ReadBuffer s1 = ReadBuffer s \<and>
           EepromSlvAddr s1 = EepromSlvAddr s \<and> PageSize s1 = PageSize s \<and>
           bus_log s1 = bus_log s \<and> world s1 = world s"
  using assms by (auto simp: EncodeAddress_def store_WriteBuffer_def)

lemma EepromReadData_ok:
  assumes "1 < length (WriteBuffer s)" "unat ByteCount \<le> length (ReadBuffer s)"
  shows "ok_o (\<lambda>(Status, s').
           (Status = XST_SUCCESS \<or> Status = XST_FAILURE) \<and>
           length (WriteBuffer s') = length (WriteBuffer s) \<and>
           length (ReadBuffer s') = length (ReadBuffer s) \<and>
           EepromSlvAddr s' = EepromSlvAddr s \<and> PageSize s' = PageSize s)
         (EepromReadData hw ByteCount Address s)"
proof -
  from EncodeAddress_ok [OF assms(1), of "PageSize s" Address] obtain off s1 where
    enc: "EncodeAddress (PageSize s) Address s = Inr (off, s1)" and off: "off = 1 \<or> off = 2" and
    s1: "length (WriteBuffer s1) = length (WriteBuffer s)" "ReadBuffer s1 = ReadBuffer s"
       "EepromSlvAddr s1 = EepromSlvAddr s" "PageSize s1 = PageSize s"
    by blast
  from off assms(1) s1 have le: "unat (ucast off :: u16) \<le> length (WriteBuffer s1)"
    by auto
  show ?thesis
    unfolding EepromReadData_def enc bind_o_simps prod.case
  proof (rule ok_o_bind, rule ok_o_mono [OF EepromWriteData_ok [OF le]])
    fix x :: "s32 \<times> 'a state"
    obtain St s2 where x: "x = (St, s2)" by (cases x)
    assume "case x of (Status, s') \<Rightarrow>
           (Status = XST_SUCCESS \<or> Status = XST_FAILURE) \<and>
           WriteBuffer s' = WriteBuffer s1 \<and> ReadBuffer s' = ReadBuffer s1 \<and>
           EepromSlvAddr s' = EepromSlvAddr s1 \<and> PageSize s' = PageSize s1 \<and>
           bus_log s' = bus_log s1 @ [EvSend (take (unat (ucast off :: u16)) (WriteBuffer s1)) (EepromSlvAddr s1)]"
    then have s2: "WriteBuffer s2 = WriteBuffer s1" "ReadBuffer s2 = ReadBuffer s1"
      "EepromSlvAddr s2 = EepromSlvAddr s1" "PageSize s2 = PageSize s1"
      unfolding x by simp_all
    obtain St3 bytes w where rc: "XIicPs_MasterRecvPolled hw (unat ByteCount) (EepromSlvAddr s2) (world s2)
        = ((St3, bytes), w)"
      by (metis surj_pair)
    have len: "length (recv_into (unat ByteCount) bytes (ReadBuffer s2)) = length (ReadBuffer s)"
      using assms(2) s1 s2 by (simp add: recv_into_def)
    show "ok_o (\<lambda>(Status, s').
           (Status = XST_SUCCESS \<or> Status = XST_FAILURE) \<and>
           length (WriteBuffer s') = length (WriteBuffer s) \<and>
           length (ReadBuffer s') = length (ReadBuffer s) \<and>
           EepromSlvAddr s' = EepromSlvAddr s \<and> PageSize s' = PageSize s)
       (case x of (Status, s2) \<Rightarrow>
         if Status \<noteq> XST_SUCCESS then ret (XST_FAILURE, s2)
         else if length (ReadBuffer s2) < unat ByteCount then Some (Inl OutOfBounds)
         else
           let ((Status, bytes), w) =
                 XIicPs_MasterRecvPolled hw (unat ByteCount) (EepromSlvAddr s2) (world s2);
               s3 = log_event (EvRecv (unat ByteCount) (EepromSlvAddr s2))
                      (s2\<lparr>world := w, ReadBuffer := recv_into (unat ByteCount) bytes (ReadBuffer s2)\<rparr>)
           in if Status \<noteq> XST_SUCCESS then ret (XST_FAILURE, s3)
              else bind_o (BusIdle hw s3) (\<lambda>s4. ret (XST_SUCCESS, s4)))"
      unfolding x prod.case
      using s1 s2 assms(2) len rc
      by (auto simp: Let_def log_event_def BusIdle_def bind_o_def ret_def ok_o_def
          split: option.splits dest!: BusWait_frame)
  qed
qed

lemma trial_index_cases: "i < 3 \<Longrightarrow> i = 0 \<or> i = 1 \<or> i = (2::nat)"
  by arith

lemma trial_bytecount:
  assumes "i < 3"
  shows "unat (ucast (of_nat (length (TrialAddress i)) + ps ! i :: u32) :: u16)
           = length (TrialAddress i) + unat (ps ! i)"
    and "length (TrialAddress i) + unat (ps ! i) \<le> 66"
  using trial_index_cases [OF assms]
  by (auto simp: ps_def TrialAddress_def PAGE_SIZE_16_def)

lemma unat_ucast_ps:
  assumes "i < 3"
  shows "unat (ucast (ps ! i) :: u16) = unat (ps ! i)"
  using trial_index_cases [OF assms] by (auto simp: ps_def)

lemma TrialStart_wf:
  assumes "wf_state s" "i < 3"
  shows "wf_state (TrialStart i s)"
  using assms trial_bytecount(2) [OF assms(2)] unat_ps_le [OF assms(2)]
  by (simp add: wf_state_def TrialStart_def sizeof_AddressType_def MAX_SIZE_def)

lemma TrialStart_WriteBuffer_take:
  assumes "wf_state s" "i < 3"
  shows "take (length (TrialAddress i) + unat (ps ! i)) (WriteBuffer (TrialStart i s))
         = TrialAddress i @ TrialPage i"
  by (simp add: TrialStart_def)

lemma wf_state_lengths:
  "wf_state s \<Longrightarrow> length (WriteBuffer s) = 66 \<and> length (ReadBuffer s) = 64"
  by (simp add: wf_state_def sizeof_AddressType_def MAX_SIZE_def)

lemma PageSizeTrial_ok:
  assumes wf: "wf_state s" and i: "i < 3"
  shows "ok_o (\<lambda>(r, s'). wf_state s' \<and> PageSize s' = ps ! i \<and> EepromSlvAddr s' = EepromSlvAddr s \<and>
                 (case r of Return st \<Rightarrow> st = XST_SUCCESS \<or> st = XST_FAILURE
                          | Continue st \<Rightarrow> st = XST_SUCCESS))
           (PageSizeTrial hw i s)"
proof -
  note wfs = TrialStart_wf [OF wf i]
  note ls = wf_state_lengths [OF wfs]
  have le: "unat (ucast (of_nat (length (TrialAddress i)) + ps ! i :: u32) :: u16)
              \<le> length (WriteBuffer (TrialStart i s))"
    using trial_bytecount [OF i] ls by simp
  show ?thesis
    unfolding PageSizeTrial_char [OF wf i]
  proof (rule ok_o_bind, rule ok_o_mono [OF EepromWriteData_ok [OF le]])
    fix x :: "s32 \<times> 'a state"
    obtain St s3 where x: "x = (St, s3)" by (cases x)
    assume "case x of (Status, s') \<Rightarrow>
           (Status = XST_SUCCESS \<or> Status = XST_FAILURE) \<and>
           WriteBuffer s' = WriteBuffer (TrialStart i s) \<and> ReadBuffer s' = ReadBuffer (TrialStart i s) \<and>
           EepromSlvAddr s' = EepromSlvAddr (TrialStart i s) \<and> PageSize s' = PageSize (TrialStart i s) \<and>
           bus_log s' = bus_log (TrialStart i s) @
             [EvSend (take (unat (ucast (of_nat (length (TrialAddress i)) + ps ! i :: u32) :: u16))
                        (WriteBuffer (TrialStart i s))) (EepromSlvAddr (TrialStart i s))]"
    then have s3: "WriteBuffer s3 = WriteBuffer (TrialStart i s)" "ReadBuffer s3 = ReadBuffer (TrialStart i s)"
      "EepromSlvAddr s3 = EepromSlvAddr s" "PageSize s3 = ps ! i"
      unfolding x by simp_all
    with ls have wf3: "wf_state s3" and l3: "1 < length (WriteBuffer s3)"
      "unat (ucast (ps ! i) :: u16) \<le> length (ReadBuffer s3)"
      using unat_ps_le [OF i] unat_ucast_ps [OF i]
      by (simp_all add: wf_state_def sizeof_AddressType_def MAX_SIZE_def)
    have rd: "ok_o (\<lambda>(Status, s4).
                 wf_state s4 \<and> PageSize s4 = ps ! i \<and> EepromSlvAddr s4 = EepromSlvAddr s)
              (EepromReadData hw (ucast (ps ! i)) EEPROM_START_ADDRESS s3)"
      using s3 wf3
      by (intro ok_o_mono [OF EepromReadData_ok [OF l3]]) (auto simp: wf_state_def)
    show "ok_o (\<lambda>(r, s'). wf_state s' \<and> PageSize s' = ps ! i \<and> EepromSlvAddr s' = EepromSlvAddr s \<and>
                 (case r of Return st \<Rightarrow> st = XST_SUCCESS \<or> st = XST_FAILURE
                          | Continue st \<Rightarrow> st = XST_SUCCESS))
      (case x of (Status, s3) \<Rightarrow>
          if Status \<noteq> XST_SUCCESS then ret (Return XST_FAILURE, s3)
          else bind_o (EepromReadData hw (ucast (ps ! i)) EEPROM_START_ADDRESS s3)
                 (\<lambda>(Status, s4).
                    if Status \<noteq> XST_SUCCESS then ret (Return XST_FAILURE, s4)
                    else if take (unat (ps ! i)) (ReadBuffer s4) = TrialPage i
                         then ret (Return XST_SUCCESS, s4)
                         else ret (Continue Status, s4)))"
      unfolding x prod.case
    proof (cases "St \<noteq> XST_SUCCESS")
      case True
      with s3 wf3 show "ok_o (\<lambda>(r, s'). wf_state s' \<and> PageSize s' = ps ! i \<and> EepromSlvAddr s' = EepromSlvAddr s \<and>
                 (case r of Return st \<Rightarrow> st = XST_SUCCESS \<or> st = XST_FAILURE
                          | Continue st \<Rightarrow> st = XST_SUCCESS))
          (if St \<noteq> XST_SUCCESS then ret (Return XST_FAILURE, s3)
          else bind_o (EepromReadData hw (ucast (ps ! i)) EEPROM_START_ADDRESS s3)
                 (\<lambda>(Status, s4).
                    if Status \<noteq> XST_SUCCESS then ret (Return XST_FAILURE, s4)
                    else if take (unat (ps ! i)) (ReadBuffer s4) = TrialPage i
                         then ret (Return XST_SUCCESS, s4)
                         else ret (Continue Status, s4)))"
        by simp
    next
      case False
      show "ok_o (\<lambda>(r, s'). wf_state s' \<and> PageSize s' = ps ! i \<and> EepromSlvAddr s' = EepromSlvAddr s \<and>
                 (case r of Return st \<Rightarrow> st = XST_SUCCESS \<or> st = XST_FAILURE
                          | Continue st \<Rightarrow> st = XST_SUCCESS))
          (if St \<noteq> XST_SUCCESS then ret (Return XST_FAILURE, s3)
          else bind_o (EepromReadData hw (ucast (ps ! i)) EEPROM_START_ADDRESS s3)
                 (\<lambda>(Status, s4).
                    if Status \<noteq> XST_SUCCESS then ret (Return XST_FAILURE, s4)
                    else if take (unat (ps ! i)) (ReadBuffer s4) = TrialPage i
                         then ret (Return XST_SUCCESS, s4)
                         else ret (Continue Status, s4)))"
        using False
        by (simp only: if_False, intro ok_o_bind ok_o_mono [OF rd]) auto
    qed
  qed
qed

lemma FindEepromPageSize_unfold:
  "FindEepromPageSize hw a s =
     bind_o (PageSizeTrial hw 0 s) (\<lambda>(r0, s1).
       case r0 of
         Return st \<Rightarrow> ret (st, s1)
       | Continue c0 \<Rightarrow>
           bind_o (PageSizeTrial hw 1 s1) (\<lambda>(r1, s2).
             case r1 of
               Return st \<Rightarrow> ret (st, s2)
             | Continue c1 \<Rightarrow>
                 bind_o (PageSizeTrial hw 2 s2) (\<lambda>(r2, s3).
                   case r2 of
                     Return st \<Rightarrow> ret (st, s3)
                   | Continue c2 \<Rightarrow> ret (c2, s3))))"
proof -
  have n3: "(2::nat) + 1 = 3" and n2: "(1::nat) + 1 = 2" and n1: "(0::nat) + 1 = 1"
    by simp_all
  have l3: "FindEepromPageSize_loop hw 3 St t = ret (St, t)" for St t
    by (subst FindEepromPageSize_loop.simps) simp
  have l2: "FindEepromPageSize_loop hw 2 St t =
      bind_o (PageSizeTrial hw 2 t) (\<lambda>(r2, s3).
                   case r2 of
                     Return st \<Rightarrow> ret (st, s3)
                   | Continue c2 \<Rightarrow> ret (c2, s3))" for St t
    by (subst FindEepromPageSize_loop.simps, unfold n3 l3) simp
  have l1: "FindEepromPageSize_loop hw 1 St t =
      bind_o (PageSizeTrial hw 1 t) (\<lambda>(r1, s2).
             case r1 of
               Return st \<Rightarrow> ret (st, s2)
             | Continue c1 \<Rightarrow> FindEepromPageSize_loop hw 2 c1 s2)" for St t
    by (subst FindEepromPageSize_loop.simps, unfold n2) simp
  have l0: "FindEepromPageSize_loop hw 0 St t =
      bind_o (PageSizeTrial hw 0 t) (\<lambda>(r0, s1).
             case r0 of
               Return st \<Rightarrow> ret (st, s1)
             | Continue c0 \<Rightarrow> FindEepromPageSize_loop hw 1 c0 s1)" for St t
    by (subst FindEepromPageSize_loop.simps, unfold n1) simp
  show ?thesis
    unfolding FindEepromPageSize_def l0 l1 l2 ..
qed

lemma FindEepromPageSize_cases:
  assumes "FindEepromPageSize hw a s = Some (Inr (Status, s'))"
  obtains (first) "PageSizeTrial hw 0 s = Some (Inr (Return Status, s'))"
  | (second) c0 s1 where "PageSizeTrial hw 0 s = Some (Inr (Continue c0, s1))"
      "PageSizeTrial hw 1 s1 = Some (Inr (Return Status, s'))"
  | (third) c0 s1 c1 s2 where "PageSizeTrial hw 0 s = Some (Inr (Continue c0, s1))"
      "PageSizeTrial hw 1 s1 = Some (Inr (Continue c1, s2))"
      "PageSizeTrial hw 2 s2 = Some (Inr (Return Status, s'))"
  | (exhausted) c0 s1 c1 s2 where "PageSizeTrial hw 0 s = Some (Inr (Continue c0, s1))"
      "PageSizeTrial hw 1 s1 = Some (Inr (Continue c1, s2))"
      "PageSizeTrial hw 2 s2 = Some (Inr (Continue Status, s'))"
proof -
  from assms [unfolded FindEepromPageSize_unfold bind_o_eq_Inr]
  obtain r0 s1 where t0: "PageSizeTrial hw 0 s = Some (Inr (r0, s1))"
    and k0: "(case r0 of
         Return st \<Rightarrow> ret (st, s1)
       | Continue c0 \<Rightarrow>
           bind_o (PageSizeTrial hw 1 s1) (\<lambda>(r1, s2).
             case r1 of
               Return st \<Rightarrow> ret (st, s2)
             | Continue c1 \<Rightarrow>
                 bind_o (PageSizeTrial hw 2 s2) (\<lambda>(r2, s3).
                   case r2 of
                     Return st \<Rightarrow> ret (st, s3)
                   | Continue c2 \<Rightarrow> ret (c2, s3)))) = Some (Inr (Status, s'))"
    by auto
  show thesis
  proof (cases r0)
    case (Return st)
    with t0 k0 show thesis by (auto intro: first)
  next
    case (Continue c0)
    with k0 [unfolded bind_o_eq_Inr] obtain r1 s2 where
      t1: "PageSizeTrial hw 1 s1 = Some (Inr (r1, s2))"
      and k1: "(case r1 of
               Return st \<Rightarrow> ret (st, s2)
             | Continue c1 \<Rightarrow>
                 bind_o (PageSizeTrial hw 2 s2) (\<lambda>(r2, s3).
                   case r2 of
                     Return st \<Rightarrow> ret (st, s3)
                   | Continue c2 \<Rightarrow> ret (c2, s3))) = Some (Inr (Status, s'))"
      by (auto simp: bind_o_eq_Inr)
    show thesis
    proof (cases r1)
      case (Return st)
      with t0 t1 k1 Continue show thesis by (auto intro: second)
    next
      case C1: (Continue c1)
      with k1 obtain r2 s3 where
        t2: "PageSizeTrial hw 2 s2 = Some (Inr (r2, s3))"
        and k2: "(case r2 of
                     Return st \<Rightarrow> ret (st, s3)
                   | Continue c2 \<Rightarrow> ret (c2, s3)) = Some (Inr (Status, s'))"
        by (auto simp: bind_o_eq_Inr)
      show thesis
      proof (cases r2)
        case (Return st)
        with t0 t1 t2 k2 Continue C1 show thesis by (auto intro: third)
      next
        case C2: (Continue c2)
        with t0 t1 t2 k2 Continue C1 show thesis by (auto intro: exhausted)
      qed
    qed
  qed
qed

lemma PageSizeTrial_post:
  assumes "wf_state s" "i < 3" "PageSizeTrial hw i s = Some (Inr (r, s'))"
  shows "wf_state s' \<and> PageSize s' = ps ! i \<and> EepromSlvAddr s' = EepromSlvAddr s \<and>
         (case r of Return st \<Rightarrow> st = XST_SUCCESS \<or> st = XST_FAILURE
                  | Continue st \<Rightarrow> st = XST_SUCCESS)"
  using ok_oD(2) [OF PageSizeTrial_ok [OF assms(1,2)] assms(3)] by simp

lemma FindEepromPageSize_exhausted:
  assumes "wf_state s"
    and "PageSizeTrial hw 0 s = Some (Inr (Continue c0, s1))"
    and "PageSizeTrial hw 1 s1 = Some (Inr (Continue c1, s2))"
    and "PageSizeTrial hw 2 s2 = Some (Inr (Continue c2, s3))"
  shows "FindEepromPageSize hw a s = Some (Inr (XST_SUCCESS, s3))"
proof -
  from PageSizeTrial_post [OF assms(1) _ assms(2)] have "wf_state s1" by simp
  from PageSizeTrial_post [OF this _ assms(3)] have "wf_state s2" by simp
  from PageSizeTrial_post [OF this _ assms(4)] have "c2 = XST_SUCCESS" by simp
  with assms show ?thesis
    by (simp add: FindEepromPageSize_unfold ret_def)
qed

lemma FindEepromPageSize_post:
  assumes "wf_state s" and "FindEepromPageSize hw a s = Some (Inr (Status, s'))"
  shows "wf_state s' \<and> (PageSize s' = 64 \<or> PageSize s' = 32 \<or> PageSize s' = 16) \<and>
         EepromSlvAddr s' = EepromSlvAddr s \<and> (Status = XST_SUCCESS \<or> Status = XST_FAILURE)"
  using assms(2)
proof (cases rule: FindEepromPageSize_cases)
  case first
  from PageSizeTrial_post [OF assms(1) _ first] show ?thesis by (simp add: ps_def)
next
  case (second c0 s1)
  from PageSizeTrial_post [OF assms(1) _ second(1)] have s1: "wf_state s1" "EepromSlvAddr s1 = EepromSlvAddr s"
    by simp_all
  from PageSizeTrial_post [OF s1(1) _ second(2)] s1 show ?thesis by (simp add: ps_def)
next
  case (third c0 s1 c1 s2)
  from PageSizeTrial_post [OF assms(1) _ third(1)] have s1: "wf_state s1" "EepromSlvAddr s1 = EepromSlvAddr s"
    by simp_all
  from PageSizeTrial_post [OF s1(1) _ third(2)] s1 have s2: "wf_state s2" "EepromSlvAddr s2 = EepromSlvAddr s"
    by simp_all
  from PageSizeTrial_post [OF s2(1) _ third(3)] s2 show ?thesis by (simp add: ps_def)
next
  case (exhausted c0 s1 c1 s2)
  from PageSizeTrial_post [OF assms(1) _ exhausted(1)] have s1: "wf_state s1" "EepromSlvAddr s1 = EepromSlvAddr s"
    by simp_all
  from PageSizeTrial_post [OF s1(1) _ exhausted(2)] s1 have s2: "wf_state s2" "EepromSlvAddr s2 = EepromSlvAddr s"
    by simp_all
  from PageSizeTrial_post [OF s2(1) _ exhausted(3)] s2 show ?thesis by (simp add: ps_def)
qed

lemma FindEepromPageSize_no_fault:
  assumes "wf_state s"
  shows "FindEepromPageSize hw a s \<noteq> Some (Inl e)"
proof
  assume f: "FindEepromPageSize hw a s = Some (Inl e)"
  note nf = ok_oD(1) [OF PageSizeTrial_ok]
  show False
  proof (cases "PageSizeTrial hw 0 s")
    case None with f show False by (simp add: FindEepromPageSize_unfold)
  next
    case (Some x0)
    show False
    proof (cases x0)
      case (Inl e0) with Some nf [OF assms, of 0 hw e0] show False by simp
    next
      case (Inr p0)
      obtain r0 s1 where p0: "p0 = (r0, s1)" by (cases p0)
      from PageSizeTrial_post [OF assms _ Some [unfolded Inr p0]] have w1: "wf_state s1" by simp
      show False
      proof (cases r0)
        case (Return st) with f Some Inr p0 show False by (simp add: FindEepromPageSize_unfold)
      next
        case (Continue c0)
        show False
        proof (cases "PageSizeTrial hw 1 s1")
          case None with f Some Inr p0 Continue show False by (simp add: FindEepromPageSize_unfold)
        next
          case S1: (Some x1)
          show False
          proof (cases x1)
            case (Inl e1) with S1 nf [OF w1, of 1 hw e1] show False by simp
          next
            case I1: (Inr p1)
            obtain r1 s2 where p1: "p1 = (r1, s2)" by (cases p1)
            from PageSizeTrial_post [OF w1 _ S1 [unfolded I1 p1]] have w2: "wf_state s2" by simp
            show False
            proof (cases r1)
              case (Return st)
              with f Some Inr p0 Continue S1 I1 p1 show False by (simp add: FindEepromPageSize_unfold)
            next
              case C1: (Continue c1)
              show False
              proof (cases "PageSizeTrial hw 2 s2")
                case None
                with f Some Inr p0 Continue S1 I1 p1 C1 show False
                  by (simp add: FindEepromPageSize_unfold)
              next
                case S2: (Some x2)
                show False
                proof (cases x2)
                  case (Inl e2) with S2 nf [OF w2, of 2 hw e2] show False by simp
                next
                  case I2: (Inr p2)
                  with f Some Inr p0 Continue S1 I1 p1 C1 S2 show False
                    by (cases p2; cases "fst p2") (simp_all add: FindEepromPageSize_unfold)
                qed
              qed
            qed
          qed
        qed
      qed
    qed
  qed
qed

lemma TrialAddress_16: "ps ! i = 16 \<Longrightarrow> TrialAddress i = [0]" "ps ! i \<noteq> 16 \<Longrightarrow> TrialAddress i = [0, 0]"
  by (simp_all add: TrialAddress_def PAGE_SIZE_16_def)

lemma sim_PageSizeTrial:
  assumes wf: "wf_state s" and i: "i < 3" and a: "EepromSlvAddr s \<noteq> MUX_ADDR" and ok: "eeprom_ok b"
  shows "PageSizeTrial (sim_platform b) i s =
     (let page = eeprom_write b (TrialAddress i)
                   (eeprom_write b (TrialAddress i @ TrialPage i) (sim_page (world s)));
          rb = recv_into (unat (ps ! i)) (eeprom_read b (unat (ps ! i)) page)
                 (ReadBuffer (TrialStart i s));
          s4 = (TrialStart i s)\<lparr>ReadBuffer := rb,
                 world := (world s)\<lparr>sim_page := page\<rparr>,
                 bus_log := bus_log s @ [EvSend (TrialAddress i @ TrialPage i) (EepromSlvAddr s),
                                         EvSend (TrialAddress i) (EepromSlvAddr s),
                                         EvRecv (unat (ps ! i)) (EepromSlvAddr s)]\<rparr>
      in Some (Inr (if take (unat (ps ! i)) rb = TrialPage i then Return XST_SUCCESS
                    else Continue XST_SUCCESS, s4)))"
proof -
  note wfs = TrialStart_wf [OF wf i]
  note ls = wf_state_lengths [OF wfs]
  note bc = trial_bytecount [OF i]
  have le: "unat (ucast (of_nat (length (TrialAddress i)) + ps ! i :: u32) :: u16)
              \<le> length (WriteBuffer (TrialStart i s))"
    using bc ls by simp
  have tk: "take (unat (ucast (of_nat (length (TrialAddress i)) + ps ! i :: u32) :: u16))
              (WriteBuffer (TrialStart i s)) = TrialAddress i @ TrialPage i"
    using bc by (simp add: TrialStart_def)
  let ?s3 = "(TrialStart i s)\<lparr>world := (world s)\<lparr>sim_page :=
                 eeprom_write b (TrialAddress i @ TrialPage i) (sim_page (world s))\<rparr>,
               bus_log := bus_log s @ [EvSend (TrialAddress i @ TrialPage i) (EepromSlvAddr s)]\<rparr>"
  have wr: "EepromWriteData (sim_platform b) (ucast (of_nat (length (TrialAddress i)) + ps ! i)) (TrialStart i s)
            = Some (Inr (XST_SUCCESS, ?s3))"
    using a ok by (subst sim_EepromWriteData [OF le]) (simp_all add: tk)
  have ab: "(if PageSize ?s3 = 16 then [ucast EEPROM_START_ADDRESS]
            else [ucast (drop_bit 8 EEPROM_START_ADDRESS), ucast EEPROM_START_ADDRESS]) = TrialAddress i"
    by (simp add: TrialAddress_def PAGE_SIZE_16_def EEPROM_START_ADDRESS_def)
  have wb: "TrialAddress i @ drop (length (TrialAddress i)) (WriteBuffer ?s3) = WriteBuffer (TrialStart i s)"
    by (simp add: TrialStart_def)
  have rd: "EepromReadData (sim_platform b) (ucast (ps ! i)) EEPROM_START_ADDRESS ?s3 =
      Some (Inr (XST_SUCCESS,
         ?s3\<lparr>WriteBuffer := WriteBuffer (TrialStart i s),
             ReadBuffer := recv_into (unat (ps ! i))
                 (eeprom_read b (unat (ps ! i))
                    (eeprom_write b (TrialAddress i) (sim_page (world ?s3))))
                 (ReadBuffer ?s3),
             world := (world ?s3)\<lparr>sim_page := eeprom_write b (TrialAddress i) (sim_page (world ?s3))\<rparr>,
             bus_log := bus_log ?s3 @ [EvSend (TrialAddress i) (EepromSlvAddr ?s3),
                                      EvRecv (unat (ps ! i)) (EepromSlvAddr ?s3)]\<rparr>))"
  proof -
    have pre: "1 < length (WriteBuffer ?s3)" "unat (ucast (ps ! i) :: u16) \<le> length (ReadBuffer ?s3)"
      "EepromSlvAddr ?s3 \<noteq> MUX_ADDR"
      using ls a unat_ps_le [OF i] by (simp_all add: unat_ucast_ps [OF i])
    show ?thesis
      using sim_EepromReadData [OF pre ok, of EEPROM_START_ADDRESS]
      unfolding Let_def ab wb unat_ucast_ps [OF i] .
  qed
  show ?thesis
    unfolding PageSizeTrial_char [OF wf i] wr bind_o_simps prod.case rd
    by (simp add: Let_def ret_def; intro conjI impI state.equality; simp)
qed

lemma TrialPage_not_constant:
  assumes "i < 3"
  shows "TrialPage i \<noteq> replicate (unat (ps ! i)) v"
proof
  assume eq: "TrialPage i = replicate (unat (ps ! i)) v"
  from ps_cases [OF assms] have n: "1 < unat (ps ! i)" by auto
  from eq have "TrialPage i ! 0 = v" "TrialPage i ! 1 = v"
    using n by simp_all
  then have "(of_nat i :: u8) = of_nat (1 + i)"
    using n by (simp add: TrialPage_def del: of_nat_add)
  then have "unat (of_nat i :: u8) = unat (of_nat (1 + i) :: u8)" by (rule arg_cong)
  then have "i mod 2 ^ LENGTH(8) = (1 + i) mod 2 ^ LENGTH(8)"
    by (simp only: unat_of_nat)
  with assms show False by simp
qed

lemma sim_PageSizeTrial_constant:
  assumes wf: "wf_state s" and i: "i < 3" and a: "EepromSlvAddr s \<noteq> MUX_ADDR" and ok: "eeprom_ok b"
    and rd: "\<And>n page. eeprom_read b n page = replicate n v"
  shows "\<exists>s'. PageSizeTrial (sim_platform b) i s = Some (Inr (Continue XST_SUCCESS, s')) \<and>
           wf_state s' \<and> EepromSlvAddr s' = EepromSlvAddr s \<and> PageSize s' = ps ! i \<and>
           take (unat (ps ! i)) (ReadBuffer s') = replicate (unat (ps ! i)) v"
proof -
  have tk: "take (unat (ps ! i)) (recv_into (unat (ps ! i)) (replicate (unat (ps ! i)) v) rb)
            = replicate (unat (ps ! i)) v" for rb
    by (simp add: recv_into_def)
  from TrialPage_not_constant [OF i, of v]
  have ne: "replicate (unat (ps ! i)) v \<noteq> TrialPage i" by simp
  obtain s' where r: "PageSizeTrial (sim_platform b) i s = Some (Inr (Continue XST_SUCCESS, s'))"
    and rb: "take (unat (ps ! i)) (ReadBuffer s') = replicate (unat (ps ! i)) v"
    unfolding sim_PageSizeTrial [OF wf i a ok] Let_def rd tk
    using ne by (simp add: tk)
  from PageSizeTrial_post [OF wf i r] r rb show ?thesis by simp
qed

lemma sim_detector_constant:
  assumes wf: "wf_state s" and a: "EepromSlvAddr s \<noteq> MUX_ADDR" and ok: "eeprom_ok b"
    and rd: "\<And>n page. eeprom_read b n page = replicate n v"
  shows "\<exists>s'. FindEepromPageSize (sim_platform b) x s = Some (Inr (XST_SUCCESS, s')) \<and>
           PageSize s' = 16 \<and> take 16 (ReadBuffer s') = replicate 16 v"
proof -
  from sim_PageSizeTrial_constant [OF wf _ a ok rd, of 0] obtain s1 where
    t0: "PageSizeTrial (sim_platform b) 0 s = Some (Inr (Continue XST_SUCCESS, s1))"
    and s1: "wf_state s1" "EepromSlvAddr s1 \<noteq> MUX_ADDR"
    using a by auto
  from sim_PageSizeTrial_constant [OF s1(1) _ s1(2) ok rd, of 1] obtain s2 where
    t1: "PageSizeTrial (sim_platform b) 1 s1 = Some (Inr (Continue XST_SUCCESS, s2))"
    and s2: "wf_state s2" "EepromSlvAddr s2 \<noteq> MUX_ADDR"
    using s1 by auto
  from sim_PageSizeTrial_constant [OF s2(1) _ s2(2) ok rd, of 2] obtain s3 where
    t2: "PageSizeTrial (sim_platform b) 2 s2 = Some (Inr (Continue XST_SUCCESS, s3))"
    and s3: "PageSize s3 = ps ! 2" "take (unat (ps ! 2)) (ReadBuffer s3) = replicate (unat (ps ! 2)) v"
    by auto
  from FindEepromPageSize_exhausted [OF wf t0 t1 t2] s3 show ?thesis
    by (simp add: ps_def)
qed


lemma sim_PageSizeTrial_nak:
  assumes wf: "wf_state s" and i: "i < 3" and a: "EepromSlvAddr s \<noteq> MUX_ADDR" and nak: "\<not> eeprom_ok b"
  shows "PageSizeTrial (sim_platform b) i s =
           Some (Inr (Return XST_FAILURE,
             (TrialStart i s)\<lparr>bus_log := bus_log s @ [EvSend (TrialAddress i @ TrialPage i) (EepromSlvAddr s)]\<rparr>))"
proof -
  note wfs = TrialStart_wf [OF wf i]
  note ls = wf_state_lengths [OF wfs]
  note bc = trial_bytecount [OF i]
  have le: "unat (ucast (of_nat (length (TrialAddress i)) + ps ! i :: u32) :: u16)
              \<le> length (WriteBuffer (TrialStart i s))"
    using bc ls by simp
  have tk: "take (unat (ucast (of_nat (length (TrialAddress i)) + ps ! i :: u32) :: u16))
              (WriteBuffer (TrialStart i s)) = TrialAddress i @ TrialPage i"
    using bc by (simp add: TrialStart_def)
  have wr: "EepromWriteData (sim_platform b) (ucast (of_nat (length (TrialAddress i)) + ps ! i)) (TrialStart i s)
            = Some (Inr (XST_FAILURE,
                (TrialStart i s)\<lparr>bus_log := bus_log s @ [EvSend (TrialAddress i @ TrialPage i) (EepromSlvAddr s)]\<rparr>))"
    using a nak by (subst sim_EepromWriteData_nak [OF le]) (simp_all add: tk)
  show ?thesis
    unfolding PageSizeTrial_char [OF wf i] wr bind_o_simps prod.case
    by (simp add: ret_def)
qed


lemma FillFF_closed:
  assumes "Index \<le> unat n" "unat off + unat n \<le> length (WriteBuffer s)" "unat n \<le> length (ReadBuffer s)"
  shows "FillFF off n Index s =
           Inr (s\<lparr>WriteBuffer := take (unat off + Index) (WriteBuffer s)
                                   @ replicate (unat n - Index) 0xFF
                                   @ drop (unat off + unat n) (WriteBuffer s),
                    ReadBuffer := take Index (ReadBuffer s) @ replicate (unat n - Index) 0
                                   @ drop (unat n) (ReadBuffer s)\<rparr>)"
  using assms
proof (induction off n Index s rule: FillFF.induct)
  case (1 off n Index s)
  show ?case
  proof (cases "Index < unat n")
    case False
    with "1.prems" have "Index = unat n" by simp
    then show ?thesis
      by (subst FillFF.simps) simp
  next
    case True
    let ?s1 = "s\<lparr>WriteBuffer := (WriteBuffer s)[unat off + Index := 0xFF]\<rparr>"
    let ?s2 = "?s1\<lparr>ReadBuffer := (ReadBuffer s)[Index := 0]\<rparr>"
    from True "1.prems" have st1: "store_WriteBuffer (unat off + Index) 0xFF s = Inr ?s1"
      by (simp add: store_WriteBuffer_def)
    from True "1.prems" have st2: "store_ReadBuffer Index 0 ?s1 = Inr ?s2"
      by (simp add: store_ReadBuffer_def)
    have IH: "FillFF off n (Index + 1) ?s2 =
           Inr (?s2\<lparr>WriteBuffer := take (unat off + (Index + 1)) (WriteBuffer ?s2)
                                   @ replicate (unat n - (Index + 1)) 0xFF
                                   @ drop (unat off + unat n) (WriteBuffer ?s2),
                    ReadBuffer := take (Index + 1) (ReadBuffer ?s2) @ replicate (unat n - (Index + 1)) 0
                                   @ drop (unat n) (ReadBuffer ?s2)\<rparr>)"
      using True "1.prems" by (intro "1.IH" [OF True st1 st2]) simp_all
    have wb: "take (unat off + (Index + 1)) (WriteBuffer ?s2)
                @ replicate (unat n - (Index + 1)) 0xFF
                @ drop (unat off + unat n) (WriteBuffer ?s2)
            = take (unat off + Index) (WriteBuffer s)
                @ replicate (unat n - Index) 0xFF
                @ drop (unat off + unat n) (WriteBuffer s)"
      using True "1.prems"
        fill_step [of "unat off + Index" "unat off + unat n" "WriteBuffer s" "0xFF"
                      "replicate (unat n - (Index + 1)) 0xFF"]
      by (simp add: Suc_diff_Suc replicate_Suc [symmetric] del: replicate_Suc)
    have rb: "take (Index + 1) (ReadBuffer ?s2) @ replicate (unat n - (Index + 1)) 0
                @ drop (unat n) (ReadBuffer ?s2)
            = take Index (ReadBuffer s) @ replicate (unat n - Index) 0 @ drop (unat n) (ReadBuffer s)"
      using True "1.prems" fill_step [of Index "unat n" "ReadBuffer s" 0 "replicate (unat n - (Index + 1)) 0"]
      by (simp add: Suc_diff_Suc replicate_Suc [symmetric] del: replicate_Suc)
    show ?thesis
      apply (subst FillFF.simps)
      apply (simp only: True if_True st1 st2 sum.case IH)
      apply (simp only: wb rb)
      apply simp
      done
  qed
qed

lemma WritePhaseBytes_length:
  "length (WritePhaseBytes p Size) = (if Size = PAGE_SIZE_16 then 1 else 2)"
  by (simp add: WritePhaseBytes_def)

lemma WritePhaseAddress_eq:
  assumes "wf_state s"
  shows "WritePhaseAddress p s =
           Inr (of_nat (length (WritePhaseBytes p (PageSize s))),
                s\<lparr>WriteBuffer := WritePhaseBytes p (PageSize s)
                      @ drop (length (WritePhaseBytes p (PageSize s))) (WriteBuffer s)\<rparr>)"
  using assms
  by (simp add: WritePhaseAddress_def WritePhaseBytes_def store_WriteBuffer_def wf_state_def
      sizeof_AddressType_def MAX_SIZE_def update0_conv update01_conv Let_def)

lemma WritePage_char:
  assumes wf: "wf_state s" and n: "unat (PageSize s) \<le> 64"
  shows "WritePage hw p s =
     bind_o (EepromWriteData hw
               (ucast (of_nat (length (WritePhaseBytes p (PageSize s))) + PageSize s)) (WriteStart p s))
       (\<lambda>(Status, s3).
          if Status \<noteq> XST_SUCCESS then ret (Return XST_FAILURE, s3) else ret (Continue (), s3))"
proof -
  let ?a = "WritePhaseBytes p (PageSize s)"
  let ?s1 = "s\<lparr>WriteBuffer := ?a @ drop (length ?a) (WriteBuffer s)\<rparr>"
  have la: "length ?a \<le> 2" "unat (of_nat (length ?a) :: u32) = length ?a"
    by (simp_all add: WritePhaseBytes_def)
  note ls = wf_state_lengths [OF wf]
  have "FillFF (of_nat (length ?a)) (PageSize ?s1) 0 ?s1 =
        Inr (?s1\<lparr>WriteBuffer := take (unat (of_nat (length ?a) :: u32) + 0) (WriteBuffer ?s1)
                                   @ replicate (unat (PageSize ?s1) - 0) 0xFF
                                   @ drop (unat (of_nat (length ?a) :: u32) + unat (PageSize ?s1)) (WriteBuffer ?s1),
                    ReadBuffer := take 0 (ReadBuffer ?s1) @ replicate (unat (PageSize ?s1) - 0) 0
                                   @ drop (unat (PageSize ?s1)) (ReadBuffer ?s1)\<rparr>)"
    using la ls n by (intro FillFF_closed) simp_all
  also have "\<dots> = Inr (WriteStart p s)"
    unfolding sum.inject using la ls
    by (intro state.equality) (simp_all add: WriteStart_def add.commute)
  finally have fill: "FillFF (of_nat (length ?a)) (PageSize ?s1) 0 ?s1 = Inr (WriteStart p s)" .
  have ps: "PageSize (WriteStart p s) = PageSize s"
    by (simp add: WriteStart_def)
  show ?thesis
    unfolding WritePage_def WritePhaseAddress_eq [OF wf] bind_o_simps prod.case fill ps ..
qed

lemma BusIdle_cases:
  obtains (hang) "BusIdle hw s = None"
  | (idle) s' where "BusIdle hw s = Some (Inr s')" "WriteBuffer s' = WriteBuffer s"
      "ReadBuffer s' = ReadBuffer s" "EepromSlvAddr s' = EepromSlvAddr s" "PageSize s' = PageSize s"
      "bus_log s' = bus_log s"
proof (cases "BusIdle hw s")
  case None then show ?thesis by (rule hang)
next
  case (Some x)
  then obtain s' where r: "BusIdle hw s = Some (Inr s')"
    by (cases x) (auto simp: BusIdle_def ret_def split: option.splits)
  from BusIdle_frame [OF r] r show ?thesis by (auto intro: idle)
qed

lemma MuxInitChannel_ok:
  "ok_o (\<lambda>(Status, s').
           (Status = XST_SUCCESS \<or> Status = XST_FAILURE) \<and>
           WriteBuffer s' = WriteBuffer s \<and> ReadBuffer s' = ReadBuffer s \<and>
           EepromSlvAddr s' = EepromSlvAddr s \<and> PageSize s' = PageSize s \<and>
           (\<exists>evs. bus_log s' = bus_log s @ EvSend [Channel] MuxIicAddr # evs))
     (MuxInitChannel hw MuxIicAddr Channel s)"
proof (cases rule: BusIdle_cases [of hw s])
  case hang
  then show ?thesis by (simp add: MuxInitChannel_def)
next
  case (idle s0)
  obtain St w where snd: "XIicPs_MasterSendPolled hw [Channel] MuxIicAddr (world s0) = (St, w)"
    by (cases "XIicPs_MasterSendPolled hw [Channel] MuxIicAddr (world s0)")
  let ?s1 = "log_event (EvSend [Channel] MuxIicAddr) (s0\<lparr>world := w\<rparr>)"
  show ?thesis
  proof (cases "St \<noteq> XST_SUCCESS")
    case True
    with idle snd show ?thesis
      by (simp add: MuxInitChannel_def log_event_def)
  next
    case False
    show ?thesis
    proof (cases rule: BusIdle_cases [of hw ?s1])
      case hang
      with idle snd False show ?thesis by (simp add: MuxInitChannel_def)
    next
      case i2: (idle s2)
      obtain St3 bytes w3 where rcv: "XIicPs_MasterRecvPolled hw 1 MuxIicAddr (world s2) = ((St3, bytes), w3)"
        by (metis surj_pair)
      let ?s3 = "log_event (EvRecv 1 MuxIicAddr) (s2\<lparr>world := w3\<rparr>)"
      show ?thesis
      proof (cases "St3 \<noteq> XST_SUCCESS")
        case True
        with idle snd False i2 rcv show ?thesis
          by (simp add: MuxInitChannel_def log_event_def)
      next
        case F3: False
        show ?thesis
        proof (cases rule: BusIdle_cases [of hw ?s3])
          case hang
          with idle snd False i2 rcv F3 show ?thesis by (simp add: MuxInitChannel_def)
        next
          case i4: (idle s4)
          with idle snd False i2 rcv F3 show ?thesis
            by (simp add: MuxInitChannel_def log_event_def)
        qed
      qed
    qed
  qed
qed

lemma IicPsFindDevice_frame:
  assumes "IicPsFindDevice hw addr DeviceId s = (Status, s')"
  shows "(Status = XST_SUCCESS \<or> Status = XST_FAILURE) \<and>
         WriteBuffer s' = WriteBuffer s \<and> ReadBuffer s' = ReadBuffer s \<and>
         EepromSlvAddr s' = EepromSlvAddr s \<and> PageSize s' = PageSize s"
proof -
  obtain St1 s1 where sm: "IicPsSlaveMonitor hw addr DeviceId s = (St1, s1)"
    by (cases "IicPsSlaveMonitor hw addr DeviceId s")
  obtain cst c1 where cfg: "IicPsConfig hw DeviceId s = (cst, c1)"
    by (cases "IicPsConfig hw DeviceId s")
  note fr = IicPsConfig_frame [OF cfg]
  have "WriteBuffer s1 = WriteBuffer s \<and> ReadBuffer s1 = ReadBuffer s \<and>
         EepromSlvAddr s1 = EepromSlvAddr s \<and> PageSize s1 = PageSize s"
  proof (cases "cst = XST_SUCCESS")
    case True
    with sm cfg have "FindEepromDevice hw addr c1 = (St1, s1)"
      by (simp add: IicPsSlaveMonitor_def FindEepromDevice_def)
    from FindEepromDevice_contract [OF this] fr show ?thesis by simp
  next
    case False
    with sm cfg fr show ?thesis by (simp add: IicPsSlaveMonitor_def)
  qed
  with assms sm show ?thesis
    by (auto simp: IicPsFindDevice_def split: if_splits)
qed

lemma FindEepromPageSize_ok:
  assumes "wf_state s"
  shows "ok_o (\<lambda>(Status, s'). wf_state s' \<and>
                 (PageSize s' = 64 \<or> PageSize s' = 32 \<or> PageSize s' = 16) \<and>
                 EepromSlvAddr s' = EepromSlvAddr s \<and>
                 (Status = XST_SUCCESS \<or> Status = XST_FAILURE))
           (FindEepromPageSize hw a s)"
proof (rule ok_oI)
  fix e show "FindEepromPageSize hw a s \<noteq> Some (Inl e)"
    using assms by (rule FindEepromPageSize_no_fault)
next
  fix x assume r: "FindEepromPageSize hw a s = Some (Inr x)"
  obtain Status s' where x: "x = (Status, s')" by (cases x)
  from FindEepromPageSize_post [OF assms r [unfolded x]]
  show "case x of (Status, s') \<Rightarrow> wf_state s' \<and>
                 (PageSize s' = 64 \<or> PageSize s' = 32 \<or> PageSize s' = 16) \<and>
                 EepromSlvAddr s' = EepromSlvAddr s \<and>
                 (Status = XST_SUCCESS \<or> Status = XST_FAILURE)"
    unfolding x by simp
qed

lemma wf_state_same:
  "wf_state s \<Longrightarrow> WriteBuffer s' = WriteBuffer s \<Longrightarrow> ReadBuffer s' = ReadBuffer s \<Longrightarrow> wf_state s'"
  by (simp add: wf_state_def)

lemma ChannelLoop_ok:
  "wf_state s \<Longrightarrow> ok_o found_ok (ChannelLoop hw MuxIicAddr Address MuxChannel s)"
proof (induction hw MuxIicAddr Address MuxChannel s rule: ChannelLoop.induct)
  case (1 hw MuxIicAddr Address MuxChannel s)
  show ?case
  proof (cases "0 < MuxChannel")
    case False
    with "1.prems" show ?thesis
      by (subst ChannelLoop.simps) (simp add: found_ok_def)
  next
    case True
    show ?thesis
      apply (subst ChannelLoop.simps)
      apply (simp only: True if_True)
    proof (rule ok_o_bind, rule ok_o_mono [OF MuxInitChannel_ok])
      fix x :: "s32 \<times> 'a state"
      obtain St s1 where x: "x = (St, s1)" by (cases x)
      assume "case x of (Status, s') \<Rightarrow>
           (Status = XST_SUCCESS \<or> Status = XST_FAILURE) \<and>
           WriteBuffer s' = WriteBuffer s \<and> ReadBuffer s' = ReadBuffer s \<and>
           EepromSlvAddr s' = EepromSlvAddr s \<and> PageSize s' = PageSize s \<and>
           (\<exists>evs. bus_log s' = bus_log s @ EvSend [MuxChannel] MuxIicAddr # evs)"
      with "1.prems" have wf1: "wf_state s1"
        unfolding x by (auto intro: wf_state_same)
      obtain St2 s2 where fd: "FindEepromDevice hw Address s1 = (St2, s2)"
        by (cases "FindEepromDevice hw Address s1")
      from FindEepromDevice_contract [OF fd] wf1 have wf2: "wf_state s2"
        by (auto intro: wf_state_same)
      show "ok_o found_ok
         (case x of (Status, s1) \<Rightarrow>
          if Status \<noteq> XST_SUCCESS then ret (Return XST_FAILURE, s1)
          else
            (case FindEepromDevice hw Address s1 of
               (Status, s2) \<Rightarrow>
                 if Status = XST_SUCCESS then
                   bind_o (FindEepromPageSize hw Address (s2\<lparr>EepromSlvAddr := Address\<rparr>)) (\<lambda>(Status, s3).
                     if Status \<noteq> XST_SUCCESS then ret (Return XST_FAILURE, s3)
                     else ret (Return XST_SUCCESS, s3))
                 else ChannelLoop hw MuxIicAddr Address (drop_bit 1 MuxChannel) s2))"
      proof (cases "St \<noteq> XST_SUCCESS")
        case T: True
        with wf1 show ?thesis unfolding x by (simp add: found_ok_def)
      next
        case F: False
        show ?thesis
        proof (cases "St2 = XST_SUCCESS")
          case True
          have "wf_state (s2\<lparr>EepromSlvAddr := Address\<rparr>)" using wf2 by (simp add: wf_state_def)
          from FindEepromPageSize_ok [OF this, of hw Address] True F fd show ?thesis
            unfolding x
            by (simp, intro ok_o_bind, elim ok_o_mono) (auto simp: found_ok_def)
        next
          case False
          from "1.IH" [OF True _ fd [symmetric] False wf2, of St] F False fd show ?thesis
            unfolding x by simp
        qed
      qed
    qed
  qed
qed




lemma EepromAddr_next: "Index < length EepromAddr \<Longrightarrow> EepromAddr ! Index \<noteq> 0 \<Longrightarrow> Index + 1 < length EepromAddr"
  by (cases Index; cases "Index - 1") (auto simp: EepromAddr_def)

lemma MuxAddr_next: "MuxIndex < length MuxAddr \<Longrightarrow> MuxAddr ! MuxIndex \<noteq> 0 \<Longrightarrow> MuxIndex + 1 < length MuxAddr"
  by (cases MuxIndex) (auto simp: MuxAddr_def)

lemma MuxEepromLoop_ok:
  "wf_state s \<Longrightarrow> Index < length EepromAddr \<Longrightarrow> ok_o found_ok (MuxEepromLoop hw MuxIicAddr Index s)"
proof (induction hw MuxIicAddr Index s rule: MuxEepromLoop.induct)
  case (1 hw MuxIicAddr Index s)
  show ?case
  proof (cases "EepromAddr ! Index \<noteq> 0")
    case False
    with "1.prems" show ?thesis
      by (subst MuxEepromLoop.simps) (simp add: found_ok_def)
  next
    case True
    note nxt = EepromAddr_next [OF "1.prems"(2) True]
    have lt: "\<not> length EepromAddr \<le> Index" using "1.prems"(2) by simp
    show ?thesis
      apply (subst MuxEepromLoop.simps)
      apply (simp only: True lt if_True if_False not_False_eq_True)
    proof (rule ok_o_bind, rule ok_o_mono [OF ChannelLoop_ok [OF "1.prems"(1)]])
      fix x :: "unit flow \<times> 'a state"
      obtain r s1 where x: "x = (r, s1)" by (cases x)
      assume f: "found_ok x"
      show "ok_o found_ok (case x of (r, s1) \<Rightarrow>
          case r of
            Return st \<Rightarrow> ret (Return st, s1)
          | Continue u \<Rightarrow> MuxEepromLoop hw MuxIicAddr (Index + 1) s1)"
      proof (cases r)
        case (Return st)
        with f show ?thesis unfolding x by (simp add: found_ok_def)
      next
        case (Continue u)
        from f have "wf_state s1" unfolding x by (simp add: found_ok_def)
        from "1.IH" [OF lt True Continue this nxt] Continue show ?thesis
          unfolding x by simp
      qed
    qed
  qed
qed

lemma MuxLoop_ok:
  "wf_state s \<Longrightarrow> MuxIndex < length MuxAddr \<Longrightarrow> ok_o found_ok (MuxLoop hw DeviceId MuxIndex s)"
proof (induction hw DeviceId MuxIndex s rule: MuxLoop.induct)
  case (1 hw DeviceId MuxIndex s)
  show ?case
  proof (cases "MuxAddr ! MuxIndex \<noteq> 0")
    case False
    with "1.prems" show ?thesis
      by (subst MuxLoop.simps) (simp add: found_ok_def)
  next
    case True
    note nxt = MuxAddr_next [OF "1.prems"(2) True]
    have lt: "\<not> length MuxAddr \<le> MuxIndex" using "1.prems"(2) by simp
    obtain St s1 where fd: "IicPsFindDevice hw (MuxAddr ! MuxIndex) DeviceId s = (St, s1)"
      by (cases "IicPsFindDevice hw (MuxAddr ! MuxIndex) DeviceId s")
    from IicPsFindDevice_frame [OF fd] "1.prems"(1) have wf1: "wf_state s1"
      by (auto intro: wf_state_same)
    show ?thesis
    proof (cases "St = XST_SUCCESS")
      case False
      from "1.IH"(2) [OF lt True fd [symmetric] False wf1 nxt] False fd lt True show ?thesis
        by (subst MuxLoop.simps) simp
    next
      case S: True
      have "ok_o found_ok (bind_o (MuxEepromLoop hw (MuxAddr ! MuxIndex) 0 s1) (\<lambda>(r, s2).
                 case r of
                   Return st \<Rightarrow> ret (Return st, s2)
                 | Continue u \<Rightarrow> MuxLoop hw DeviceId (MuxIndex + 1) s2))"
      proof (rule ok_o_bind, rule ok_o_mono [OF MuxEepromLoop_ok [OF wf1]])
        show "0 < length EepromAddr" by (simp add: EepromAddr_def)
      next
        fix x :: "unit flow \<times> 'a state"
        obtain r s2 where x: "x = (r, s2)" by (cases x)
        assume f: "found_ok x"
        show "ok_o found_ok (case x of (r, s2) \<Rightarrow>
                 case r of
                   Return st \<Rightarrow> ret (Return st, s2)
                 | Continue u \<Rightarrow> MuxLoop hw DeviceId (MuxIndex + 1) s2)"
        proof (cases r)
          case (Return st)
          with f show ?thesis unfolding x by (simp add: found_ok_def)
        next
          case (Continue u)
          from f have "wf_state s2" unfolding x by (simp add: found_ok_def)
          from "1.IH"(1) [OF lt True fd [symmetric] S Continue this nxt] Continue show ?thesis
            unfolding x by simp
        qed
      qed
      with S fd lt True show ?thesis
        by (subst MuxLoop.simps) simp
    qed
  qed
qed

lemma DirectLoop_ok:
  "wf_state s \<Longrightarrow> Index < length EepromAddr \<Longrightarrow> ok_o found_ok (DirectLoop hw DeviceId Index s)"
proof (induction hw DeviceId Index s rule: DirectLoop.induct)
  case (1 hw DeviceId Index s)
  show ?case
  proof (cases "EepromAddr ! Index \<noteq> 0")
    case False
    with "1.prems" show ?thesis
      by (subst DirectLoop.simps) (simp add: found_ok_def)
  next
    case True
    note nxt = EepromAddr_next [OF "1.prems"(2) True]
    have lt: "\<not> length EepromAddr \<le> Index" using "1.prems"(2) by simp
    obtain St s1 where fd: "IicPsFindDevice hw (EepromAddr ! Index) DeviceId s = (St, s1)"
      by (cases "IicPsFindDevice hw (EepromAddr ! Index) DeviceId s")
    from IicPsFindDevice_frame [OF fd] "1.prems"(1) have wf1: "wf_state s1"
      by (auto intro: wf_state_same)
    show ?thesis
    proof (cases "St = XST_SUCCESS")
      case False
      from "1.IH" [OF lt True fd [symmetric] False wf1 nxt] False fd lt True show ?thesis
        by (subst DirectLoop.simps) simp
    next
      case S: True
      with fd lt True wf1 show ?thesis
        by (subst DirectLoop.simps) (simp add: found_ok_def PAGE_SIZE_32_def wf_state_def)
    qed
  qed
qed

lemma FindEepromOnDevice_ok:
  assumes "wf_state s"
  shows "ok_o found_ok (FindEepromOnDevice hw DeviceId s)"
  unfolding FindEepromOnDevice_def
proof (rule ok_o_bind, rule ok_o_mono [OF MuxLoop_ok [OF assms]])
  show "0 < length MuxAddr" by (simp add: MuxAddr_def)
next
  fix x :: "unit flow \<times> 'a state"
  obtain r s1 where x: "x = (r, s1)" by (cases x)
  assume f: "found_ok x"
  show "ok_o found_ok (case x of (r, s1) \<Rightarrow>
       case r of
         Return st \<Rightarrow> ret (Return st, s1)
       | Continue u \<Rightarrow> DirectLoop hw DeviceId 0 s1)"
  proof (cases r)
    case (Return st)
    with f show ?thesis unfolding x by (simp add: found_ok_def)
  next
    case (Continue u)
    from f have "wf_state s1" unfolding x by (simp add: found_ok_def)
    from DirectLoop_ok [OF this, of 0 hw DeviceId] Continue show ?thesis
      unfolding x by (simp add: EepromAddr_def)
  qed
qed

text \<open>What the locator as a whole leaves.\<close>

lemma DeviceLoop_ok:
  "wf_state s \<Longrightarrow>
   ok_o (\<lambda>(Status, s'). wf_state s' \<and>
           (Status = XST_FAILURE \<or>
            Status = XST_SUCCESS \<and> (PageSize s' = 64 \<or> PageSize s' = 32 \<or> PageSize s' = 16)))
     (DeviceLoop hw DeviceId s)"
proof (induction hw DeviceId s rule: DeviceLoop.induct)
  case (1 hw DeviceId s)
  show ?case
  proof (cases "DeviceId < XPAR_XIICPS_NUM_INSTANCES hw")
    case False
    with "1.prems" show ?thesis
      by (subst DeviceLoop.simps) simp
  next
    case True
    show ?thesis
      apply (subst DeviceLoop.simps)
      apply (simp only: True if_True)
    proof (rule ok_o_bind, rule ok_o_mono [OF FindEepromOnDevice_ok [OF "1.prems"]])
      fix x :: "unit flow \<times> 'a state"
      obtain r s1 where x: "x = (r, s1)" by (cases x)
      assume f: "found_ok x"
      show "ok_o (\<lambda>(Status, s'). wf_state s' \<and>
           (Status = XST_FAILURE \<or>
            Status = XST_SUCCESS \<and> (PageSize s' = 64 \<or> PageSize s' = 32 \<or> PageSize s' = 16)))
         (case x of (r, s1) \<Rightarrow>
          case r of
            Return st \<Rightarrow> ret (st, s1)
          | Continue u \<Rightarrow> DeviceLoop hw (DeviceId + 1) s1)"
      proof (cases r)
        case (Return st)
        with f show ?thesis unfolding x by (simp add: found_ok_def)
      next
        case (Continue u)
        from f have "wf_state s1" unfolding x by (simp add: found_ok_def)
        from "1.IH" [OF True Continue this] Continue show ?thesis
          unfolding x by simp
      qed
    qed
  qed
qed

lemma page_size_cases:
  assumes "PageSize s = 16 \<or> PageSize s = 32 \<or> PageSize s = 64"
  shows "unat (PageSize s) \<le> 64"
    and "unat (ucast (of_nat (length (WritePhaseBytes p (PageSize s))) + PageSize s :: u32) :: u16) \<le> 66"
    and "unat (ucast (PageSize s) :: u16) = unat (PageSize s)"
  using assms by (auto simp: WritePhaseBytes_def PAGE_SIZE_16_def)

lemma WriteStart_wf:
  assumes "wf_state s" "PageSize s = 16 \<or> PageSize s = 32 \<or> PageSize s = 64"
  shows "wf_state (WriteStart p s)"
  using assms
  by (auto simp: wf_state_def WriteStart_def sizeof_AddressType_def MAX_SIZE_def
      WritePhaseBytes_def PAGE_SIZE_16_def)

lemma WritePage_ok:
  assumes wf: "wf_state s" and sz: "PageSize s = 16 \<or> PageSize s = 32 \<or> PageSize s = 64"
  shows "ok_o (\<lambda>(r, s'). wf_state s' \<and> PageSize s' = PageSize s) (WritePage hw p s)"
proof -
  note wfs = WriteStart_wf [OF wf sz]
  note ls = wf_state_lengths [OF wfs]
  have le: "unat (ucast (of_nat (length (WritePhaseBytes p (PageSize s))) + PageSize s :: u32) :: u16)
              \<le> length (WriteBuffer (WriteStart p s))"
    using page_size_cases(2) [OF sz] ls by simp
  have ps: "PageSize (WriteStart p s) = PageSize s" by (simp add: WriteStart_def)
  show ?thesis
    unfolding WritePage_char [OF wf page_size_cases(1) [OF sz]]
  proof (rule ok_o_bind, rule ok_o_mono [OF EepromWriteData_ok [OF le]])
    fix x :: "s32 \<times> 'a state"
    obtain St s3 where x: "x = (St, s3)" by (cases x)
    assume "case x of (Status, s') \<Rightarrow>
           (Status = XST_SUCCESS \<or> Status = XST_FAILURE) \<and>
           WriteBuffer s' = WriteBuffer (WriteStart p s) \<and> ReadBuffer s' = ReadBuffer (WriteStart p s) \<and>
           EepromSlvAddr s' = EepromSlvAddr (WriteStart p s) \<and> PageSize s' = PageSize (WriteStart p s) \<and>
           bus_log s' = bus_log (WriteStart p s) @
             [EvSend (take (unat (ucast (of_nat (length (WritePhaseBytes p (PageSize s))) + PageSize s :: u32) :: u16))
                        (WriteBuffer (WriteStart p s))) (EepromSlvAddr (WriteStart p s))]"
    with wfs ps have "wf_state s3 \<and> PageSize s3 = PageSize s"
      unfolding x by (auto intro: wf_state_same)
    then show "ok_o (\<lambda>(r, s'). wf_state s' \<and> PageSize s' = PageSize s)
       (case x of (Status, s3) \<Rightarrow>
          if Status \<noteq> XST_SUCCESS then ret (Return XST_FAILURE, s3) else ret (Continue (), s3))"
      unfolding x by simp
  qed
qed

lemma WritePhase_ok:
  "wf_state s \<Longrightarrow> PageSize s = 16 \<or> PageSize s = 32 \<or> PageSize s = 64 \<Longrightarrow>
   ok_o (\<lambda>(r, s'). wf_state s' \<and> PageSize s' = PageSize s) (WritePhase hw page_count s)"
proof (induction hw page_count s rule: WritePhase.induct)
  case (1 hw page_count s)
  show ?case
  proof (cases "page_count < 256")
    case False
    with "1.prems" show ?thesis
      by (subst WritePhase.simps) simp
  next
    case True
    show ?thesis
      apply (subst WritePhase.simps)
      apply (simp only: True if_True)
    proof (rule ok_o_bind, rule ok_o_mono [OF WritePage_ok [OF "1.prems"]])
      fix x :: "unit flow \<times> 'a state"
      obtain r s1 where x: "x = (r, s1)" by (cases x)
      assume "case x of (r, s') \<Rightarrow> wf_state s' \<and> PageSize s' = PageSize s"
      then have s1: "wf_state s1" "PageSize s1 = PageSize s" unfolding x by simp_all
      show "ok_o (\<lambda>(r, s'). wf_state s' \<and> PageSize s' = PageSize s)
         (case x of (r, s1) \<Rightarrow>
          case r of
            Return st \<Rightarrow> ret (Return st, s1)
          | Continue u \<Rightarrow> WritePhase hw (page_count + 1) s1)"
      proof (cases r)
        case (Return st)
        with s1 show ?thesis unfolding x by simp
      next
        case (Continue u)
        from "1.IH" [OF True Continue s1(1)] s1 "1.prems"(2) Continue show ?thesis
          unfolding x by simp
      qed
    qed
  qed
qed

lemma VerifyFF_total:
  "unat n \<le> length (ReadBuffer s) \<Longrightarrow> \<exists>b. VerifyFF n Index s = Inr b"
proof (induction n Index s rule: VerifyFF.induct)
  case (1 n Index s)
  show ?case
  proof (cases "Index < unat n")
    case False
    then show ?thesis by (subst VerifyFF.simps) auto
  next
    case True
    with "1.prems" have ld: "load_ReadBuffer Index s = Inr (ReadBuffer s ! Index)"
      by (simp add: load_ReadBuffer_def)
    show ?thesis
    proof (cases "ReadBuffer s ! Index \<noteq> 0xFF")
      case T: True
      with True ld show ?thesis by (subst VerifyFF.simps) auto
    next
      case False
      from "1.IH" [OF True ld False "1.prems"] True ld False show ?thesis
        by (subst VerifyFF.simps) auto
    qed
  qed
qed

lemma ReadPage_ok:
  assumes wf: "wf_state s" and sz: "PageSize s = 16 \<or> PageSize s = 32 \<or> PageSize s = 64"
  shows "ok_o (\<lambda>(r, s'). wf_state s' \<and> PageSize s' = PageSize s) (ReadPage hw p s)"
proof -
  note ls = wf_state_lengths [OF wf]
  have pre: "1 < length (WriteBuffer s)" "unat (ucast (PageSize s) :: u16) \<le> length (ReadBuffer s)"
    using ls page_size_cases(1,3) [OF sz] by simp_all
  show ?thesis
    unfolding ReadPage_def
  proof (rule ok_o_bind, rule ok_o_mono [OF EepromReadData_ok [OF pre]])
    fix x :: "s32 \<times> 'a state"
    obtain St s1 where x: "x = (St, s1)" by (cases x)
    assume "case x of (Status, s') \<Rightarrow>
           (Status = XST_SUCCESS \<or> Status = XST_FAILURE) \<and>
           length (WriteBuffer s') = length (WriteBuffer s) \<and>
           length (ReadBuffer s') = length (ReadBuffer s) \<and>
           EepromSlvAddr s' = EepromSlvAddr s \<and> PageSize s' = PageSize s"
    with wf have s1: "wf_state s1" "PageSize s1 = PageSize s"
      unfolding x by (simp_all add: wf_state_def)
    from wf_state_lengths [OF s1(1)] page_size_cases(1) [OF sz] s1(2)
    have "unat (PageSize s1) \<le> length (ReadBuffer s1)" by simp
    from VerifyFF_total [OF this, of 0] obtain b where v: "VerifyFF (PageSize s1) 0 s1 = Inr b" ..
    show "ok_o (\<lambda>(r, s'). wf_state s' \<and> PageSize s' = PageSize s)
       (case x of (Status, s1) \<Rightarrow>
          if Status \<noteq> XST_SUCCESS then ret (Return XST_FAILURE, s1)
          else
            bind_o (Some (VerifyFF (PageSize s1) 0 s1)) (\<lambda>mismatch.
              if mismatch then ret (Return XST_FAILURE, s1) else ret (Continue (), s1)))"
      unfolding x using s1 v by simp
  qed
qed

lemma ReadPhase_ok:
  "wf_state s \<Longrightarrow> PageSize s = 16 \<or> PageSize s = 32 \<or> PageSize s = 64 \<Longrightarrow>
   ok_o (\<lambda>(r, s'). wf_state s' \<and> PageSize s' = PageSize s) (ReadPhase hw page_count s)"
proof (induction hw page_count s rule: ReadPhase.induct)
  case (1 hw page_count s)
  show ?case
  proof (cases "page_count < 256")
    case False
    with "1.prems" show ?thesis
      by (subst ReadPhase.simps) simp
  next
    case True
    show ?thesis
      apply (subst ReadPhase.simps)
      apply (simp only: True if_True)
    proof (rule ok_o_bind, rule ok_o_mono [OF ReadPage_ok [OF "1.prems"]])
      fix x :: "unit flow \<times> 'a state"
      obtain r s1 where x: "x = (r, s1)" by (cases x)
      assume "case x of (r, s') \<Rightarrow> wf_state s' \<and> PageSize s' = PageSize s"
      then have s1: "wf_state s1" "PageSize s1 = PageSize s" unfolding x by simp_all
      show "ok_o (\<lambda>(r, s'). wf_state s' \<and> PageSize s' = PageSize s)
         (case x of (r, s1) \<Rightarrow>
          case r of
            Return st \<Rightarrow> ret (Return st, s1)
          | Continue u \<Rightarrow> ReadPhase hw (page_count + 1) s1)"
      proof (cases r)
        case (Return st)
        with s1 show ?thesis unfolding x by simp
      next
        case (Continue u)
        from "1.IH" [OF True Continue s1(1)] s1 "1.prems"(2) Continue show ?thesis
          unfolding x by simp
      qed
    qed
  qed
qed

lemma IicPsEepromPolledExample_ok:
  assumes wf: "wf_state s"
  shows "ok_o (\<lambda>(Status, s'). wf_state s') (IicPsEepromPolledExample hw s)"
  unfolding IicPsEepromPolledExample_def IicPsFindEeprom_def
proof (rule ok_o_bind, rule ok_o_mono [OF DeviceLoop_ok [OF wf]])
  fix x :: "s32 \<times> 'a state"
  obtain St s1 where x: "x = (St, s1)" by (cases x)
  assume "case x of (Status, s') \<Rightarrow> wf_state s' \<and>
           (Status = XST_FAILURE \<or>
            Status = XST_SUCCESS \<and> (PageSize s' = 64 \<or> PageSize s' = 32 \<or> PageSize s' = 16))"
  then have s1: "wf_state s1"
    and sz: "St = XST_SUCCESS \<Longrightarrow> PageSize s1 = 16 \<or> PageSize s1 = 32 \<or> PageSize s1 = 64"
    unfolding x by auto
  show "ok_o (\<lambda>(Status, s'). wf_state s')
     (case x of (Status, s1) \<Rightarrow>
       if Status \<noteq> XST_SUCCESS then ret (XST_FAILURE, s1)
       else
         bind_o (WritePhase hw 0 s1) (\<lambda>(r, s2).
           case r of
             Return st \<Rightarrow> ret (st, s2)
           | Continue u \<Rightarrow>
               bind_o (ReadPhase hw 0 s2) (\<lambda>(r, s3).
                 case r of
                   Return st \<Rightarrow> ret (st, s3)
                 | Continue u \<Rightarrow> ret (XST_SUCCESS, s3))))"
  proof (cases "St \<noteq> XST_SUCCESS")
    case True
    with s1 show ?thesis unfolding x by simp
  next
    case False
    then have sz1: "PageSize s1 = 16 \<or> PageSize s1 = 32 \<or> PageSize s1 = 64" using sz by simp
    have "ok_o (\<lambda>(Status, s'). wf_state s')
         (bind_o (WritePhase hw 0 s1) (\<lambda>(r, s2).
           case r of
             Return st \<Rightarrow> ret (st, s2)
           | Continue u \<Rightarrow>
               bind_o (ReadPhase hw 0 s2) (\<lambda>(r, s3).
                 case r of
                   Return st \<Rightarrow> ret (st, s3)
                 | Continue u \<Rightarrow> ret (XST_SUCCESS, s3))))"
    proof (rule ok_o_bind, rule ok_o_mono [OF WritePhase_ok [OF s1 sz1]])
      fix y :: "unit flow \<times> 'a state"
      obtain r s2 where y: "y = (r, s2)" by (cases y)
      assume "case y of (r, s') \<Rightarrow> wf_state s' \<and> PageSize s' = PageSize s1"
      then have s2: "wf_state s2" "PageSize s2 = 16 \<or> PageSize s2 = 32 \<or> PageSize s2 = 64"
        unfolding y using sz1 by simp_all
      show "ok_o (\<lambda>(Status, s'). wf_state s')
         (case y of (r, s2) \<Rightarrow>
           case r of
             Return st \<Rightarrow> ret (st, s2)
           | Continue u \<Rightarrow>
               bind_o (ReadPhase hw 0 s2) (\<lambda>(r, s3).
                 case r of
                   Return st \<Rightarrow> ret (st, s3)
                 | Continue u \<Rightarrow> ret (XST_SUCCESS, s3)))"
      proof (cases r)
        case (Return st)
        with s2 show ?thesis unfolding y by simp
      next
        case (Continue u)
        have "ok_o (\<lambda>(Status, s'). wf_state s')
               (bind_o (ReadPhase hw 0 s2) (\<lambda>(r, s3).
                 case r of
                   Return st \<Rightarrow> ret (st, s3)
                 | Continue u \<Rightarrow> ret (XST_SUCCESS, s3)))"
          by (rule ok_o_bind, rule ok_o_mono [OF ReadPhase_ok [OF s2]]) (auto split: flow.splits)
        with Continue show ?thesis unfolding y by simp
      qed
    qed
    with False show ?thesis unfolding x by simp
  qed
qed

lemma ChannelLoop_0: "ChannelLoop hw M A 0 s = ret (Continue (), s)"
  by (subst ChannelLoop.simps) simp

lemma ChannelLoop_step:
  "0 < c \<Longrightarrow> ChannelLoop hw M A c s =
        bind_o (MuxInitChannel hw M c s) (\<lambda>(Status, s1).
          if Status \<noteq> XST_SUCCESS then ret (Return XST_FAILURE, s1)
          else
            (case FindEepromDevice hw A s1 of
               (Status, s2) \<Rightarrow>
                 if Status = XST_SUCCESS then
                   bind_o (FindEepromPageSize hw A (s2\<lparr>EepromSlvAddr := A\<rparr>)) (\<lambda>(Status, s3).
                     if Status \<noteq> XST_SUCCESS then ret (Return XST_FAILURE, s3)
                     else ret (Return XST_SUCCESS, s3))
                 else ChannelLoop hw M A (drop_bit 1 c) s2))"
  by (subst ChannelLoop.simps) simp

lemma halves: "drop_bit 1 (4 :: u8) = 2" "drop_bit 1 (2 :: u8) = 1" "drop_bit 1 (1 :: u8) = 0"
  by simp_all

lemma ChannelLoop_unroll:
  "ChannelLoop hw M A MAX_CHANNELS s =
     (let try = (\<lambda>c k s.
            bind_o (MuxInitChannel hw M c s) (\<lambda>(Status, s1).
              if Status \<noteq> XST_SUCCESS then ret (Return XST_FAILURE, s1)
              else
                (case FindEepromDevice hw A s1 of
                   (Status, s2) \<Rightarrow>
                     if Status = XST_SUCCESS then
                       bind_o (FindEepromPageSize hw A (s2\<lparr>EepromSlvAddr := A\<rparr>)) (\<lambda>(Status, s3).
                         if Status \<noteq> XST_SUCCESS then ret (Return XST_FAILURE, s3)
                         else ret (Return XST_SUCCESS, s3))
                     else k s2)))
      in try 4 (try 2 (try 1 (\<lambda>s. ret (Continue (), s)))) s)"
proof -
  have p: "(0 :: u8) < 4" "(0 :: u8) < 2" "(0 :: u8) < 1" by simp_all
  show ?thesis
    unfolding MAX_CHANNELS_def Let_def
    by (simp only: ChannelLoop_step [OF p(1)] ChannelLoop_step [OF p(2)] ChannelLoop_step [OF p(3)]
        halves ChannelLoop_0)
qed

lemma index_facts:
  "(0::nat) + 1 = 1" "(1::nat) + 1 = 2"
  "EepromAddr ! 0 = 0x54" "EepromAddr ! 1 = 0x55" "EepromAddr ! 2 = 0" "length EepromAddr = 3"
  "MuxAddr ! 0 = MUX_ADDR" "MuxAddr ! 1 = 0" "length MuxAddr = 2"
  by (simp_all add: EepromAddr_def MuxAddr_def MUX_ADDR_def)

lemma MuxEepromLoop_unroll:
  "MuxEepromLoop hw M 0 s =
     bind_o (ChannelLoop hw M 0x54 MAX_CHANNELS s) (\<lambda>(r, s1).
       case r of
         Return st \<Rightarrow> ret (Return st, s1)
       | Continue u \<Rightarrow>
           bind_o (ChannelLoop hw M 0x55 MAX_CHANNELS s1) (\<lambda>(r, s2).
             case r of
               Return st \<Rightarrow> ret (Return st, s2)
             | Continue u \<Rightarrow> ret (Continue (), s2)))"
proof -
  have l2: "MuxEepromLoop hw M 2 t = ret (Continue (), t)" for t
    by (subst MuxEepromLoop.simps, unfold index_facts) simp
  have l1: "MuxEepromLoop hw M 1 t =
           bind_o (ChannelLoop hw M 0x55 MAX_CHANNELS t) (\<lambda>(r, s2).
             case r of
               Return st \<Rightarrow> ret (Return st, s2)
             | Continue u \<Rightarrow> ret (Continue (), s2))" for t
    by (subst MuxEepromLoop.simps, unfold index_facts l2) simp
  show ?thesis
    by (subst MuxEepromLoop.simps, unfold index_facts l1) simp
qed

lemma MuxLoop_unroll:
  "MuxLoop hw DeviceId 0 s =
     (case IicPsFindDevice hw MUX_ADDR DeviceId s of
        (Status, s1) \<Rightarrow>
          if Status = XST_SUCCESS then
            bind_o (MuxEepromLoop hw MUX_ADDR 0 s1) (\<lambda>(r, s2).
              case r of
                Return st \<Rightarrow> ret (Return st, s2)
              | Continue u \<Rightarrow> ret (Continue (), s2))
          else ret (Continue (), s1))"
proof -
  have l1: "MuxLoop hw DeviceId 1 t = ret (Continue (), t)" for t
    by (subst MuxLoop.simps, unfold index_facts) simp
  show ?thesis
    by (subst MuxLoop.simps, unfold index_facts l1) (simp add: MUX_ADDR_def)
qed

lemma DirectLoop_unroll:
  "DirectLoop hw DeviceId 0 s =
     (case IicPsFindDevice hw 0x54 DeviceId s of
        (Status, s1) \<Rightarrow>
          if Status = XST_SUCCESS then
            ret (Return XST_SUCCESS, s1\<lparr>EepromSlvAddr := 0x54, PageSize := PAGE_SIZE_32\<rparr>)
          else
            (case IicPsFindDevice hw 0x55 DeviceId s1 of
               (Status, s2) \<Rightarrow>
                 if Status = XST_SUCCESS then
                   ret (Return XST_SUCCESS, s2\<lparr>EepromSlvAddr := 0x55, PageSize := PAGE_SIZE_32\<rparr>)
                 else ret (Continue (), s2)))"
proof -
  have l2: "DirectLoop hw DeviceId 2 t = ret (Continue (), t)" for t
    by (subst DirectLoop.simps, unfold index_facts) simp
  have l1: "DirectLoop hw DeviceId 1 t =
            (case IicPsFindDevice hw 0x55 DeviceId t of
               (Status, s2) \<Rightarrow>
                 if Status = XST_SUCCESS then
                   ret (Return XST_SUCCESS, s2\<lparr>EepromSlvAddr := 0x55, PageSize := PAGE_SIZE_32\<rparr>)
                 else ret (Continue (), s2))" for t
    by (subst DirectLoop.simps, unfold index_facts l2) simp
  show ?thesis
    by (subst DirectLoop.simps, unfold index_facts l1) simp
qed

lemma DeviceLoop_step:
  "DeviceId < XPAR_XIICPS_NUM_INSTANCES hw \<Longrightarrow>
   DeviceLoop hw DeviceId s =
        bind_o (FindEepromOnDevice hw DeviceId s) (\<lambda>(r, s1).
          case r of
            Return st \<Rightarrow> ret (st, s1)
          | Continue u \<Rightarrow> DeviceLoop hw (DeviceId + 1) s1)"
  by (subst DeviceLoop.simps) simp

lemma DeviceLoop_end:
  "\<not> DeviceId < XPAR_XIICPS_NUM_INSTANCES hw \<Longrightarrow> DeviceLoop hw DeviceId s = ret (XST_FAILURE, s)"
  by (subst DeviceLoop.simps) simp

lemma echo_board_fields [simp]:
  "responds (echo_board r) = r"
  "mux_ok (echo_board r) = True"
  "eeprom_ok (echo_board r) = True"
  "eeprom_write (echo_board r) bytes page = (if length bytes \<le> 2 then page else drop 2 bytes)"
  "eeprom_read (echo_board r) n page = take n page"
  by (simp_all add: echo_board_def)

lemma sim_PageSizeTrial_echo:
  assumes wf: "wf_state s" and a: "EepromSlvAddr s \<noteq> MUX_ADDR"
  shows "PageSizeTrial (sim_platform (echo_board r)) 0 s =
           Some (Inr (Return XST_SUCCESS,
             s\<lparr>WriteBuffer := [0, 0] @ TrialPage 0, ReadBuffer := TrialPage 0, PageSize := 64,
               world := (world s)\<lparr>sim_page := TrialPage 0\<rparr>,
               bus_log := bus_log s @ [EvSend ([0, 0] @ TrialPage 0) (EepromSlvAddr s),
                                       EvSend [0, 0] (EepromSlvAddr s),
                                       EvRecv 64 (EepromSlvAddr s)]\<rparr>))"
proof -
  have p0: "ps ! 0 = 64" "unat (ps ! 0) = 64" by (simp_all add: ps_def)
  have ta: "TrialAddress 0 = [0, 0]" by (simp add: TrialAddress_def ps_def PAGE_SIZE_16_def)
  have tl: "length (TrialPage 0) = 64" by (simp add: TrialPage_def ps_def)
  note ls = wf_state_lengths [OF wf]
  have ts: "TrialStart 0 s = s\<lparr>WriteBuffer := [0, 0] @ TrialPage 0, ReadBuffer := replicate 64 0, PageSize := 64\<rparr>"
    using ls by (simp add: TrialStart_def ta tl p0)
  have rb: "recv_into 64 (TrialPage 0) (replicate 64 0) = TrialPage 0"
    by (simp add: recv_into_def p0)
  have tk: "take 64 (TrialPage 0) = TrialPage 0"
    by (simp add: p0)
  have "0 < (3::nat)" by simp
  from sim_PageSizeTrial [OF wf this a, of "echo_board r"]
  have "PageSizeTrial (sim_platform (echo_board r)) 0 s =
           Some (Inr (Return XST_SUCCESS,
             s\<lparr>WriteBuffer := 0 # 0 # TrialPage 0, PageSize := 64, ReadBuffer := TrialPage 0,
               world := (world s)\<lparr>sim_page := TrialPage 0\<rparr>,
               bus_log := bus_log s @ [EvSend (0 # 0 # TrialPage 0) (EepromSlvAddr s),
                                       EvSend [0, 0] (EepromSlvAddr s),
                                       EvRecv 64 (EepromSlvAddr s)]\<rparr>))"
    by (simp add: Let_def ta p0 ts rb tk)
  moreover have
    "s\<lparr>WriteBuffer := 0 # 0 # TrialPage 0, PageSize := 64, ReadBuffer := TrialPage 0,
               world := (world s)\<lparr>sim_page := TrialPage 0\<rparr>,
               bus_log := bus_log s @ [EvSend (0 # 0 # TrialPage 0) (EepromSlvAddr s),
                                       EvSend [0, 0] (EepromSlvAddr s),
                                       EvRecv 64 (EepromSlvAddr s)]\<rparr> =
     s\<lparr>WriteBuffer := [0, 0] @ TrialPage 0, ReadBuffer := TrialPage 0, PageSize := 64,
               world := (world s)\<lparr>sim_page := TrialPage 0\<rparr>,
               bus_log := bus_log s @ [EvSend ([0, 0] @ TrialPage 0) (EepromSlvAddr s),
                                       EvSend [0, 0] (EepromSlvAddr s),
                                       EvRecv 64 (EepromSlvAddr s)]\<rparr>"
    by (intro state.equality) simp_all
  ultimately show ?thesis by (simp only:)
qed

lemma sim_detector_echo:
  assumes wf: "wf_state s" and a: "EepromSlvAddr s \<noteq> MUX_ADDR"
  shows "FindEepromPageSize (sim_platform (echo_board r)) x s =
           Some (Inr (XST_SUCCESS,
             s\<lparr>WriteBuffer := [0, 0] @ TrialPage 0, ReadBuffer := TrialPage 0, PageSize := 64,
               world := (world s)\<lparr>sim_page := TrialPage 0\<rparr>,
               bus_log := bus_log s @ [EvSend ([0, 0] @ TrialPage 0) (EepromSlvAddr s),
                                       EvSend [0, 0] (EepromSlvAddr s),
                                       EvRecv 64 (EepromSlvAddr s)]\<rparr>))"
  unfolding FindEepromPageSize_unfold sim_PageSizeTrial_echo [OF wf a]
  by (simp add: ret_def)

lemma candidate_not_mux:
  "(0x54 :: u16) \<noteq> MUX_ADDR" "(0x55 :: u16) \<noteq> MUX_ADDR"
  "MUX_ADDR \<noteq> (0x54 :: u16)" "MUX_ADDR \<noteq> (0x55 :: u16)"
  by (simp_all add: MUX_ADDR_def)

lemmas locator_unroll =
  IicPsFindEeprom_def DeviceLoop_step DeviceLoop_end FindEepromOnDevice_def
  MuxLoop_unroll MuxEepromLoop_unroll ChannelLoop_unroll DirectLoop_unroll Let_def
  sim_MuxInitChannel sim_FindEepromDevice sim_IicPsFindDevice sim_detector_echo
  candidate_not_mux PAGE_SIZE_32_def





lemma sim_MuxLoop_direct:
  "MuxLoop (sim_platform direct_board) 0 0 sim_init =
     Some (Inr (Continue (),
       sim_init\<lparr>bus_log := [EvEnableSlaveMonitor MUX_ADDR, EvDisableSlaveMonitor]\<rparr>))"
proof -
  have "MuxLoop (sim_platform direct_board) 0 0 sim_init =
     Some (Inr (Continue (),
       sim_init\<lparr>world := \<lparr>sim_target = 0, sim_channel = 0, sim_page = []\<rparr>,
                bus_log := [EvEnableSlaveMonitor MUX_ADDR, EvDisableSlaveMonitor]\<rparr>))"
    by (simp add: locator_unroll direct_board_def)
  then show ?thesis
    by (simp add: sim_init_def)
qed

lemma sim_direct_probes:
  "IicPsFindDevice (sim_platform direct_board) 0x54 0
       (sim_init\<lparr>bus_log := [EvEnableSlaveMonitor MUX_ADDR, EvDisableSlaveMonitor]\<rparr>) =
     (XST_FAILURE,
      sim_init\<lparr>bus_log := [EvEnableSlaveMonitor MUX_ADDR, EvDisableSlaveMonitor,
                            EvEnableSlaveMonitor 0x54, EvDisableSlaveMonitor]\<rparr>)"
  "IicPsFindDevice (sim_platform direct_board) 0x55 0
       (sim_init\<lparr>bus_log := [EvEnableSlaveMonitor MUX_ADDR, EvDisableSlaveMonitor,
                             EvEnableSlaveMonitor 0x54, EvDisableSlaveMonitor]\<rparr>) =
     (XST_SUCCESS,
      sim_init\<lparr>bus_log := [EvEnableSlaveMonitor MUX_ADDR, EvDisableSlaveMonitor,
                            EvEnableSlaveMonitor 0x54, EvDisableSlaveMonitor,
                            EvEnableSlaveMonitor 0x55, EvDisableSlaveMonitor, EvWriteIsr 0x200]\<rparr>)"
  by (simp_all add: sim_IicPsFindDevice sim_FindEepromDevice direct_board_def sim_init_def)

lemma sim_MuxLoop_stuck:
  "MuxLoop (sim_platform stuck_mux_board) 0 0 sim_init =
     Some (Inr (Return XST_FAILURE,
       sim_init\<lparr>bus_log := [EvEnableSlaveMonitor MUX_ADDR, EvDisableSlaveMonitor, EvWriteIsr 0x200,
                             EvSend [4] MUX_ADDR]\<rparr>))"
proof -
  have "MuxLoop (sim_platform stuck_mux_board) 0 0 sim_init =
     Some (Inr (Return XST_FAILURE,
       sim_init\<lparr>world := \<lparr>sim_target = 0, sim_channel = 0, sim_page = []\<rparr>,
                bus_log := [EvEnableSlaveMonitor MUX_ADDR, EvDisableSlaveMonitor, EvWriteIsr 0x200,
                            EvSend [4] MUX_ADDR]\<rparr>))"
    by (simp add: locator_unroll stuck_mux_board_def echo_board_def)
  then show ?thesis
    by (simp add: sim_init_def)
qed

lemma sim_locator_stuck:
  "IicPsFindEeprom (sim_platform stuck_mux_board) sim_init =
     Some (Inr (XST_FAILURE,
       sim_init\<lparr>bus_log := [EvEnableSlaveMonitor MUX_ADDR, EvDisableSlaveMonitor, EvWriteIsr 0x200,
                             EvSend [4] MUX_ADDR]\<rparr>))"
proof -
  have "(0 :: u16) < XPAR_XIICPS_NUM_INSTANCES (sim_platform stuck_mux_board)" by simp
  then show ?thesis
    by (simp only: IicPsFindEeprom_def DeviceLoop_step FindEepromOnDevice_def sim_MuxLoop_stuck
        bind_o_simps prod.case flow.case ret_def)
qed

lemma sim_direct_probe_stuck:
  "fst (IicPsFindDevice (sim_platform stuck_mux_board) 0x54 0
       (sim_init\<lparr>bus_log := [EvEnableSlaveMonitor MUX_ADDR, EvDisableSlaveMonitor, EvWriteIsr 0x200,
                             EvSend [4] MUX_ADDR]\<rparr>)) = XST_SUCCESS"
  by (simp add: sim_IicPsFindDevice sim_FindEepromDevice stuck_mux_board_def echo_board_def)

section \<open>The claims\<close>

text \<open>
  Claim C1 says that a run of the detector in which every transfer succeeds and no
  candidate size reads back as written returns failure. On the board whose EEPROM
  reads as zeros every transfer succeeds and no candidate reads back as written, and
  the detector returns \<open>XST_SUCCESS\<close> with page size 16: after the third trial it
  returns \<open>Status\<close>, which then holds the status of the last read.
\<close>

theorem detector_blank_eeprom:
  "result_status (FindEepromPageSize (sim_platform blank_board) 0x54
       (sim_init\<lparr>EepromSlvAddr := 0x54\<rparr>)) = Some XST_SUCCESS \<and>
   map_option (\<lambda>s'. (PageSize s', take 16 (ReadBuffer s')))
     (result_state (FindEepromPageSize (sim_platform blank_board) 0x54
       (sim_init\<lparr>EepromSlvAddr := 0x54\<rparr>)))
     = Some (16, replicate 16 0)"
proof -
  have "\<exists>s'. FindEepromPageSize (sim_platform blank_board) 0x54 (sim_init\<lparr>EepromSlvAddr := 0x54\<rparr>)
            = Some (Inr (XST_SUCCESS, s')) \<and>
           PageSize s' = 16 \<and> take 16 (ReadBuffer s') = replicate 16 0"
    by (rule sim_detector_constant) (simp_all add: MUX_ADDR_def)
  then show ?thesis
    by (auto simp: result_status_def result_state_def)
qed

text \<open>
  Claim C5. Whenever a page read encodes the EEPROM target address: if the page size is
  16, the first byte of the write buffer is the low byte of the address, and the first
  transfer of the read sends that one byte to the EEPROM; for every other page size
  (32 and 64 among them), the first two bytes are \<open>Address >> 8\<close> and
  \<open>Address & 0xFF\<close> in that order, and the first transfer sends these two bytes.
\<close>

theorem read_address_encoding:
  assumes "EepromReadData hw ByteCount Address s = Some (Inr (Status, s'))"
  shows "if PageSize s = 16
         then WriteBuffer s' ! 0 = ucast (Address AND 0xFF) \<and>
              take 1 (drop (length (bus_log s)) (bus_log s'))
                = [EvSend [ucast (Address AND 0xFF)] (EepromSlvAddr s)]
         else WriteBuffer s' ! 0 = ucast (drop_bit 8 Address) \<and>
              WriteBuffer s' ! 1 = ucast (Address AND 0xFF) \<and>
              take 1 (drop (length (bus_log s)) (bus_log s'))
                = [EvSend [ucast (drop_bit 8 Address), ucast (Address AND 0xFF)] (EepromSlvAddr s)]"
proof -
  from EepromReadData_frame [OF assms] obtain WrBfrOffset s1 evs where
    enc: "EncodeAddress (PageSize s) Address s = Inr (WrBfrOffset, s1)" and
    wb: "WriteBuffer s' = WriteBuffer s1" and
    lg: "bus_log s' = bus_log s @
               EvSend (take (unat (ucast WrBfrOffset :: u16)) (WriteBuffer s1)) (EepromSlvAddr s) # evs"
    by blast
  note e = EncodeAddress_eq_Inr [OF enc]
  show ?thesis
  proof (cases "PageSize s = 16")
    case True
    with e have "WrBfrOffset = 1" "0 < length (WriteBuffer s)"
      "s1 = s\<lparr>WriteBuffer := (WriteBuffer s)[0 := ucast Address]\<rparr>"
      by (simp_all add: PAGE_SIZE_16_def)
    with wb lg True show ?thesis
      by (simp add: ucast_low_byte take_1_update)
  next
    case False
    with e have "WrBfrOffset = 2" "1 < length (WriteBuffer s)"
      "s1 = s\<lparr>WriteBuffer := (WriteBuffer s)[0 := ucast (drop_bit 8 Address), 1 := ucast Address]\<rparr>"
      by (simp_all add: PAGE_SIZE_16_def)
    moreover from this have "0 < length (WriteBuffer s)" by linarith
    ultimately show ?thesis using wb lg False
      by (simp add: ucast_low_byte take_2_update nth_update2)
  qed
qed

theorem read_address_encoding_witness:
  "result_status (EepromReadData (sim_platform blank_board) 16 0x1234
       (sim_init\<lparr>EepromSlvAddr := 0x54, PageSize := 16\<rparr>)) = Some XST_SUCCESS \<and>
   map_option (\<lambda>s'. (WriteBuffer s' ! 0, take 1 (bus_log s')))
     (result_state (EepromReadData (sim_platform blank_board) 16 0x1234
       (sim_init\<lparr>EepromSlvAddr := 0x54, PageSize := 16\<rparr>)))
     = Some (0x34, [EvSend [0x34] 0x54]) \<and>
   result_status (EepromReadData (sim_platform blank_board) 32 0x1234
       (sim_init\<lparr>EepromSlvAddr := 0x54, PageSize := 32\<rparr>)) = Some XST_SUCCESS \<and>
   map_option (\<lambda>s'. (WriteBuffer s' ! 0, WriteBuffer s' ! 1, take 1 (bus_log s')))
     (result_state (EepromReadData (sim_platform blank_board) 32 0x1234
       (sim_init\<lparr>EepromSlvAddr := 0x54, PageSize := 32\<rparr>)))
     = Some (0x12, 0x34, [EvSend [0x12, 0x34] 0x54])"
proof -
  let ?hw = "sim_platform blank_board"
  let ?s16 = "sim_init\<lparr>EepromSlvAddr := 0x54, PageSize := 16\<rparr>"
  let ?s32 = "sim_init\<lparr>EepromSlvAddr := 0x54, PageSize := 32\<rparr>"
  obtain t16 where r16: "EepromReadData ?hw 16 0x1234 ?s16 = Some (Inr (XST_SUCCESS, t16))"
    by (simp add: sim_EepromReadData MUX_ADDR_def Let_def)
  obtain t32 where r32: "EepromReadData ?hw 32 0x1234 ?s32 = Some (Inr (XST_SUCCESS, t32))"
    by (simp add: sim_EepromReadData MUX_ADDR_def Let_def)
  have "(0x1234 :: u16) AND 0xFF = 0x34" "drop_bit 8 (0x1234 :: u16) = 0x12"
    by simp_all
  with read_address_encoding [OF r16] read_address_encoding [OF r32]
  show ?thesis
    by (simp add: r16 r32 result_status_def result_state_def)
qed

text \<open>
  Claim C2 says that the write phase of the self-test targets address
  \<open>page_count * PageSize\<close> for every page, with one low address byte when the page
  size is 16. With page size 16 the write phase takes the address byte from the local
  \<open>Address\<close>, which stays \<open>EEPROM_START_ADDRESS\<close>: page 1 is sent to address 0, while
  the read phase reads page 1 from address \<open>0x10\<close>.
\<close>

theorem write_phase_page_16_address:
  "map_option bus_log (result_state (WritePage (sim_platform blank_board) 1
       (sim_init\<lparr>EepromSlvAddr := 0x54, PageSize := 16\<rparr>)))
     = Some [EvSend (0 # replicate 16 0xFF) 0x54] \<and>
   map_option bus_log (result_state (ReadPage (sim_platform blank_board) 1
       (sim_init\<lparr>EepromSlvAddr := 0x54, PageSize := 16\<rparr>)))
     = Some [EvSend [0x10] 0x54, EvRecv 16 0x54]"
proof -
  let ?hw = "sim_platform blank_board"
  let ?s = "sim_init\<lparr>EepromSlvAddr := 0x54, PageSize := 16\<rparr>"
  have wf: "wf_state ?s" by simp
  have bytes: "WritePhaseBytes 1 16 = [0]" "WritePhaseBytes (Suc 0) 16 = [0]"
    by (simp_all add: WritePhaseBytes_def PAGE_SIZE_16_def EEPROM_START_ADDRESS_def)
  have tk: "take 17 (WriteBuffer (WriteStart 1 ?s)) = 0 # replicate 16 0xFF"
    by (simp add: WriteStart_def bytes)
  have len: "length (WriteBuffer (WriteStart 1 ?s)) = 66"
    by (simp add: WriteStart_def bytes)
  have wr: "map_option bus_log (result_state (WritePage ?hw 1 ?s)) = Some [EvSend (0 # replicate 16 0xFF) 0x54]"
    apply (subst WritePage_char [OF wf])
     apply simp
    apply (subst sim_EepromWriteData)
       apply (simp_all add: bytes len MUX_ADDR_def tk result_state_def ret_def WriteStart_def)
    done
  have rd: "EepromReadData ?hw (ucast (PageSize ?s)) (ucast (of_nat 1 * PageSize ?s)) ?s =
      Some (Inr (XST_SUCCESS,
         ?s\<lparr>WriteBuffer := [0x10] @ drop 1 (WriteBuffer ?s),
            ReadBuffer := recv_into 16 (replicate 16 0) (ReadBuffer ?s),
            world := (world ?s)\<lparr>sim_page := sim_page (world ?s)\<rparr>,
            bus_log := bus_log ?s @ [EvSend [0x10] 0x54, EvRecv 16 0x54]\<rparr>))"
    by (subst sim_EepromReadData) (simp_all add: MUX_ADDR_def Let_def)
  have vf: "VerifyFF 16 0 t = Inr True" if "ReadBuffer t = recv_into 16 (replicate 16 0) (ReadBuffer ?s)" for t :: "sim state"
    using that by (subst VerifyFF.simps) (simp add: load_ReadBuffer_def recv_into_def nth_append)
  have "map_option bus_log (result_state (ReadPage ?hw 1 ?s)) = Some [EvSend [0x10] 0x54, EvRecv 16 0x54]"
    unfolding ReadPage_def rd bind_o_simps prod.case
    by (simp add: vf result_state_def ret_def)
  with wr show ?thesis by simp
qed

text \<open>
  Claim C4 says that the detector accepts a candidate, returning success with no
  further trial, exactly when every byte of the trial reads back as written. That
  holds of the trials at 64 and 32 bytes; at 16 bytes it fails. On the board whose
  EEPROM reads as \<open>0xFF\<close> the third trial reads back sixteen bytes \<open>0xFF\<close>, none of
  them the byte written, and the detector returns \<open>XST_SUCCESS\<close> with page size 16.
\<close>

theorem detector_erased_eeprom:
  "result_status (FindEepromPageSize (sim_platform erased_board) 0x54
       (sim_init\<lparr>EepromSlvAddr := 0x54\<rparr>)) = Some XST_SUCCESS \<and>
   map_option (\<lambda>s'. (PageSize s', take 16 (ReadBuffer s')))
     (result_state (FindEepromPageSize (sim_platform erased_board) 0x54
       (sim_init\<lparr>EepromSlvAddr := 0x54\<rparr>)))
     = Some (16, replicate 16 0xFF) \<and>
   TrialPage 2 \<noteq> replicate 16 0xFF"
proof -
  have "\<exists>s'. FindEepromPageSize (sim_platform erased_board) 0x54 (sim_init\<lparr>EepromSlvAddr := 0x54\<rparr>)
            = Some (Inr (XST_SUCCESS, s')) \<and>
           PageSize s' = 16 \<and> take 16 (ReadBuffer s') = replicate 16 0xFF"
    by (rule sim_detector_constant) (simp_all add: MUX_ADDR_def)
  moreover have "TrialPage 2 \<noteq> replicate 16 0xFF"
    using TrialPage_not_constant [of 2 "0xFF"] by (simp add: ps_def)
  ultimately show ?thesis
    by (auto simp: result_status_def result_state_def)
qed




text \<open>
  Claim C9. The two shared buffers are declared as
  \<^verbatim>\<open>WriteBuffer[sizeof(AddressType) + MAX_SIZE]\<close> (2 + 64 bytes) and
  \<^verbatim>\<open>ReadBuffer[MAX_SIZE]\<close> (64 bytes); \<open>wf_state\<close> says that the buffers have these
  capacities. In the model every store into a buffer, and every transfer that takes
  bytes from or puts bytes into a buffer, at an index past the capacity ends the run
  with \<open>OutOfBounds\<close>. No run does so: not the whole self-test (locator, detector,
  write phase and read phase), not the page-size detector on its own, not the transfer
  functions for a byte count up to the capacity, and, for a page size of 16, 32 or 64,
  neither the write phase nor the read phase from any page on.
\<close>

theorem buffer_accesses_within_capacity:
  assumes "wf_state s"
  shows "IicPsEepromPolledExample hw s \<noteq> Some (Inl OutOfBounds) \<and>
         FindEepromPageSize hw a s \<noteq> Some (Inl OutOfBounds) \<and>
         (unat n \<le> sizeof_AddressType + MAX_SIZE \<longrightarrow>
            EepromWriteData hw n s \<noteq> Some (Inl OutOfBounds)) \<and>
         (unat m \<le> MAX_SIZE \<longrightarrow>
            EepromReadData hw m Address s \<noteq> Some (Inl OutOfBounds)) \<and>
         (PageSize s = 16 \<or> PageSize s = 32 \<or> PageSize s = 64 \<longrightarrow>
            WritePhase hw page_count s \<noteq> Some (Inl OutOfBounds) \<and>
            ReadPhase hw page_count s \<noteq> Some (Inl OutOfBounds))"
proof (intro conjI impI)
  note ls = wf_state_lengths [OF assms]
  show "IicPsEepromPolledExample hw s \<noteq> Some (Inl OutOfBounds)"
    by (rule ok_oD(1) [OF IicPsEepromPolledExample_ok [OF assms]])
  show "FindEepromPageSize hw a s \<noteq> Some (Inl OutOfBounds)"
    by (rule ok_oD(1) [OF FindEepromPageSize_ok [OF assms]])
  show "EepromWriteData hw n s \<noteq> Some (Inl OutOfBounds)"
    if "unat n \<le> sizeof_AddressType + MAX_SIZE"
    using that assms by (intro EepromWriteData_no_fault) (simp add: wf_state_def)
  show "EepromReadData hw m Address s \<noteq> Some (Inl OutOfBounds)"
    if "unat m \<le> MAX_SIZE"
    using that ls assms
    by (intro ok_oD(1) [OF EepromReadData_ok]) (simp_all add: wf_state_def)
  show "WritePhase hw page_count s \<noteq> Some (Inl OutOfBounds)"
    if "PageSize s = 16 \<or> PageSize s = 32 \<or> PageSize s = 64"
    by (rule ok_oD(1) [OF WritePhase_ok [OF assms that]])
  show "ReadPhase hw page_count s \<noteq> Some (Inl OutOfBounds)"
    if "PageSize s = 16 \<or> PageSize s = 32 \<or> PageSize s = 64"
    by (rule ok_oD(1) [OF ReadPhase_ok [OF assms that]])
qed

theorem buffer_accesses_within_capacity_witness:
  "wf_state (sim_init\<lparr>PageSize := 16\<rparr>) \<and>
   IicPsEepromPolledExample (sim_platform blank_board) (sim_init\<lparr>PageSize := 16\<rparr>) \<noteq> Some (Inl OutOfBounds) \<and>
   FindEepromPageSize (sim_platform blank_board) 0x54 (sim_init\<lparr>PageSize := 16\<rparr>) \<noteq> Some (Inl OutOfBounds) \<and>
   unat (66 :: u16) \<le> sizeof_AddressType + MAX_SIZE \<and>
   EepromWriteData (sim_platform blank_board) 66 (sim_init\<lparr>PageSize := 16\<rparr>) \<noteq> Some (Inl OutOfBounds) \<and>
   unat (64 :: u16) \<le> MAX_SIZE \<and>
   EepromReadData (sim_platform blank_board) 64 0 (sim_init\<lparr>PageSize := 16\<rparr>) \<noteq> Some (Inl OutOfBounds) \<and>
   PageSize (sim_init\<lparr>PageSize := 16\<rparr>) = 16 \<and>
   WritePhase (sim_platform blank_board) 0 (sim_init\<lparr>PageSize := 16\<rparr>) \<noteq> Some (Inl OutOfBounds) \<and>
   ReadPhase (sim_platform blank_board) 0 (sim_init\<lparr>PageSize := 16\<rparr>) \<noteq> Some (Inl OutOfBounds)"
  using buffer_accesses_within_capacity
    [of "sim_init\<lparr>PageSize := 16\<rparr>" "sim_platform blank_board" "0x54" 66 64 0 0]
  by (simp add: sizeof_AddressType_def MAX_SIZE_def)



text \<open>
  Claim C3, as stated, does not hold. On a board whose multiplexer answers at \<open>0x74\<close>
  and does not acknowledge the channel byte, no multiplexer path yields an EEPROM, and
  the locator returns failure at once: the log ends with the failed channel selection
  and holds no probe of a candidate address, although a direct probe of \<open>0x54\<close> in
  the state returned would have succeeded.
\<close>

theorem stuck_mux_skips_direct_probes:
  "IicPsFindEeprom (sim_platform stuck_mux_board) sim_init =
     Some (Inr (XST_FAILURE,
       sim_init\<lparr>bus_log := [EvEnableSlaveMonitor MUX_ADDR, EvDisableSlaveMonitor, EvWriteIsr 0x200,
                             EvSend [4] MUX_ADDR]\<rparr>)) \<and>
   fst (IicPsFindDevice (sim_platform stuck_mux_board) 0x54 0
       (sim_init\<lparr>bus_log := [EvEnableSlaveMonitor MUX_ADDR, EvDisableSlaveMonitor, EvWriteIsr 0x200,
                             EvSend [4] MUX_ADDR]\<rparr>)) = XST_SUCCESS"
  using sim_locator_stuck sim_direct_probe_stuck by (intro conjI)

text \<open>
  Claim C3, amended. On every bus instance, when the loop over the multiplexers ends
  without a return, the locator probes \<open>0x54\<close> and then \<open>0x55\<close> with
  \<open>IicPsFindDevice\<close>, which involves no multiplexer; at the first that answers it
  returns success in the state the probe left, with that address and page size 32
  stored, so the page-size detector has not run; when neither answers it goes on to the
  next instance. When the loop over the multiplexers returns (a channel selection
  failed, or an EEPROM answered behind a multiplexer and the detector ran), the locator
  returns that status in that state, and no candidate address is probed directly.
\<close>

theorem direct_probes_after_mux_loop:
  assumes "DeviceId < XPAR_XIICPS_NUM_INSTANCES hw"
  shows "(MuxLoop hw DeviceId 0 s = Some (Inr (Continue (), s1)) \<longrightarrow>
            DeviceLoop hw DeviceId s =
              (case IicPsFindDevice hw 0x54 DeviceId s1 of
                 (Status, s2) \<Rightarrow>
                   if Status = XST_SUCCESS then
                     Some (Inr (XST_SUCCESS, s2\<lparr>EepromSlvAddr := 0x54, PageSize := 32\<rparr>))
                   else
                     (case IicPsFindDevice hw 0x55 DeviceId s2 of
                        (Status, s3) \<Rightarrow>
                          if Status = XST_SUCCESS then
                            Some (Inr (XST_SUCCESS, s3\<lparr>EepromSlvAddr := 0x55, PageSize := 32\<rparr>))
                          else DeviceLoop hw (DeviceId + 1) s3))) \<and>
         (MuxLoop hw DeviceId 0 s = Some (Inr (Return Status, s1)) \<longrightarrow>
            DeviceLoop hw DeviceId s = Some (Inr (Status, s1)))"
proof (intro conjI impI)
  assume m: "MuxLoop hw DeviceId 0 s = Some (Inr (Continue (), s1))"
  obtain St2 s2 where p1: "IicPsFindDevice hw 0x54 DeviceId s1 = (St2, s2)"
    by (cases "IicPsFindDevice hw 0x54 DeviceId s1")
  obtain St3 s3 where p2: "IicPsFindDevice hw 0x55 DeviceId s2 = (St3, s3)"
    by (cases "IicPsFindDevice hw 0x55 DeviceId s2")
  show "DeviceLoop hw DeviceId s =
              (case IicPsFindDevice hw 0x54 DeviceId s1 of
                 (Status, s2) \<Rightarrow>
                   if Status = XST_SUCCESS then
                     Some (Inr (XST_SUCCESS, s2\<lparr>EepromSlvAddr := 0x54, PageSize := 32\<rparr>))
                   else
                     (case IicPsFindDevice hw 0x55 DeviceId s2 of
                        (Status, s3) \<Rightarrow>
                          if Status = XST_SUCCESS then
                            Some (Inr (XST_SUCCESS, s3\<lparr>EepromSlvAddr := 0x55, PageSize := 32\<rparr>))
                          else DeviceLoop hw (DeviceId + 1) s3))"
    by (simp add: DeviceLoop_step [OF assms] FindEepromOnDevice_def m DirectLoop_unroll p1 p2
        PAGE_SIZE_32_def ret_def)
next
  assume "MuxLoop hw DeviceId 0 s = Some (Inr (Return Status, s1))"
  then show "DeviceLoop hw DeviceId s = Some (Inr (Status, s1))"
    by (simp add: DeviceLoop_step [OF assms] FindEepromOnDevice_def)
qed

theorem direct_probes_after_mux_loop_witness:
  "(0 :: u16) < XPAR_XIICPS_NUM_INSTANCES (sim_platform direct_board) \<and>
   MuxLoop (sim_platform direct_board) 0 0 sim_init =
     Some (Inr (Continue (),
       sim_init\<lparr>bus_log := [EvEnableSlaveMonitor MUX_ADDR, EvDisableSlaveMonitor]\<rparr>)) \<and>
   DeviceLoop (sim_platform direct_board) 0 sim_init =
     Some (Inr (XST_SUCCESS,
       sim_init\<lparr>bus_log := [EvEnableSlaveMonitor MUX_ADDR, EvDisableSlaveMonitor,
                             EvEnableSlaveMonitor 0x54, EvDisableSlaveMonitor,
                             EvEnableSlaveMonitor 0x55, EvDisableSlaveMonitor, EvWriteIsr 0x200],
                EepromSlvAddr := 0x55, PageSize := 32\<rparr>)) \<and>
   (0 :: u16) < XPAR_XIICPS_NUM_INSTANCES (sim_platform stuck_mux_board) \<and>
   MuxLoop (sim_platform stuck_mux_board) 0 0 sim_init =
     Some (Inr (Return XST_FAILURE,
       sim_init\<lparr>bus_log := [EvEnableSlaveMonitor MUX_ADDR, EvDisableSlaveMonitor, EvWriteIsr 0x200,
                             EvSend [4] MUX_ADDR]\<rparr>)) \<and>
   DeviceLoop (sim_platform stuck_mux_board) 0 sim_init =
     Some (Inr (XST_FAILURE,
       sim_init\<lparr>bus_log := [EvEnableSlaveMonitor MUX_ADDR, EvDisableSlaveMonitor, EvWriteIsr 0x200,
                             EvSend [4] MUX_ADDR]\<rparr>))"
proof -
  have n1: "(0 :: u16) < XPAR_XIICPS_NUM_INSTANCES (sim_platform direct_board)" by simp
  have n2: "(0 :: u16) < XPAR_XIICPS_NUM_INSTANCES (sim_platform stuck_mux_board)" by simp
  from direct_probes_after_mux_loop [OF n1, of sim_init
      "sim_init\<lparr>bus_log := [EvEnableSlaveMonitor MUX_ADDR, EvDisableSlaveMonitor]\<rparr>" XST_SUCCESS]
  have d: "DeviceLoop (sim_platform direct_board) 0 sim_init =
     Some (Inr (XST_SUCCESS,
       sim_init\<lparr>bus_log := [EvEnableSlaveMonitor MUX_ADDR, EvDisableSlaveMonitor,
                             EvEnableSlaveMonitor 0x54, EvDisableSlaveMonitor,
                             EvEnableSlaveMonitor 0x55, EvDisableSlaveMonitor, EvWriteIsr 0x200],
                EepromSlvAddr := 0x55, PageSize := 32\<rparr>))"
    by (simp add: sim_MuxLoop_direct sim_direct_probes)
  from direct_probes_after_mux_loop [OF n2, of sim_init
      "sim_init\<lparr>bus_log := [EvEnableSlaveMonitor MUX_ADDR, EvDisableSlaveMonitor, EvWriteIsr 0x200,
                             EvSend [4] MUX_ADDR]\<rparr>" XST_FAILURE]
  have f: "DeviceLoop (sim_platform stuck_mux_board) 0 sim_init =
     Some (Inr (XST_FAILURE,
       sim_init\<lparr>bus_log := [EvEnableSlaveMonitor MUX_ADDR, EvDisableSlaveMonitor, EvWriteIsr 0x200,
                             EvSend [4] MUX_ADDR]\<rparr>))"
    by (simp add: sim_MuxLoop_stuck)
  from n1 n2 d f sim_MuxLoop_direct sim_MuxLoop_stuck show ?thesis by (intro conjI)
qed


text \<open>
  Claim C10. On every return of the page-size detector, failure returns included, the
  state returned is the one the last trial attempted left: some trial \<open>j\<close> either
  returned the detector's status itself or was the third trial and went on with it,
  and the page-size location holds that trial's candidate \<open>ps ! j\<close>, whatever it
  held when the detector was called.
\<close>

theorem page_size_left_by_last_trial:
  assumes "wf_state s" and "FindEepromPageSize hw a s = Some (Inr (Status, s'))"
  shows "\<exists>j sj r. j < 3 \<and> PageSizeTrial hw j sj = Some (Inr (r, s')) \<and>
           (r = Return Status \<or> j = 2 \<and> r = Continue Status) \<and>
           PageSize s' = ps ! j"
  using assms(2)
proof (cases rule: FindEepromPageSize_cases)
  case first
  from PageSizeTrial_post [OF assms(1) _ first] first show ?thesis
    by (intro exI [of _ 0] exI [of _ s] exI [of _ "Return Status"]) simp
next
  case (second c0 s1)
  from PageSizeTrial_post [OF assms(1) _ second(1)] have "wf_state s1" by simp
  from PageSizeTrial_post [OF this _ second(2)] second show ?thesis
    by (intro exI [of _ 1] exI [of _ s1] exI [of _ "Return Status"]) simp
next
  case (third c0 s1 c1 s2)
  from PageSizeTrial_post [OF assms(1) _ third(1)] have "wf_state s1" by simp
  from PageSizeTrial_post [OF this _ third(2)] have "wf_state s2" by simp
  from PageSizeTrial_post [OF this _ third(3)] third show ?thesis
    by (intro exI [of _ 2] exI [of _ s2] exI [of _ "Return Status"]) simp
next
  case (exhausted c0 s1 c1 s2)
  from PageSizeTrial_post [OF assms(1) _ exhausted(1)] have "wf_state s1" by simp
  from PageSizeTrial_post [OF this _ exhausted(2)] have "wf_state s2" by simp
  from PageSizeTrial_post [OF this _ exhausted(3)] exhausted show ?thesis
    by (intro exI [of _ 2] exI [of _ s2] exI [of _ "Continue Status"]) simp
qed

theorem page_size_left_by_last_trial_witness:
  "wf_state (sim_init\<lparr>EepromSlvAddr := 0x54, PageSize := 32\<rparr>) \<and>
   FindEepromPageSize (sim_platform nak_board) 0x54 (sim_init\<lparr>EepromSlvAddr := 0x54, PageSize := 32\<rparr>)
     = Some (Inr (XST_FAILURE,
         (TrialStart 0 (sim_init\<lparr>EepromSlvAddr := 0x54, PageSize := 32\<rparr>))
            \<lparr>bus_log := [EvSend (TrialAddress 0 @ TrialPage 0) 0x54]\<rparr>)) \<and>
   (\<exists>j sj r. j < 3 \<and>
      PageSizeTrial (sim_platform nak_board) j sj
        = Some (Inr (r, (TrialStart 0 (sim_init\<lparr>EepromSlvAddr := 0x54, PageSize := 32\<rparr>))
                          \<lparr>bus_log := [EvSend (TrialAddress 0 @ TrialPage 0) 0x54]\<rparr>)) \<and>
      (r = Return XST_FAILURE \<or> j = 2 \<and> r = Continue XST_FAILURE) \<and>
      PageSize ((TrialStart 0 (sim_init\<lparr>EepromSlvAddr := 0x54, PageSize := 32\<rparr>))
                  \<lparr>bus_log := [EvSend (TrialAddress 0 @ TrialPage 0) 0x54]\<rparr>) = ps ! j) \<and>
   PageSize ((TrialStart 0 (sim_init\<lparr>EepromSlvAddr := 0x54, PageSize := 32\<rparr>))
                  \<lparr>bus_log := [EvSend (TrialAddress 0 @ TrialPage 0) 0x54]\<rparr>) = 64"
proof -
  let ?s = "sim_init\<lparr>EepromSlvAddr := 0x54, PageSize := 32\<rparr>"
  let ?s' = "(TrialStart 0 ?s)\<lparr>bus_log := [EvSend (TrialAddress 0 @ TrialPage 0) 0x54]\<rparr>"
  have wf: "wf_state ?s" by simp
  have t0: "PageSizeTrial (sim_platform nak_board) 0 ?s = Some (Inr (Return XST_FAILURE, ?s'))"
    by (subst sim_PageSizeTrial_nak) (simp_all add: MUX_ADDR_def)
  have r: "FindEepromPageSize (sim_platform nak_board) 0x54 ?s = Some (Inr (XST_FAILURE, ?s'))"
    unfolding FindEepromPageSize_unfold t0 by (simp add: ret_def)
  from page_size_left_by_last_trial [OF wf r] wf r show ?thesis
    by (simp add: ps_def)
qed

end
